(* ===== verification/Prelude.thy ===== *)
theory Prelude
  imports Complex_Main
begin

text \<open>
  Shared vocabulary of the development: results of code that may throw (a sum whose left
  side is the thrown error), computations over a world that may throw, the few string
  operations of JavaScript that the sources use on short ASCII identifiers, and the lemma
  collections the component theories fill.
\<close>

named_theorems engine_simps \<open>unfolding rules for results and computations\<close>

section \<open>Results of code that may throw\<close>

type_synonym ('e, 'a) result = "'e + 'a"

definition bindR :: "('e, 'a) result \<Rightarrow> ('a \<Rightarrow> ('e, 'b) result) \<Rightarrow> ('e, 'b) result" where
  "bindR r f = (case r of Inl e \<Rightarrow> Inl e | Inr a \<Rightarrow> f a)"

definition guardR :: "bool \<Rightarrow> 'e \<Rightarrow> ('e, unit) result" where
  "guardR b e = (if b then Inr () else Inl e)"

lemma bindR_simps [simp, engine_simps]:
  "bindR (Inl e) f = Inl e"
  "bindR (Inr a) f = f a"
  by (simp_all add: bindR_def)

lemma bindR_Inr_iff: "bindR r f = Inr b \<longleftrightarrow> (\<exists>a. r = Inr a \<and> f a = Inr b)"
  by (cases r) simp_all

lemma bindR_Inl_iff: "bindR r f = Inl e \<longleftrightarrow> r = Inl e \<or> (\<exists>a. r = Inr a \<and> f a = Inl e)"
  by (cases r) simp_all

lemma guardR_iff [simp]:
  "guardR b e = Inr u \<longleftrightarrow> b"
  "guardR b e = Inl e' \<longleftrightarrow> \<not> b \<and> e' = e"
  by (auto simp: guardR_def)

fun sequenceR :: "('e, 'a) result list \<Rightarrow> ('e, 'a list) result" where
  "sequenceR [] = Inr []"
| "sequenceR (r # rs) = bindR r (\<lambda>a. bindR (sequenceR rs) (\<lambda>as. Inr (a # as)))"

lemma sequenceR_Inr_map: "sequenceR (map (\<lambda>x. Inr (f x)) xs) = Inr (map f xs)"
  by (induction xs) simp_all

definition is_ok :: "('e, 'a) result \<Rightarrow> bool" where
  "is_ok r = (case r of Inl _ \<Rightarrow> False | Inr _ \<Rightarrow> True)"

lemma is_ok_simps [simp]: "is_ok (Inr a)" "\<not> is_ok (Inl e)"
  by (simp_all add: is_ok_def)

section \<open>Computations over a world that may throw\<close>

text \<open>
  An \<open>async\<close> method that reads and writes state outside itself is a function from the
  world before to its result and the world after. A thrown error keeps the effects that
  happened before the throw, as in the source; only a transaction takes them back.
\<close>

type_synonym ('w, 'e, 'a) comp = "'w \<Rightarrow> ('e, 'a) result \<times> 'w"

definition retC :: "'a \<Rightarrow> ('w, 'e, 'a) comp" where
  "retC a w = (Inr a, w)"

definition throwC :: "'e \<Rightarrow> ('w, 'e, 'a) comp" where
  "throwC e w = (Inl e, w)"

definition bindC :: "('w, 'e, 'a) comp \<Rightarrow> ('a \<Rightarrow> ('w, 'e, 'b) comp) \<Rightarrow> ('w, 'e, 'b) comp" where
  "bindC m f w = (case m w of (Inl e, w') \<Rightarrow> (Inl e, w') | (Inr a, w') \<Rightarrow> f a w')"

definition catchC :: "('w, 'e, 'a) comp \<Rightarrow> ('e \<Rightarrow> ('w, 'f, 'a) comp) \<Rightarrow> ('w, 'f, 'a) comp" where
  "catchC m h w = (case m w of (Inl e, w') \<Rightarrow> h e w' | (Inr a, w') \<Rightarrow> (Inr a, w'))"

definition liftR :: "('e, 'a) result \<Rightarrow> ('w, 'e, 'a) comp" where
  "liftR r w = (r, w)"

definition guardC :: "bool \<Rightarrow> 'e \<Rightarrow> ('w, 'e, unit) comp" where
  "guardC b e w = (if b then (Inr (), w) else (Inl e, w))"

text \<open>A database transaction: a throw takes back every effect of its body.\<close>

definition transactionC :: "('w, 'e, 'a) comp \<Rightarrow> ('w, 'e, 'a) comp" where
  "transactionC m w = (case m w of (Inl e, _) \<Rightarrow> (Inl e, w) | (Inr a, w') \<Rightarrow> (Inr a, w'))"

lemma comp_simps [engine_simps]:
  "retC a w = (Inr a, w)"
  "throwC e w = (Inl e, w)"
  "liftR r w = (r, w)"
  "guardC True e w = (Inr (), w)"
  "guardC False e w = (Inl e, w)"
  by (simp_all add: retC_def throwC_def liftR_def guardC_def)

lemma bindC_Inr [engine_simps]: "m w = (Inr a, w') \<Longrightarrow> bindC m f w = f a w'"
  by (simp add: bindC_def)

lemma bindC_Inl [engine_simps]: "m w = (Inl e, w') \<Longrightarrow> bindC m f w = (Inl e, w')"
  by (simp add: bindC_def)

lemma bindC_retC [simp]: "bindC (retC a) f = f a"
  by (rule ext) (simp add: bindC_def retC_def)

lemma bindC_throwC [simp]: "bindC (throwC e) f = throwC e"
  by (rule ext) (simp add: bindC_def throwC_def)

lemma bindC_InrE:
  assumes "bindC m f w = (Inr b, w'')"
  obtains a w' where "m w = (Inr a, w')" "f a w' = (Inr b, w'')"
proof (cases "m w")
  case (Pair r w')
  then show ?thesis
    using assms that by (cases r) (auto simp: bindC_def)
qed

lemma bindC_cases:
  obtains (err) e w' where "m w = (Inl e, w')" "bindC m f w = (Inl e, w')"
  | (ok) a w' where "m w = (Inr a, w')" "bindC m f w = f a w'"
proof (cases "m w")
  case (Pair r w')
  then show ?thesis
    using that by (cases r) (auto simp: bindC_def)
qed

lemma transactionC_Inl: "transactionC m w = (Inl e, w') \<Longrightarrow> w' = w"
  by (auto simp: transactionC_def split: prod.splits sum.splits)

lemma transactionC_Inr: "transactionC m w = (Inr a, w') \<Longrightarrow> m w = (Inr a, w')"
  by (auto simp: transactionC_def split: prod.splits sum.splits)

text \<open>What a computation preserves, as a Hoare-like predicate used by the invariants.\<close>

definition keeps :: "('w \<Rightarrow> bool) \<Rightarrow> ('w, 'e, 'a) comp \<Rightarrow> bool" where
  "keeps P m = (\<forall>w. P w \<longrightarrow> P (snd (m w)))"

lemma keeps_retC [simp, intro]: "keeps P (retC a)"
  and keeps_throwC [simp, intro]: "keeps P (throwC e)"
  and keeps_liftR [simp, intro]: "keeps P (liftR r)"
  and keeps_guardC [simp, intro]: "keeps P (guardC b e)"
  by (simp_all add: keeps_def retC_def throwC_def liftR_def guardC_def)

lemma keepsD: "keeps P m \<Longrightarrow> P w \<Longrightarrow> m w = (r, w') \<Longrightarrow> P w'"
  unfolding keeps_def by (metis snd_conv)

lemma keepsI: "(\<And>w r w'. P w \<Longrightarrow> m w = (r, w') \<Longrightarrow> P w') \<Longrightarrow> keeps P m"
  unfolding keeps_def by (metis prod.collapse)

lemma keeps_bindC [intro]:
  assumes m: "keeps P m" and f: "\<And>a. keeps P (f a)"
  shows "keeps P (bindC m f)"
proof (rule keepsI)
  fix w r w''
  assume P: "P w" and eq: "bindC m f w = (r, w'')"
  show "P w''"
  proof (rule bindC_cases [where m = m and w = w and f = f])
    fix e w'
    assume "m w = (Inl e, w')" and "bindC m f w = (Inl e, w')"
    with eq keepsD [OF m P] show ?thesis by simp
  next
    fix a w'
    assume ok: "m w = (Inr a, w')" "bindC m f w = f a w'"
    then have "P w'" using keepsD [OF m P] by simp
    with ok eq keepsD [OF f] show ?thesis by metis
  qed
qed

lemma keeps_catchC [intro]:
  assumes m: "keeps P m" and h: "\<And>e. keeps P (h e)"
  shows "keeps P (catchC m h)"
proof (rule keepsI)
  fix w r w''
  assume P: "P w" and eq: "catchC m h w = (r, w'')"
  obtain q w' where q: "m w = (q, w')" by (cases "m w")
  then have "P w'" by (rule keepsD [OF m P])
  with q eq keepsD [OF h] show "P w''"
    by (cases q) (auto simp: catchC_def)
qed

lemma keeps_transactionC [intro]:
  assumes m: "keeps P m"
  shows "keeps P (transactionC m)"
proof (rule keepsI)
  fix w r w''
  assume P: "P w" and eq: "transactionC m w = (r, w'')"
  obtain q w' where q: "m w = (q, w')" by (cases "m w")
  then have "P w'" by (rule keepsD [OF m P])
  with q eq P show "P w''"
    by (cases q) (auto simp: transactionC_def)
qed

section \<open>Strings\<close>

text \<open>
  \<open>String.prototype.trim\<close> on the characters the sources meet: tab, line feed, vertical
  tab, form feed, carriage return, space and no-break space.
\<close>

definition js_space :: "char \<Rightarrow> bool" where
  "js_space c = (of_char c \<in> {9, 10, 11, 12, 13, 32, 160 :: nat})"

lemma js_space_bits [code]:
  "js_space (Char b0 b1 b2 b3 b4 b5 b6 b7) =
     (\<not> b4 \<and> \<not> b6
      \<and> (if b7 then b5 \<and> \<not> b3 \<and> \<not> b2 \<and> \<not> b1 \<and> \<not> b0
         else if b5 then \<not> b3 \<and> \<not> b2 \<and> \<not> b1 \<and> \<not> b0
         else b3 \<and> (b2 \<and> \<not> b1 \<or> \<not> b2 \<and> (b0 \<or> b1))))"
  by (cases b0; cases b1; cases b2; cases b3; cases b4; cases b5; cases b6; cases b7)
     (simp_all add: js_space_def of_char_def)

definition js_trim :: "string \<Rightarrow> string" where
  "js_trim s = rev (dropWhile js_space (rev (dropWhile js_space s)))"

lemma dropWhile_no_hd: "(\<forall>c \<in> set s. \<not> P c) \<Longrightarrow> dropWhile P s = s"
  by (cases s) simp_all

lemma js_trim_id: "(\<forall>c \<in> set s. \<not> js_space c) \<Longrightarrow> js_trim s = s"
  by (simp add: js_trim_def dropWhile_no_hd)

definition ascii_lower :: "char \<Rightarrow> bool" where
  "ascii_lower c = (97 \<le> (of_char c :: nat) \<and> (of_char c :: nat) \<le> 122)"

definition ascii_upper :: "char \<Rightarrow> bool" where
  "ascii_upper c = (65 \<le> (of_char c :: nat) \<and> (of_char c :: nat) \<le> 90)"

definition ascii_digit :: "char \<Rightarrow> bool" where
  "ascii_digit c = (48 \<le> (of_char c :: nat) \<and> (of_char c :: nat) \<le> 57)"

text \<open>The same tests on the bits of the character, which is how they are evaluated.\<close>

lemma ascii_bits [code]:
  "ascii_lower (Char b0 b1 b2 b3 b4 b5 b6 b7) =
     (\<not> b7 \<and> b6 \<and> b5 \<and> (b0 \<or> b1 \<or> b2 \<or> b3 \<or> b4) \<and> \<not> (b4 \<and> b3 \<and> (b2 \<or> b1 \<and> b0)))"
  "ascii_upper (Char b0 b1 b2 b3 b4 b5 b6 b7) =
     (\<not> b7 \<and> b6 \<and> \<not> b5 \<and> (b0 \<or> b1 \<or> b2 \<or> b3 \<or> b4) \<and> \<not> (b4 \<and> b3 \<and> (b2 \<or> b1 \<and> b0)))"
  "ascii_digit (Char b0 b1 b2 b3 b4 b5 b6 b7) =
     (\<not> b7 \<and> \<not> b6 \<and> b5 \<and> b4 \<and> \<not> (b3 \<and> (b2 \<or> b1)))"
  by (cases b0; cases b1; cases b2; cases b3; cases b4; cases b5; cases b6; cases b7;
      simp add: ascii_lower_def ascii_upper_def ascii_digit_def of_char_def)+

definition lower_char :: "char \<Rightarrow> char" where
  "lower_char c = (if ascii_upper c then char_of ((of_char c :: nat) + 32) else c)"

lemma lower_char_bits [code]:
  "lower_char (Char b0 b1 b2 b3 b4 b5 b6 b7) =
     (if ascii_upper (Char b0 b1 b2 b3 b4 b5 b6 b7) then Char b0 b1 b2 b3 b4 True b6 b7
      else Char b0 b1 b2 b3 b4 b5 b6 b7)"
  by (cases b0; cases b1; cases b2; cases b3; cases b4; cases b5; cases b6; cases b7;
      simp add: lower_char_def ascii_upper_def of_char_def char_of_def bit_iff_odd)

definition lower_case :: "string \<Rightarrow> string" where
  "lower_case s = map lower_char s"

lemma lower_char_lower [simp]: "lower_char (lower_char c) = lower_char c"
  by (auto simp: lower_char_def ascii_upper_def)

lemma lower_case_lower [simp]: "lower_case (lower_case s) = lower_case s"
  by (simp add: lower_case_def)

lemma js_trim_idem [simp]: "js_trim (js_trim s) = js_trim s"
proof -
  define t where "t = dropWhile js_space s"
  define u where "u = rev (dropWhile js_space (rev t))"
  have "dropWhile js_space u = u"
  proof (cases u)
    case (Cons c cs)
    have "\<exists>v. t = u @ v"
      unfolding u_def by (metis append_eq_append_conv2 rev_append rev_rev_ident takeWhile_dropWhile_id)
    then have "hd t = c" "t \<noteq> []" using Cons by auto
    then have "\<not> js_space c" using hd_dropWhile [of js_space s] by (simp add: t_def)
    then show ?thesis using Cons by simp
  qed simp
  then have "js_trim u = u" by (simp add: js_trim_def) (simp add: u_def)
  then show ?thesis by (simp add: u_def t_def js_trim_def)
qed

section \<open>JavaScript values\<close>

text \<open>
  A \<open>number\<close> that has not been validated yet: a finite one is the rational it denotes,
  and \<open>Not_finite\<close> stands for \<open>NaN\<close> and both infinities, which the validators of the
  sources refuse alike. The rounding of IEEE 754 arithmetic is not modelled.
\<close>

datatype js_number = Finite rat | Not_finite

definition rat_int :: "rat \<Rightarrow> bool" where
  "rat_int q = (of_int \<lfloor>q\<rfloor> = q)"

fun num :: "js_number \<Rightarrow> rat" where
  "num (Finite q) = q"
| "num Not_finite = 0"

fun js_finite :: "js_number \<Rightarrow> bool" where
  "js_finite (Finite _) = True"
| "js_finite Not_finite = False"

fun js_integer :: "js_number \<Rightarrow> bool" where
  "js_integer (Finite q) = rat_int q"
| "js_integer Not_finite = False"

definition js_int :: "js_number \<Rightarrow> int" where
  "js_int n = \<lfloor>num n\<rfloor>"

definition js_round :: "rat \<Rightarrow> int" where
  "js_round q = \<lfloor>q + 1 / 2\<rfloor>"

lemma rat_int_iff: "rat_int q \<longleftrightarrow> (\<exists>i. q = of_int i)"
proof
  assume "rat_int q"
  then have "q = of_int \<lfloor>q\<rfloor>" unfolding rat_int_def by (rule sym)
  then show "\<exists>i. q = of_int i" ..
qed (auto simp: rat_int_def)

lemma rat_int_simps [simp]:
  "rat_int (of_int i)" "rat_int 0" "rat_int 1" "rat_int (numeral k)" "rat_int (of_nat n)"
  unfolding rat_int_iff
  by (metis of_int_0 of_int_1 of_int_numeral of_int_of_nat_eq)+

lemma js_integer_of_int [simp]: "js_integer (Finite (of_int i))"
  by simp

lemma js_int_of_int [simp]: "js_int (Finite (of_int i)) = i"
  by (simp add: js_int_def)

lemma js_integer_num: "js_integer n \<Longrightarrow> num n = of_int (js_int n)"
  by (cases n) (auto simp: js_int_def rat_int_iff)

lemma js_integer_finite: "js_integer n \<Longrightarrow> js_finite n"
  by (cases n) simp_all

lemma js_integer_cases:
  assumes "js_integer n"
  obtains i where "n = Finite (of_int i)"
  using assms by (cases n) (auto simp: rat_int_iff)

text \<open>
  A value of type \<open>unknown\<close>. A field that is absent reads as \<open>undefined\<close>; the keys of an
  object are distinct in JavaScript, and the first pair of a list decides here.
\<close>

datatype js_value =
  JUndefined | JNull | JBool bool | JNum js_number | JStr string
| JArr "js_value list" | JObj "(string \<times> js_value) list"

definition js_field :: "(string \<times> js_value) list \<Rightarrow> string \<Rightarrow> js_value" where
  "js_field fs k = (case map_of fs k of None \<Rightarrow> JUndefined | Some v \<Rightarrow> v)"

section \<open>Options and lists\<close>

lemma pred_option_code [code]:
  "pred_option P None = True"
  "pred_option P (Some a) = P a"
  by simp_all

lemma map_of_Some_set: "map_of xs k = Some v \<Longrightarrow> v \<in> snd ` set xs"
  by (force dest: map_of_SomeD)

lemma sum_list_filter_le: "sum_list (map f (filter P xs)) \<le> sum_list (map (f :: _ \<Rightarrow> nat) xs)"
  by (induction xs) auto

end
