(* ===== verification/Contracts.thy ===== *)
theory Contracts
  imports Prelude
begin

text \<open>
  The vocabulary of \<open>packages/contracts/src/capability.ts\<close> and
  \<open>packages/contracts/src/human-only.ts\<close>: actors, invocation sources, mutation
  transports, scopes and the four protected action IDs. A UUID or a digest is a string, a
  timestamp is the number of milliseconds that \<open>Date.parse\<close> gives for it.
\<close>

type_synonym uuid = string
type_synonym digest = string
type_synonym timestamp = int

section \<open>Callers and surfaces\<close>

text \<open>
  \<open>CapabilityPrincipalKindSchema\<close>; its last three members are also
  \<open>ActorKindSchema\<close>, as in the source, where the two enums share their strings.
\<close>

datatype principal_kind =
  Pre_session_oidc | Verified_refresh_credential | Human | Agent | System

datatype actor =
  Human_actor (userId: uuid) (sessionId: uuid)
| Agent_actor (agentId: uuid) (apiKeyId: uuid)
| System_actor (serviceId: string)

fun actor_kind :: "actor \<Rightarrow> principal_kind" where
  "actor_kind (Human_actor _ _) = Human"
| "actor_kind (Agent_actor _ _) = Agent"
| "actor_kind (System_actor _) = System"

datatype invocation_source =
  Web | Mobile | Agent_rest | Mcp | Worker | Scheduled_job | Webhook

datatype http_method = POST | PUT | PATCH | DELETE

text \<open>
  \<open>MutationTransportSchema\<close>. Fields that the schema fixes to one literal (method and
  interaction of an interactive submit, \<open>csrfVerified: true\<close>) carry no information.
\<close>

datatype mutation_transport =
  Web_interactive | Mobile_interactive | Agent_rest_command http_method
| Mcp_tool_call | Worker_execution | Scheduled_execution | Webhook_delivery

datatype transport_kind =
  K_web_interactive | K_mobile_interactive | K_agent_rest_command | K_mcp_tool_call
| K_worker_execution | K_scheduled_execution | K_webhook_delivery

fun kind_of_transport :: "mutation_transport \<Rightarrow> transport_kind" where
  "kind_of_transport Web_interactive = K_web_interactive"
| "kind_of_transport Mobile_interactive = K_mobile_interactive"
| "kind_of_transport (Agent_rest_command _) = K_agent_rest_command"
| "kind_of_transport Mcp_tool_call = K_mcp_tool_call"
| "kind_of_transport Worker_execution = K_worker_execution"
| "kind_of_transport Scheduled_execution = K_scheduled_execution"
| "kind_of_transport Webhook_delivery = K_webhook_delivery"

fun mutationTransportKindBySource :: "invocation_source \<Rightarrow> transport_kind" where
  "mutationTransportKindBySource Web = K_web_interactive"
| "mutationTransportKindBySource Mobile = K_mobile_interactive"
| "mutationTransportKindBySource Agent_rest = K_agent_rest_command"
| "mutationTransportKindBySource Mcp = K_mcp_tool_call"
| "mutationTransportKindBySource Worker = K_worker_execution"
| "mutationTransportKindBySource Scheduled_job = K_scheduled_execution"
| "mutationTransportKindBySource Webhook = K_webhook_delivery"

fun sourcesByActor :: "principal_kind \<Rightarrow> invocation_source list" where
  "sourcesByActor Human = [Web, Mobile]"
| "sourcesByActor Agent = [Agent_rest, Mcp]"
| "sourcesByActor System = [Worker, Scheduled_job, Webhook]"
| "sourcesByActor _ = []"

definition isActorSourceCompatible :: "actor \<Rightarrow> invocation_source \<Rightarrow> bool" where
  "isActorSourceCompatible a s = (s \<in> set (sourcesByActor (actor_kind a)))"

lemma human_sources: "isActorSourceCompatible (Human_actor u v) s \<longleftrightarrow> s = Web \<or> s = Mobile"
  by (auto simp: isActorSourceCompatible_def)

text \<open>A source belongs to one actor kind only, so provenance pairs are unambiguous.\<close>

lemma source_determines_actor_kind:
  "isActorSourceCompatible a s \<Longrightarrow> isActorSourceCompatible b s \<Longrightarrow> actor_kind a = actor_kind b"
  by (cases a; cases b) (auto simp: isActorSourceCompatible_def)

section \<open>Scope\<close>

datatype facility_scope = District | Facilities (facilityIds: "uuid list")

text \<open>\<open>CapabilityScopeSchema\<close>: an absent \<open>campusFacilityIds\<close> is \<open>None\<close>.\<close>

record capability_scope =
  facilityScope :: facility_scope
  campusFacilityIds :: "uuid list option"
  partner :: bool

section \<open>Human-only actions\<close>

datatype human_only_action =
  Start_real_incident | Send_real_notification | All_clear | Close_real_event

fun human_only_id :: "human_only_action \<Rightarrow> string" where
  "human_only_id Start_real_incident = ''start-real-incident''"
| "human_only_id Send_real_notification = ''send-real-notification''"
| "human_only_id All_clear = ''all-clear''"
| "human_only_id Close_real_event = ''close-real-event''"

definition HUMAN_ONLY_ACTION_IDS :: "string list" where
  "HUMAN_ONLY_ACTION_IDS =
     [''start-real-incident'', ''send-real-notification'', ''all-clear'', ''close-real-event'']"

definition isHumanOnlyActionId :: "string \<Rightarrow> bool" where
  "isHumanOnlyActionId v = (v \<in> set HUMAN_ONLY_ACTION_IDS)"

lemma isHumanOnlyActionId_iff: "isHumanOnlyActionId v \<longleftrightarrow> (\<exists>a. v = human_only_id a)"
proof
  assume "isHumanOnlyActionId v"
  then show "\<exists>a. v = human_only_id a"
    unfolding isHumanOnlyActionId_def HUMAN_ONLY_ACTION_IDS_def
    using human_only_id.simps by (metis empty_iff empty_set set_ConsD)
next
  assume "\<exists>a. v = human_only_id a"
  then obtain a where "v = human_only_id a" ..
  then show "isHumanOnlyActionId v"
    by (cases a) (simp_all add: isHumanOnlyActionId_def HUMAN_ONLY_ACTION_IDS_def)
qed

section \<open>Identifiers\<close>

text \<open>
  \<open>CapabilityIdSchema\<close>: trimmed, 1 to 120 characters, one or more runs of lower-case
  letters and digits joined by single hyphens (\<open>[a-z0-9]+(?:-[a-z0-9]+)*\<close>).
\<close>

definition kebab_char :: "char \<Rightarrow> bool" where
  "kebab_char c = (ascii_lower c \<or> ascii_digit c)"

text \<open>The same test on the bits of the character, which is how it is evaluated.\<close>

lemma kebab_char_bits [code]:
  "kebab_char (Char b0 b1 b2 b3 b4 b5 b6 b7) =
     (\<not> b7 \<and> b5 \<and>
      (if b6 then (b0 \<or> b1 \<or> b2 \<or> b3 \<or> b4) \<and> \<not> (b4 \<and> b3 \<and> (b2 \<or> b1 \<and> b0))
       else b4 \<and> \<not> (b3 \<and> (b2 \<or> b1))))"
  by (cases b0; cases b1; cases b2; cases b3; cases b4; cases b5; cases b6; cases b7)
     (simp_all add: kebab_char_def ascii_lower_def ascii_digit_def of_char_def)

fun kebab_tail :: "string \<Rightarrow> bool" where
  "kebab_tail [] = True"
| "kebab_tail (c # cs) =
     (if c = CHR ''-'' then (case cs of [] \<Rightarrow> False | d # ds \<Rightarrow> kebab_char d \<and> kebab_tail ds)
      else kebab_char c \<and> kebab_tail cs)"

fun kebab :: "string \<Rightarrow> bool" where
  "kebab [] = False"
| "kebab (c # cs) = (kebab_char c \<and> kebab_tail cs)"

definition CapabilityIdSchema :: "string \<Rightarrow> bool" where
  "CapabilityIdSchema v =
     (let t = js_trim v in 1 \<le> length t \<and> length t \<le> 120 \<and> kebab t)"

text \<open>\<open>IdempotencyKeySchema\<close>: the trimmed key, or no value when the key is refused.\<close>

definition key_char :: "char \<Rightarrow> bool" where
  "key_char c =
     (ascii_lower c \<or> ascii_upper c \<or> ascii_digit c
      \<or> c \<in> {CHR ''.'', CHR ''_'', CHR '':'', CHR ''-''})"

definition IdempotencyKeySchema :: "string \<Rightarrow> string option" where
  "IdempotencyKeySchema v =
     (let t = js_trim v
      in if 16 \<le> length t \<and> length t \<le> 200 \<and> list_all key_char t then Some t else None)"

definition hex_char :: "char \<Rightarrow> bool" where
  "hex_char c = (ascii_digit c \<or> (97 \<le> (of_char c :: nat) \<and> (of_char c :: nat) \<le> 102))"

definition digest_ok :: "string \<Rightarrow> bool" where
  "digest_ok d = (length d = 64 \<and> list_all hex_char d)"

text \<open>The same test on the bits of the character.\<close>

lemma hex_char_bits [code]:
  "hex_char (Char b0 b1 b2 b3 b4 b5 b6 b7) =
     (\<not> b7 \<and> b5 \<and>
      (if b6 then \<not> b4 \<and> \<not> b3 \<and> (b0 \<or> b1 \<or> b2) \<and> \<not> (b0 \<and> b1 \<and> b2)
       else b4 \<and> \<not> (b3 \<and> (b2 \<or> b1))))"
  by (cases b0; cases b1; cases b2; cases b3; cases b4; cases b5; cases b6; cases b7)
     (simp_all add: hex_char_def ascii_digit_def of_char_def)

text \<open>
  \<open>z.string().uuid()\<close>: groups of 8, 4, 4, 4 and 12 hexadecimal digits joined by hyphens,
  with a version digit from 1 to 8 and a variant digit 8, 9, a or b; or the nil or the max UUID.
\<close>

definition hexa :: "char \<Rightarrow> bool" where
  "hexa c = (hex_char c \<or> c \<in> {CHR ''A'', CHR ''B'', CHR ''C'', CHR ''D'', CHR ''E'', CHR ''F''})"

definition nil_uuid :: uuid where
  "nil_uuid = ''00000000-0000-0000-0000-000000000000''"

definition max_uuid :: uuid where
  "max_uuid = ''ffffffff-ffff-ffff-ffff-ffffffffffff''"

definition uuid_pattern :: "(char \<Rightarrow> bool) list" where
  "uuid_pattern =
     (let h = hexa; hyphen = (\<lambda>c. c = CHR ''-'')
      in [h, h, h, h, h, h, h, h, hyphen, h, h, h, h, hyphen,
          \<lambda>c. c \<in> set ''12345678'', h, h, h, hyphen, \<lambda>c. c \<in> set ''89abAB'', h, h, h, hyphen,
          h, h, h, h, h, h, h, h, h, h, h, h])"

definition uuid_ok :: "string \<Rightarrow> bool" where
  "uuid_ok s = (s = nil_uuid \<or> s = max_uuid \<or> list_all2 (\<lambda>p c. p c) uuid_pattern s)"

text \<open>A reason code: 1 to 100 upper-case letters, digits and underscores.\<close>

definition safe_code_char :: "char \<Rightarrow> bool" where
  "safe_code_char c = (ascii_upper c \<or> ascii_digit c \<or> c = CHR ''_'')"

definition safe_code :: "string \<Rightarrow> bool" where
  "safe_code s = (1 \<le> length s \<and> length s \<le> 100 \<and> list_all safe_code_char s)"

definition bounded_text :: "nat \<Rightarrow> string \<Rightarrow> bool" where
  "bounded_text n s = (js_trim s = s \<and> 1 \<le> length s \<and> length s \<le> n)"

text \<open>\<open>IntegrationIdSchema\<close> and the \<open>serviceId\<close> of a system actor.\<close>

definition IntegrationIdSchema :: "string \<Rightarrow> bool" where
  "IntegrationIdSchema s = (bounded_text 100 s \<and> kebab s)"

fun ActorSchema :: "actor \<Rightarrow> bool" where
  "ActorSchema (Human_actor u s) = (uuid_ok u \<and> uuid_ok s)"
| "ActorSchema (Agent_actor a k) = (uuid_ok a \<and> uuid_ok k)"
| "ActorSchema (System_actor s) = IntegrationIdSchema s"

fun FacilityScopeSchema :: "facility_scope \<Rightarrow> bool" where
  "FacilityScopeSchema District = True"
| "FacilityScopeSchema (Facilities ids) = (ids \<noteq> [] \<and> list_all uuid_ok ids \<and> distinct ids)"

definition isAtOrAfter :: "timestamp \<Rightarrow> timestamp \<Rightarrow> bool" where
  "isAtOrAfter later earlier = (later \<ge> earlier)"

section \<open>Sample identifiers\<close>

lemma nil_uuid_ok [simp]: "uuid_ok nil_uuid"
  and max_uuid_ok [simp]: "uuid_ok max_uuid"
  by (simp_all add: uuid_ok_def)

lemma version_4_uuid_ok: "uuid_ok ''f81d4fae-7dec-4d00-a765-00A0C91e6bf6''"
  by code_simp

lemma nil_max_uuid [simp]: "nil_uuid \<noteq> max_uuid" "max_uuid \<noteq> nil_uuid"
  by (simp_all add: nil_uuid_def max_uuid_def)

definition zero_digest :: digest where
  "zero_digest = replicate 64 (CHR ''0'')"

lemma zero_digest_ok [simp]: "digest_ok zero_digest"
  by (simp add: zero_digest_def digest_ok_def hex_char_def ascii_digit_def list_all_iff)

definition sample_key :: string where
  "sample_key = ''sample-key-00001''"

lemma sample_key_ok [simp]: "IdempotencyKeySchema sample_key = Some sample_key"
  by code_simp

end
