(* ===== verification/Catalog_Views.thy ===== *)
theory Catalog_Views
  imports Catalog
begin

text \<open>
  The views derived from a catalog (\<open>deriveCapabilityViews\<close>, \<open>applyDerivedOrder\<close> of
  \<open>capability-catalog.ts\<close>), for any catalog: the stable insertion points only permute the
  entries and put each entry after its target, and the manifests say exactly what the
  entries say.
\<close>

lemma obj_set_new: "k \<notin> fst ` set o' \<Longrightarrow> obj_set k v o' = o' @ [(k, v)]"
  by (induction o') auto

lemma spread_distinct:
  "distinct (map fst (acc @ es)) \<Longrightarrow> spread acc es = acc @ es"
proof (induction acc es rule: spread.induct)
  case (2 acc k v rest)
  then show ?case by (simp add: obj_set_new)
qed simp

lemma first_key_mismatch_None: "first_key_mismatch c = None \<longleftrightarrow> list_all (\<lambda>(k, d). k = def_id d) c"
  by (induction c rule: first_key_mismatch.induct) auto

section \<open>Derived order\<close>

lemma insert_after_mset:
  "insert_after t e xs = Some ys \<Longrightarrow> mset ys = add_mset e (mset xs)"
  by (induction t e xs arbitrary: ys rule: insert_after.induct) (auto split: if_splits)

lemma place_ordered_mset:
  "place_ordered es xs = Inr ys \<Longrightarrow>
     mset ys = mset xs + mset (filter (\<lambda>e. orderAfter e \<noteq> None) es)"
proof (induction es xs arbitrary: ys rule: place_ordered.induct)
  case (2 e es ordered)
  then show ?case
    by (auto split: option.splits dest!: insert_after_mset)
qed simp

lemma applyDerivedOrder_mset: "applyDerivedOrder es = Inr ys \<Longrightarrow> mset ys = mset es"
  unfolding applyDerivedOrder_def
  by (drule place_ordered_mset) (simp add: union_code [symmetric] multiset_partition [symmetric])

text \<open>An entry placed after a target stays after some entry with that id.\<close>

definition after_target :: "'v ordered_entry \<Rightarrow> 'v ordered_entry list \<Rightarrow> bool" where
  "after_target e xs =
     (\<forall>t. orderAfter e = Some t \<longrightarrow>
        (\<exists>us vs. xs = us @ e # vs \<and> t \<in> oe_id ` set us))"

lemma insert_after_split:
  "insert_after t e xs = Some ys \<Longrightarrow>
     \<exists>us x vs. xs = us @ x # vs \<and> oe_id x = t \<and> ys = us @ x # e # vs"
proof (induction t e xs arbitrary: ys rule: insert_after.induct)
  case (2 target e x xs)
  show ?case
  proof (cases "oe_id x = target")
    case True
    with 2 show ?thesis by (intro exI [of _ "[]"]) simp
  next
    case False
    with 2 obtain zs where zs: "insert_after target e xs = Some zs" "ys = x # zs" by auto
    with 2 False obtain us y vs where "xs = us @ y # vs" "oe_id y = target" "zs = us @ y # e # vs"
      by blast
    with zs show ?thesis by (intro exI [of _ "x # us"] exI [of _ y] exI [of _ vs]) simp
  qed
qed simp

lemma insert_after_target:
  assumes "insert_after t e xs = Some ys" and "orderAfter e = Some t"
  shows "after_target e ys"
proof -
  from insert_after_split [OF assms(1)] obtain us x vs
    where "oe_id x = t" "ys = us @ x # e # vs" by blast
  then have "ys = (us @ [x]) @ e # vs" and "t \<in> oe_id ` set (us @ [x])" by simp_all
  with assms(2) show ?thesis unfolding after_target_def by (metis option.inject)
qed

lemma insert_after_keeps_target:
  assumes "insert_after t e xs = Some ys" and "after_target d xs"
  shows "after_target d ys"
  unfolding after_target_def
proof (intro allI impI)
  fix u
  assume "orderAfter d = Some u"
  with assms(2) obtain us vs where d: "xs = us @ d # vs" "u \<in> oe_id ` set us"
    unfolding after_target_def by blast
  from insert_after_split [OF assms(1)] obtain ps x qs
    where i: "xs = ps @ x # qs" "ys = (ps @ [x]) @ e # qs" by auto
  from d(1) i(1) have "us @ d # vs = (ps @ [x]) @ qs" by simp
  then consider (left) zs where "ps @ [x] = us @ d # zs" "vs = zs @ qs"
    | (right) zs where "us = (ps @ [x]) @ zs" "qs = zs @ d # vs"
    by (auto simp: append_eq_append_conv2 Cons_eq_append_conv append_eq_Cons_conv)
  then show "\<exists>us vs. ys = us @ d # vs \<and> u \<in> oe_id ` set us"
  proof cases
    case left
    with i(2) have "ys = us @ d # (zs @ e # qs)" by simp
    with d(2) show ?thesis by blast
  next
    case right
    with i(2) have "ys = (ps @ [x] @ e # zs) @ d # vs" by simp
    moreover have "u \<in> oe_id ` set (ps @ [x] @ e # zs)" using d(2) right by auto
    ultimately show ?thesis by blast
  qed
qed

lemma place_ordered_targets:
  "place_ordered es xs = Inr ys \<Longrightarrow>
     (\<forall>e \<in> set es. after_target e ys) \<and> (\<forall>d. after_target d xs \<longrightarrow> after_target d ys)"
proof (induction es xs arbitrary: ys rule: place_ordered.induct)
  case (2 e es ordered)
  show ?case
  proof (cases "orderAfter e")
    case None
    with 2 show ?thesis by (auto simp: after_target_def)
  next
    case (Some t)
    with "2.prems" obtain mid where mid: "insert_after t e ordered = Some mid"
      "place_ordered es mid = Inr ys" by (auto split: option.splits)
    with "2.IH"(2) [OF Some mid(1)] show ?thesis
      using insert_after_target [OF mid(1) Some] insert_after_keeps_target [OF mid(1)] by auto
  qed
qed simp

section \<open>Derived views of any catalog\<close>

lemma not_Mutation [simp]: "operation d \<noteq> Mutation \<longleftrightarrow> operation d = Query"
  by (cases "operation d") simp_all

lemma set_mutation_entries:
  "oe_id ` set (mutation_entries c) = {def_id d | k d. (k, d) \<in> set c \<and> operation d = Mutation}"
  by (induction c rule: mutation_entries.induct) auto

lemma set_agent_grantable_entries:
  "oe_id ` set (agent_grantable_entries c)
     = {def_id d | k d. (k, d) \<in> set c \<and> agentGrantable (invocation d)}"
  by (induction c rule: agent_grantable_entries.induct) auto

lemma map_id_mutation_entries:
  "map (\<lambda>e. (oe_id e, oe_value e)) (mutation_entries c) =
     map (\<lambda>(k, d). (def_id d, safetyEffect d)) (filter (\<lambda>(k, d). operation d = Mutation) c)"
  by (induction c rule: mutation_entries.induct) auto

lemma distinct_map_filter_fst:
  "distinct (map f xs) \<Longrightarrow> distinct (map f (filter P xs))"
  by (induction xs) auto

lemma mset_eq_set_distinct:
  "mset xs = mset ys \<Longrightarrow> set xs = set ys \<and> (distinct (map f xs) \<longleftrightarrow> distinct (map f ys))"
  by (metis mset_eq_imp_distinct_iff mset_eq_setD mset_map)

lemma derived_views_facts:
  assumes "distinct (map fst c)" and "deriveCapabilityViews c = Inr views"
  shows "map_of (mutationSafetyManifest views) i = Some e \<longleftrightarrow>
           (\<exists>d. (i, d) \<in> set c \<and> operation d = Mutation \<and> safetyEffect d = e)"
    and "i \<in> set (queryManifest views) \<longleftrightarrow> (\<exists>d. (i, d) \<in> set c \<and> operation d = Query)"
    and "i \<in> set (agentGrantableCapabilityIds views) \<longleftrightarrow>
           (\<exists>d. (i, d) \<in> set c \<and> agentGrantable (invocation d))"
    and "registeredCapabilityIds views = map fst c"
proof -
  from assms(2) have keys: "\<forall>(k, d) \<in> set c. k = def_id d"
    by (auto simp: deriveCapabilityViews_def first_key_mismatch_None list_all_iff split: option.splits)
  from assms(2) obtain ms gs where
    ms: "applyDerivedOrder (mutation_entries c) = Inr ms" and
    gs: "applyDerivedOrder (agent_grantable_entries c) = Inr gs" and
    v: "mutationSafetyManifest views = spread [] (map (\<lambda>e. (oe_id e, oe_value e)) ms)"
       "queryManifest views = map (\<lambda>(_, d). def_id d) (filter (\<lambda>(_, d). operation d \<noteq> Mutation) c)"
       "agentGrantableCapabilityIds views = map oe_id gs"
       "registeredCapabilityIds views = map (\<lambda>(_, d). def_id d) c"
    by (auto simp: deriveCapabilityViews_def bindR_Inr_iff split: option.splits)
  have fst_c: "map (\<lambda>(_, d). def_id d) c = map fst c"
    using keys by (auto intro!: map_cong)
  then show "registeredCapabilityIds views = map fst c" by (simp add: v)
  show "i \<in> set (queryManifest views) \<longleftrightarrow> (\<exists>d. (i, d) \<in> set c \<and> operation d = Query)"
    unfolding v using keys by (force simp: image_iff)
  show "i \<in> set (agentGrantableCapabilityIds views) \<longleftrightarrow>
      (\<exists>d. (i, d) \<in> set c \<and> agentGrantable (invocation d))"
  proof -
    from applyDerivedOrder_mset [OF gs] have "set gs = set (agent_grantable_entries c)"
      by (rule mset_eq_setD)
    then have "set (map oe_id gs) = {def_id d | k d. (k, d) \<in> set c \<and> agentGrantable (invocation d)}"
      by (simp add: set_agent_grantable_entries)
    then show ?thesis unfolding v using keys by fastforce
  qed
  show "map_of (mutationSafetyManifest views) i = Some e \<longleftrightarrow>
      (\<exists>d. (i, d) \<in> set c \<and> operation d = Mutation \<and> safetyEffect d = e)"
  proof -
    let ?m = "map (\<lambda>e. (oe_id e, oe_value e)) (mutation_entries c)"
    let ?g = "map (\<lambda>e. (oe_id e, oe_value e)) ms"
    have perm: "mset ?g = mset ?m"
      using applyDerivedOrder_mset [OF ms] by simp
    have fst_m: "map fst ?m = map fst (filter (\<lambda>(k, d). operation d = Mutation) c)"
      unfolding map_id_mutation_entries using keys by (auto intro!: map_cong)
    have "distinct (map fst ?m)"
      unfolding fst_m by (rule distinct_map_filter_fst [OF assms(1)])
    with perm have dist: "distinct (map fst ?g)" and sets: "set ?g = set ?m"
      using mset_eq_set_distinct [OF perm, of fst] by (simp_all del: map_map)
    have "spread [] ?g = ?g"
      using spread_distinct [of "[]" ?g] dist by simp
    then have "map_of (mutationSafetyManifest views) i = Some e \<longleftrightarrow> (i, e) \<in> set ?g"
      unfolding v using map_of_eq_Some_iff [OF dist] by simp
    also have "\<dots> \<longleftrightarrow> (i, e) \<in> set ?m" by (simp only: sets)
    also have "\<dots> \<longleftrightarrow> (\<exists>d. (i, d) \<in> set c \<and> operation d = Mutation \<and> safetyEffect d = e)"
    proof -
      have "?m = map (\<lambda>(k, d). (k, safetyEffect d)) (filter (\<lambda>(k, d). operation d = Mutation) c)"
        unfolding map_id_mutation_entries using keys by (auto intro!: map_cong)
      then show ?thesis by (simp only: set_map) (auto simp: image_iff)
    qed
    finally show ?thesis .
  qed
qed

text \<open>
  C39. For any catalog with distinct keys whose views can be derived,
  the mutation manifest gives exactly the mutations with their effects, the query manifest
  exactly the other ids, and the agent vocabulary exactly the ids whose policy admits an
  agent; the stable insertion points only permute them.
\<close>

theorem derived_views_exact:
  assumes "distinct (map fst c)" and "deriveCapabilityViews c = Inr views"
  shows "(map_of (mutationSafetyManifest views) i = Some e \<longleftrightarrow>
            (\<exists>d. (i, d) \<in> set c \<and> operation d = Mutation \<and> safetyEffect d = e))
       \<and> (i \<in> set (queryManifest views) \<longleftrightarrow> (\<exists>d. (i, d) \<in> set c \<and> operation d = Query))
       \<and> (i \<in> set (agentGrantableCapabilityIds views) \<longleftrightarrow>
            (\<exists>d. (i, d) \<in> set c \<and> agentGrantable (invocation d)))
       \<and> registeredCapabilityIds views = map fst c"
  by (intro conjI derived_views_facts [OF assms])

text \<open>
  C40. The stable order of persisted enum members is a permutation
  of the catalog's entries in which every entry with an insertion point comes after the
  entry it names.
\<close>

theorem derived_order_stable:
  assumes "applyDerivedOrder es = Inr ys"
  shows "mset ys = mset es \<and> (\<forall>e \<in> set es. after_target e ys)"
  using applyDerivedOrder_mset [OF assms] place_ordered_targets assms
  unfolding applyDerivedOrder_def by blast

theorem derived_order_stable_witness:
  "\<exists>ys. applyDerivedOrder [\<lparr>oe_id = ''b'', oe_value = (), orderAfter = Some ''a''\<rparr>,
       \<lparr>oe_id = ''a'', oe_value = (), orderAfter = None\<rparr>] = Inr ys
     \<and> after_target \<lparr>oe_id = ''b'', oe_value = (), orderAfter = Some ''a''\<rparr> ys"
proof -
  let ?es = "[\<lparr>oe_id = ''b'', oe_value = (), orderAfter = Some ''a''\<rparr>,
       \<lparr>oe_id = ''a'', oe_value = (), orderAfter = None\<rparr>] :: unit ordered_entry list"
  have "applyDerivedOrder ?es = Inr [\<lparr>oe_id = ''a'', oe_value = (), orderAfter = None\<rparr>,
      \<lparr>oe_id = ''b'', oe_value = (), orderAfter = Some ''a''\<rparr>]"
    by (simp add: applyDerivedOrder_def)
  with derived_order_stable [OF this] show ?thesis by simp
qed

end
