(* ===== verification/Catalog_Facts.thy ===== *)
theory Catalog_Facts
  imports Catalog_Views
begin

text \<open>
  What the catalog's load establishes: every entry is accepted, the keys are distinct and
  equal to the ids, the derived manifests say exactly what the entries say, and the two
  written allowlists stay inside it. The tables are evaluated once, entry by entry; the
  properties rest on \<open>catalog_list\<close>, the value of \<open>CAPABILITY_CATALOG\<close>.
\<close>

section \<open>The value of the catalog\<close>

text \<open>The key of an entry with its loaded definition (only used where the load succeeds).\<close>

definition entry_def :: "catalog_entry \<Rightarrow> string \<times> capability_definition" where
  "entry_def e = (fst e, projr (snd e))"

text \<open>Two strings that differ in an early character are told apart there.\<close>

lemma Cons_neq_early: "(c :: char) \<noteq> d \<Longrightarrow> (c # cs = d # ds) = False"
  by simp

lemma fst_capability [simp]: "fst (capability k i oper eff p a m g x y) = k"
  by (simp add: capability_def)

lemma snd_capability:
  "snd (capability k i oper eff p a m g x y) =
     bindR p (\<lambda>p. canonicalCapability
        \<lparr>arg_id = i, arg_operation = oper, arg_safetyEffect = eff,
         arg_invocationPolicy = p, arg_auditPolicy = a,
         arg_mutationOrderAfter = m, arg_agentGrantOrderAfter = g,
         arg_inputSchema = x, arg_outputSchema = y\<rparr>)"
  by (simp add: capability_def)

lemmas catalog_tables =
  CAPABILITY_CATALOG_BASE_1_def CAPABILITY_CATALOG_BASE_2_def CAPABILITY_CATALOG_BASE_3_def
  CAPABILITY_CATALOG_BASE_4_def CAPABILITY_CATALOG_BASE_5_def AGENT_API_CAPABILITY_CATALOG_def

lemmas capability_id_eval =
  CapabilityIdSchema_def js_trim_def js_space_bits kebab_char_bits

lemmas entry_eval =
  snd_capability policy_values canonicalCapability_def CapabilityInvocationPolicySchema_def

lemma entries_ok_1: "list_all (\<lambda>e. is_ok (snd e)) CAPABILITY_CATALOG_BASE_1"
  by (simp add: CAPABILITY_CATALOG_BASE_1_def entry_eval capability_id_eval)

lemma entries_ok_2: "list_all (\<lambda>e. is_ok (snd e)) CAPABILITY_CATALOG_BASE_2"
  by (simp add: CAPABILITY_CATALOG_BASE_2_def entry_eval capability_id_eval)

lemma entries_ok_3: "list_all (\<lambda>e. is_ok (snd e)) CAPABILITY_CATALOG_BASE_3"
  by (simp add: CAPABILITY_CATALOG_BASE_3_def entry_eval capability_id_eval)

lemma entries_ok_4: "list_all (\<lambda>e. is_ok (snd e)) CAPABILITY_CATALOG_BASE_4"
  by (simp add: CAPABILITY_CATALOG_BASE_4_def entry_eval capability_id_eval)

lemma entries_ok_5: "list_all (\<lambda>e. is_ok (snd e)) CAPABILITY_CATALOG_BASE_5"
  by (simp add: CAPABILITY_CATALOG_BASE_5_def entry_eval capability_id_eval)

lemma entries_ok_agent: "list_all (\<lambda>e. is_ok (snd e)) AGENT_API_CAPABILITY_CATALOG"
  by (simp add: AGENT_API_CAPABILITY_CATALOG_def entry_eval capability_id_eval)

lemma eval_object_ok:
  "list_all (\<lambda>e. is_ok (snd e)) es \<Longrightarrow> eval_object es = Inr (map entry_def es)"
proof (induction es)
  case Nil
  then show ?case by (simp add: eval_object_def)
next
  case (Cons e es)
  then show ?case
    by (cases e; cases "snd e") (auto simp: eval_object_def entry_def_def)
qed

lemma catalog_keys_distinct:
  "distinct (map fst (CAPABILITY_CATALOG_BASE @ AGENT_API_CAPABILITY_CATALOG))"
  by (simp add: CAPABILITY_CATALOG_BASE_def catalog_tables Cons_neq_early Cons_neq_early)

definition catalog_list :: catalog where
  "catalog_list = map entry_def (CAPABILITY_CATALOG_BASE @ AGENT_API_CAPABILITY_CATALOG)"

lemma fst_entry_def [simp]: "fst \<circ> entry_def = fst"
  by (auto simp: entry_def_def)

lemma catalog_value: "CAPABILITY_CATALOG = Inr catalog_list"
proof -
  have ok: "list_all (\<lambda>e. is_ok (snd e)) CAPABILITY_CATALOG_BASE"
    by (simp add: CAPABILITY_CATALOG_BASE_def entries_ok_1 entries_ok_2 entries_ok_3
        entries_ok_4 entries_ok_5)
  have d: "distinct (map fst (map entry_def CAPABILITY_CATALOG_BASE
      @ map entry_def AGENT_API_CAPABILITY_CATALOG))"
    using catalog_keys_distinct by (simp only: map_append map_map fst_entry_def)
  then have "distinct (map fst ([] @ map entry_def CAPABILITY_CATALOG_BASE))" by simp
  with d show ?thesis
    by (simp add: CAPABILITY_CATALOG_def eval_object_ok [OF ok] eval_object_ok [OF entries_ok_agent]
        spread_distinct catalog_list_def)
qed

lemma capability_fields:
  assumes "is_ok (snd (capability k i oper eff p a m g x y))"
  shows "entry_def (capability k i oper eff p a m g x y) =
    (k, \<lparr>def_id = i, operation = oper, safetyEffect = eff,
         humanActionPolicy = (if eff = No_effect then Policy_none else Policy_central),
         invocation = projr p,
         auditPolicy = (case a of None \<Rightarrow> All_outcomes | Some b \<Rightarrow> b),
         mutationOrderAfter = m, agentGrantOrderAfter = g,
         inputSchema = x, outputSchema = y\<rparr>)"
proof (cases p)
  case (Inl e)
  with assms show ?thesis by (simp add: snd_capability)
next
  case (Inr q)
  with assms show ?thesis
    by (cases "CapabilityInvocationPolicySchema q")
       (auto simp: snd_capability entry_def_def canonicalCapability_def
          CapabilityInvocationPolicySchema_def Let_def split: if_splits)
qed

text \<open>The loaded rows of each table, computed once.\<close>

lemmas entry_oks =
  entries_ok_1 [unfolded CAPABILITY_CATALOG_BASE_1_def list.pred_inject]
  entries_ok_2 [unfolded CAPABILITY_CATALOG_BASE_2_def list.pred_inject]
  entries_ok_3 [unfolded CAPABILITY_CATALOG_BASE_3_def list.pred_inject]
  entries_ok_4 [unfolded CAPABILITY_CATALOG_BASE_4_def list.pred_inject]
  entries_ok_5 [unfolded CAPABILITY_CATALOG_BASE_5_def list.pred_inject]
  entries_ok_agent [unfolded AGENT_API_CAPABILITY_CATALOG_def list.pred_inject]

lemmas row_steps = list.map capability_fields entry_oks

lemmas row_values =
  policy_values sum.sel option.case if_True if_False safety_effect.distinct refl simp_thms

lemmas catalog_rows =
  arg_cong [OF CAPABILITY_CATALOG_BASE_1_def, of "map entry_def", simplified row_steps, simplified row_values]
  arg_cong [OF CAPABILITY_CATALOG_BASE_2_def, of "map entry_def", simplified row_steps, simplified row_values]
  arg_cong [OF CAPABILITY_CATALOG_BASE_3_def, of "map entry_def", simplified row_steps, simplified row_values]
  arg_cong [OF CAPABILITY_CATALOG_BASE_4_def, of "map entry_def", simplified row_steps, simplified row_values]
  arg_cong [OF CAPABILITY_CATALOG_BASE_5_def, of "map entry_def", simplified row_steps, simplified row_values]
  arg_cong [OF AGENT_API_CAPABILITY_CATALOG_def, of "map entry_def", simplified row_steps, simplified row_values]

lemma catalog_list_append:
  "catalog_list = map entry_def CAPABILITY_CATALOG_BASE_1 @ map entry_def CAPABILITY_CATALOG_BASE_2
     @ map entry_def CAPABILITY_CATALOG_BASE_3 @ map entry_def CAPABILITY_CATALOG_BASE_4
     @ map entry_def CAPABILITY_CATALOG_BASE_5 @ map entry_def AGENT_API_CAPABILITY_CATALOG"
  by (simp add: catalog_list_def CAPABILITY_CATALOG_BASE_def)

lemmas catalog_explicit = catalog_list_append [unfolded catalog_rows append_Cons append_Nil]

lemma fst_catalog_list:
  "map fst catalog_list = map fst (CAPABILITY_CATALOG_BASE @ AGENT_API_CAPABILITY_CATALOG)"
  by (simp add: catalog_list_def)

lemma catalog_list_distinct: "distinct (map fst catalog_list)"
  by (simp only: fst_catalog_list catalog_keys_distinct)

lemma catalog_list_keys: "list_all (\<lambda>(k, d). k = def_id d) catalog_list"
  by (simp add: catalog_explicit Cons_neq_early)

lemma catalog_list_effects:
  "list_all (\<lambda>(k, d). safetyEffect d =
      (if k = ''start-event'' then Start_event
       else if k = ''reactivate-event'' then Start_event
       else if k = ''all-clear-event'' then All_clear_event
       else if k = ''close-event'' then Close_event else No_effect)) catalog_list"
  by (simp add: catalog_explicit Cons_neq_early)

lemma catalog_list_wf:
  "list_all (\<lambda>(k, d). (humanActionPolicy d = Policy_central \<longleftrightarrow> safetyEffect d \<noteq> No_effect)
      \<and> (operation d = Query \<longrightarrow> safetyEffect d = No_effect)
      \<and> (operation d = Mutation \<longrightarrow> auditPolicy d = All_outcomes)) catalog_list"
  by (simp add: catalog_explicit Cons_neq_early)

lemma close_event_entry:
  "\<exists>d. (''close-event'', d) \<in> set catalog_list \<and> operation d = Mutation
     \<and> safetyEffect d = Close_event"
proof -
  have "\<exists>d. (''close-event'', d) \<in> entry_def ` set CAPABILITY_CATALOG_BASE_1
      \<and> operation d = Mutation \<and> safetyEffect d = Close_event"
    by (simp add: set_map [symmetric] catalog_rows del: set_map)
  then show ?thesis by (auto simp: catalog_list_append)
qed

lemma catalog_list_audit:
  "list_all (\<lambda>(k, d). auditPolicy d =
      (if k = ''sync-event-room'' then Denied_and_failed else All_outcomes)) catalog_list"
  by (simp add: catalog_explicit Cons_neq_early)

lemma catalog_mutations_ordered: "is_ok (applyDerivedOrder (mutation_entries catalog_list))"
  by (simp add: catalog_explicit applyDerivedOrder_def Cons_neq_early)

lemma catalog_agents_ordered: "is_ok (applyDerivedOrder (agent_grantable_entries catalog_list))"
  by (simp add: catalog_explicit applyDerivedOrder_def Cons_neq_early)



section \<open>The module loads\<close>

lemma first_audit_violation_None:
  "first_audit_violation c = None \<longleftrightarrow>
     (\<forall>(k, d) \<in> set c.
        (auditPolicy d = Denied_and_failed \<longrightarrow>
           k = ''sync-event-room'' \<and> operation d = Query \<and> \<not> agentGrantable (invocation d)
           \<and> length (principalKinds (invocation d)) = 1 \<and> hd (principalKinds (invocation d)) = Human
           \<and> length (sources (invocation d)) = 2 \<and> Web \<in> set (sources (invocation d))
           \<and> Mobile \<in> set (sources (invocation d)))
        \<and> (operation d = Mutation \<or> agentGrantable (invocation d) \<longrightarrow> auditPolicy d = All_outcomes))"
  by (induction c rule: first_audit_violation.induct) (auto simp: Let_def)

lemma catalog_list_audit_ok: "first_audit_violation catalog_list = None"
  by (simp add: catalog_explicit)

lemma catalog_list_reduced:
  "map fst (filter (\<lambda>(_, d). auditPolicy d = Denied_and_failed) catalog_list)
     = [''sync-event-room'']"
  by (simp add: catalog_explicit Cons_neq_early)

lemma catalog_audit_assert: "assertCanonicalAuditPolicies catalog_list = Inr ()"
proof -
  have "first_audit_violation (sort_key fst catalog_list) = None"
    using catalog_list_audit_ok by (simp add: first_audit_violation_None)
  moreover have "map fst (filter (\<lambda>(_, d). auditPolicy d = Denied_and_failed)
      (sort_key fst catalog_list)) = [''sync-event-room'']"
  proof -
    have "length (filter (\<lambda>(_, d). auditPolicy d = Denied_and_failed) catalog_list) = 1"
      using arg_cong [OF catalog_list_reduced, of length] by simp
    then obtain x where x: "filter (\<lambda>(_, d). auditPolicy d = Denied_and_failed) catalog_list = [x]"
      by (auto simp: length_Suc_conv)
    with catalog_list_reduced show ?thesis by (simp add: filter_sort)
  qed
  ultimately show ?thesis by (simp add: assertCanonicalAuditPolicies_def)
qed

lemma catalog_views_exist: "\<exists>views. deriveCapabilityViews catalog_list = Inr views"
proof -
  from catalog_mutations_ordered obtain ms where
    "applyDerivedOrder (mutation_entries catalog_list) = Inr ms"
    by (cases "applyDerivedOrder (mutation_entries catalog_list)") simp_all
  moreover from catalog_agents_ordered obtain gs where
    "applyDerivedOrder (agent_grantable_entries catalog_list) = Inr gs"
    by (cases "applyDerivedOrder (agent_grantable_entries catalog_list)") simp_all
  moreover have "first_key_mismatch catalog_list = None"
    by (simp only: first_key_mismatch_None catalog_list_keys)
  ultimately show ?thesis by (simp add: deriveCapabilityViews_def)
qed

lemma catalog_views_lookup:
  assumes "deriveCapabilityViews catalog_list = Inr views"
  shows "i \<in> set (agentGrantableCapabilityIds views) \<longleftrightarrow>
           (\<exists>d. map_of catalog_list i = Some d \<and> agentGrantable (invocation d))"
  using derived_views_facts(3) [OF catalog_list_distinct assms, of i] catalog_list_distinct
  by (metis map_of_eq_Some_iff)

text \<open>The entries of the two allowlists, looked up in the catalog.\<close>

lemma catalog_list_agent_allowlist:
  "list_all (\<lambda>(k, d). isAgentKeyGrantableCapabilityId k \<longrightarrow> agentGrantable (invocation d))
     catalog_list"
  by (simp add: catalog_explicit Cons_neq_early isAgentKeyGrantableCapabilityId_def AGENT_KEY_GRANTABLE_CAPABILITY_IDS_def)

lemma catalog_list_partner_allowlist:
  "list_all (\<lambda>(k, d). isPartnerCapabilityId k \<longrightarrow>
       safetyEffect d = No_effect \<and> Human \<in> set (principalKinds (invocation d))) catalog_list"
  by (simp add: catalog_explicit Cons_neq_early isPartnerCapabilityId_def PARTNER_CAPABILITY_IDS_def)

lemma agent_allowlist_keys:
  "list_all (\<lambda>i. i \<in> set (map fst catalog_list)) AGENT_KEY_GRANTABLE_CAPABILITY_IDS"
  unfolding fst_catalog_list
  by (simp add: CAPABILITY_CATALOG_BASE_def catalog_tables Cons_neq_early AGENT_KEY_GRANTABLE_CAPABILITY_IDS_def)

lemma partner_allowlist_keys:
  "list_all (\<lambda>i. i \<in> set (map fst catalog_list)) PARTNER_CAPABILITY_IDS"
  unfolding fst_catalog_list
  by (simp add: CAPABILITY_CATALOG_BASE_def catalog_tables Cons_neq_early PARTNER_CAPABILITY_IDS_def)

lemma list_all_lookup:
  assumes "distinct (map fst c)" and "list_all (\<lambda>(k, d). P k \<longrightarrow> Q d) c"
    and "list_all (\<lambda>i. i \<in> set (map fst c)) ids" and "\<And>i. i \<in> set ids \<Longrightarrow> P i"
  shows "\<forall>i \<in> set ids. \<exists>d. map_of c i = Some d \<and> Q d"
proof
  fix i
  assume i: "i \<in> set ids"
  with assms(3) obtain d where d: "(i, d) \<in> set c" by (auto simp: list_all_iff)
  with assms(1) have "map_of c i = Some d" by simp
  moreover from assms(2) d assms(4) [OF i] have "Q d" by (auto simp: list_all_iff)
  ultimately show "\<exists>d. map_of c i = Some d \<and> Q d" by blast
qed

lemma agent_allowlist_entries:
  "\<forall>i \<in> set AGENT_KEY_GRANTABLE_CAPABILITY_IDS.
     \<exists>d. map_of catalog_list i = Some d \<and> agentGrantable (invocation d)"
  by (rule list_all_lookup [OF catalog_list_distinct catalog_list_agent_allowlist
        agent_allowlist_keys]) (simp add: isAgentKeyGrantableCapabilityId_def)

lemma partner_allowlist_entries:
  "\<forall>i \<in> set PARTNER_CAPABILITY_IDS. \<exists>d. map_of catalog_list i = Some d
     \<and> safetyEffect d = No_effect \<and> Human \<in> set (principalKinds (invocation d))"
  by (rule list_all_lookup [OF catalog_list_distinct catalog_list_partner_allowlist
        partner_allowlist_keys]) (simp add: isPartnerCapabilityId_def)

lemma human_only_not_keys:
  "list_all (\<lambda>i. i \<notin> fst ` set catalog_list) HUMAN_ONLY_ACTION_IDS"
proof -
  have "list_all (\<lambda>i. i \<notin> set (map fst catalog_list)) HUMAN_ONLY_ACTION_IDS"
    unfolding fst_catalog_list
    by (simp add: CAPABILITY_CATALOG_BASE_def catalog_tables Cons_neq_early HUMAN_ONLY_ACTION_IDS_def)
  then show ?thesis by simp
qed

text \<open>
  C35. Loading the catalog module succeeds: every entry is accepted
  by its schemas, the derived orders find their targets, the agent-key allowlist lies inside
  the derived agent vocabulary, and the load-time audit assertions pass.
\<close>

theorem catalog_module_loads:
  "\<exists>c views. load_catalog_module = Inr (c, Some views) \<and> CAPABILITY_CATALOG = Inr c
     \<and> deriveCapabilityViews c = Inr views \<and> distinct (map fst c)
     \<and> assertCanonicalAuditPolicies c = Inr ()"
proof -
  obtain views where v: "deriveCapabilityViews catalog_list = Inr views"
    using catalog_views_exist ..
  have all: "\<forall>i \<in> set AGENT_KEY_GRANTABLE_CAPABILITY_IDS. i \<in> set (agentGrantableCapabilityIds views)"
    using agent_allowlist_entries
    by (simp add: catalog_views_lookup [OF v])
  then have "filter (\<lambda>cid. cid \<notin> set (agentGrantableCapabilityIds views))
      AGENT_KEY_GRANTABLE_CAPABILITY_IDS = []"
    by (simp add: filter_empty_conv)
  moreover have "agentGrantableCapabilityIds views \<noteq> []"
    using all by (auto simp: AGENT_KEY_GRANTABLE_CAPABILITY_IDS_def)
  ultimately have "installCapabilityViews None views = Inr (Some views)"
    by (simp add: installCapabilityViews_def)
  then show ?thesis
    using v catalog_audit_assert catalog_list_distinct
    by (simp add: load_catalog_module_def catalog_value)
qed

text \<open>
  C36. In the loaded catalog exactly four capabilities carry a
  safety effect: starting and reactivating an event, the all-clear and the close. Each of
  them is a mutation under the central human-action policy that audits every outcome.
\<close>

theorem lifecycle_effects_exact:
  assumes "CAPABILITY_CATALOG = Inr c" and "(i, d) \<in> set c"
  shows "(safetyEffect d \<noteq> No_effect \<longleftrightarrow>
            i \<in> {''start-event'', ''reactivate-event'', ''all-clear-event'', ''close-event''})
       \<and> (humanActionPolicy d = Policy_central \<longleftrightarrow> safetyEffect d \<noteq> No_effect)
       \<and> (safetyEffect d \<noteq> No_effect \<longrightarrow> operation d = Mutation \<and> auditPolicy d = All_outcomes)"
proof -
  from assms have mem: "(i, d) \<in> set catalog_list" by (simp add: catalog_value)
  have "safetyEffect d \<noteq> No_effect \<longleftrightarrow>
      i \<in> {''start-event'', ''reactivate-event'', ''all-clear-event'', ''close-event''}"
    using catalog_list_effects mem by (auto simp: list_all_iff split: if_splits)
  moreover have "(humanActionPolicy d = Policy_central \<longleftrightarrow> safetyEffect d \<noteq> No_effect)
      \<and> (operation d = Query \<longrightarrow> safetyEffect d = No_effect)
      \<and> (operation d = Mutation \<longrightarrow> auditPolicy d = All_outcomes)"
    using catalog_list_wf mem by (auto simp: list_all_iff)
  ultimately show ?thesis by (cases "operation d") simp_all
qed

text \<open>
  C37. Every capability a partner session may run is in the
  catalog, is admitted for a human principal and has no safety effect, so it can neither
  start nor reactivate, all-clear or close an event.
\<close>

theorem partner_allowlist_harmless:
  assumes "CAPABILITY_CATALOG = Inr c" and "isPartnerCapabilityId i"
  shows "\<exists>d. map_of c i = Some d \<and> safetyEffect d = No_effect
           \<and> Human \<in> set (principalKinds (invocation d))"
  using assms partner_allowlist_entries
  by (simp add: catalog_value isPartnerCapabilityId_def)

text \<open>
  C38. No protected action ID is a callable capability: the
  four IDs are derived requirements and have no catalog entry.
\<close>

theorem human_only_ids_not_callable:
  assumes "CAPABILITY_CATALOG = Inr c" and "isHumanOnlyActionId i"
  shows "\<not> isRegisteredCapabilityId c i \<and> defineCapability c i = Inl (Unregistered_capability i)"
proof -
  from assms human_only_not_keys have "map_of c i = None"
    by (auto simp: catalog_value isHumanOnlyActionId_def list_all_iff map_of_eq_None_iff)
  then show ?thesis
    by (simp add: isRegisteredCapabilityId_def defineCapability_def)
qed

theorem derived_views_exact_witness:
  "\<exists>c views. CAPABILITY_CATALOG = Inr c \<and> deriveCapabilityViews c = Inr views
     \<and> map_of (mutationSafetyManifest views) ''close-event'' = Some Close_event"
proof -
  obtain views where v: "deriveCapabilityViews catalog_list = Inr views"
    using catalog_views_exist ..
  obtain d where "(''close-event'', d) \<in> set catalog_list" "operation d = Mutation"
    "safetyEffect d = Close_event"
    using close_event_entry by blast
  then show ?thesis
    using derived_views_exact [OF catalog_list_distinct v, of "''close-event''" Close_event] v
      catalog_value by blast
qed

theorem lifecycle_effects_exact_witness:
  "\<exists>c d. CAPABILITY_CATALOG = Inr c \<and> (''close-event'', d) \<in> set c
     \<and> operation d = Mutation \<and> auditPolicy d = All_outcomes"
proof -
  obtain d where d: "(''close-event'', d) \<in> set catalog_list" "safetyEffect d = Close_event"
    using close_event_entry by blast
  then have "operation d = Mutation \<and> auditPolicy d = All_outcomes"
    using lifecycle_effects_exact [OF catalog_value d(1)] by simp
  with d(1) catalog_value show ?thesis by blast
qed

theorem partner_allowlist_harmless_witness:
  "\<exists>c d. CAPABILITY_CATALOG = Inr c \<and> map_of c ''join-event'' = Some d
     \<and> safetyEffect d = No_effect"
  using partner_allowlist_harmless [OF catalog_value, of "''join-event''"] catalog_value
  by (auto simp: isPartnerCapabilityId_def PARTNER_CAPABILITY_IDS_def)

theorem human_only_ids_not_callable_witness:
  "\<exists>c. CAPABILITY_CATALOG = Inr c \<and> \<not> isRegisteredCapabilityId c ''all-clear''"
  using human_only_ids_not_callable [OF catalog_value, of "''all-clear''"] catalog_value
  by (auto simp: isHumanOnlyActionId_def HUMAN_ONLY_ACTION_IDS_def)

end
