(* ===== verification/Retry.thy ===== *)
theory Retry
  imports Contracts
begin

text \<open>
  \<open>workers/shared/retry.ts\<close>: the retry policy of the notification workers, the delay
  before a retry, and the decision between a retry and the dead-letter queue. The random
  source is the number it returns.
\<close>

section \<open>Policy\<close>

record RetryPolicy =
  maxAttempts :: js_number
  baseDelayMilliseconds :: js_number
  maxDelayMilliseconds :: js_number
  multiplier :: js_number
  jitterRatio :: js_number

definition DEFAULT_RETRY_POLICY :: RetryPolicy where
  "DEFAULT_RETRY_POLICY =
     \<lparr>maxAttempts = Finite 5, baseDelayMilliseconds = Finite 1000,
      maxDelayMilliseconds = Finite 30000, multiplier = Finite 2, jitterRatio = Finite (1 / 5)\<rparr>"

datatype retry_error =
  Provider_failure_metadata_invalid | Retry_policy_invalid
| Attempt_number_invalid | Random_source_invalid

definition policy_ok :: "RetryPolicy \<Rightarrow> bool" where
  "policy_ok p =
     (js_integer (maxAttempts p) \<and> num (maxAttempts p) \<ge> 1 \<and> num (maxAttempts p) \<le> 10
      \<and> js_integer (baseDelayMilliseconds p) \<and> num (baseDelayMilliseconds p) \<ge> 100
      \<and> num (baseDelayMilliseconds p) \<le> 60000
      \<and> js_integer (maxDelayMilliseconds p)
      \<and> num (maxDelayMilliseconds p) \<ge> num (baseDelayMilliseconds p)
      \<and> num (maxDelayMilliseconds p) \<le> 15 * 60000
      \<and> js_finite (multiplier p) \<and> num (multiplier p) \<ge> 1 \<and> num (multiplier p) \<le> 10
      \<and> js_finite (jitterRatio p) \<and> num (jitterRatio p) \<ge> 0 \<and> num (jitterRatio p) \<le> 1)"

definition parseRetryPolicy :: "RetryPolicy \<Rightarrow> (retry_error, RetryPolicy) result" where
  "parseRetryPolicy p = (if policy_ok p then Inr p else Inl Retry_policy_invalid)"

lemma default_policy_ok [simp]: "policy_ok DEFAULT_RETRY_POLICY"
  by (simp add: policy_ok_def DEFAULT_RETRY_POLICY_def)

section \<open>Provider failures\<close>

datatype ProviderFailureDisposition = Safe_to_retry | Terminal_failure | Ambiguous

record ProviderFailure =
  code :: string
  disposition :: ProviderFailureDisposition
  diagnosticDigest :: "digest option"

text \<open>What a provider adapter throws: a \<open>ProviderDispatchError\<close>, or anything else.\<close>

datatype thrown = Provider_dispatch_error ProviderFailure | Other_thrown

text \<open>The constructor of \<open>ProviderDispatchError\<close>, which refuses unsafe metadata.\<close>

definition ProviderDispatchError ::
  "string \<Rightarrow> ProviderFailureDisposition \<Rightarrow> digest option \<Rightarrow> (retry_error, thrown) result" where
  "ProviderDispatchError c d g =
     (if \<not> safe_code c \<or> (case g of None \<Rightarrow> False | Some x \<Rightarrow> \<not> digest_ok x)
      then Inl Provider_failure_metadata_invalid
      else Inr (Provider_dispatch_error \<lparr>code = c, disposition = d, diagnosticDigest = g\<rparr>))"

fun normalizeProviderFailure :: "thrown \<Rightarrow> ProviderFailure" where
  "normalizeProviderFailure (Provider_dispatch_error f) = f"
| "normalizeProviderFailure Other_thrown =
     \<lparr>code = ''PROVIDER_OUTCOME_AMBIGUOUS'', disposition = Ambiguous, diagnosticDigest = None\<rparr>"

text \<open>The errors that the constructor lets exist.\<close>

definition thrown_ok :: "thrown \<Rightarrow> bool" where
  "thrown_ok e =
     (case e of Other_thrown \<Rightarrow> True
      | Provider_dispatch_error f \<Rightarrow>
          ProviderDispatchError (code f) (disposition f) (diagnosticDigest f) = Inr e)"

lemma failure_metadata_safe:
  assumes "thrown_ok e"
  shows "safe_code (code (normalizeProviderFailure e))"
    and "diagnosticDigest (normalizeProviderFailure e) = Some d \<Longrightarrow> digest_ok d"
  using assms
  by (cases e; simp add: thrown_ok_def ProviderDispatchError_def safe_code_def safe_code_char_def
        ascii_upper_def ascii_digit_def split: if_splits option.splits)+

section \<open>Delays\<close>

definition exponential :: "nat \<Rightarrow> RetryPolicy \<Rightarrow> rat" where
  "exponential n p =
     min (num (maxDelayMilliseconds p))
         (num (baseDelayMilliseconds p) * num (multiplier p) ^ (n - 1))"

definition jitter :: "RetryPolicy \<Rightarrow> rat \<Rightarrow> rat" where
  "jitter p r = 1 - num (jitterRatio p) + 2 * num (jitterRatio p) * r"

definition calculateRetryDelayMilliseconds ::
  "js_number \<Rightarrow> RetryPolicy \<Rightarrow> js_number \<Rightarrow> (retry_error, int) result" where
  "calculateRetryDelayMilliseconds currentAttemptNumber policyValue randomValue =
     bindR (parseRetryPolicy policyValue) (\<lambda>policy.
       if \<not> js_integer currentAttemptNumber \<or> num currentAttemptNumber < 1
       then Inl Attempt_number_invalid
       else if \<not> js_finite randomValue \<or> num randomValue < 0 \<or> num randomValue > 1
       then Inl Random_source_invalid
       else Inr (max 1 (min (js_int (maxDelayMilliseconds policy))
              (js_round (exponential (nat (js_int currentAttemptNumber)) policy
                         * jitter policy (num randomValue))))))"

definition random_ok :: "js_number \<Rightarrow> bool" where
  "random_ok r = (js_finite r \<and> 0 \<le> num r \<and> num r \<le> 1)"

definition attempt_ok :: "js_number \<Rightarrow> bool" where
  "attempt_ok n = (js_integer n \<and> num n \<ge> 1)"

lemma calculateRetryDelay_Inr:
  assumes "policy_ok p" "attempt_ok n" "random_ok r"
  shows "calculateRetryDelayMilliseconds n p r =
    Inr (max 1 (min (js_int (maxDelayMilliseconds p))
           (js_round (exponential (nat (js_int n)) p * jitter p (num r)))))"
  using assms
  by (simp add: calculateRetryDelayMilliseconds_def parseRetryPolicy_def attempt_ok_def
      random_ok_def not_le [symmetric])

lemma calculateRetryDelay_Inr_iff:
  "is_ok (calculateRetryDelayMilliseconds n p r) \<longleftrightarrow> policy_ok p \<and> attempt_ok n \<and> random_ok r"
  by (auto simp: calculateRetryDelayMilliseconds_def parseRetryPolicy_def attempt_ok_def random_ok_def
      bindR_def)

lemma exponential_bounds:
  assumes "policy_ok p"
  shows "num (baseDelayMilliseconds p) \<le> exponential n p"
    and "exponential n p \<le> num (maxDelayMilliseconds p)"
    and "0 \<le> exponential n p"
proof -
  have base: "num (baseDelayMilliseconds p) \<ge> 100" and mult: "num (multiplier p) \<ge> 1"
    and mx: "num (baseDelayMilliseconds p) \<le> num (maxDelayMilliseconds p)"
    using assms by (simp_all add: policy_ok_def)
  have "1 \<le> num (multiplier p) ^ (n - 1)"
    using mult by (rule one_le_power)
  then have "num (baseDelayMilliseconds p) * 1 \<le> num (baseDelayMilliseconds p) * num (multiplier p) ^ (n - 1)"
    using base by (intro mult_left_mono) simp_all
  then show "num (baseDelayMilliseconds p) \<le> exponential n p"
    and "exponential n p \<le> num (maxDelayMilliseconds p)"
    and "0 \<le> exponential n p"
    using base mx by (auto simp: exponential_def)
qed

lemma exponential_mono:
  assumes "policy_ok p" and "m \<le> n"
  shows "exponential m p \<le> exponential n p"
proof -
  have "num (multiplier p) ^ (m - 1) \<le> num (multiplier p) ^ (n - 1)"
    using assms by (intro power_increasing) (auto simp: policy_ok_def)
  then have "num (baseDelayMilliseconds p) * num (multiplier p) ^ (m - 1)
      \<le> num (baseDelayMilliseconds p) * num (multiplier p) ^ (n - 1)"
    using assms(1) by (intro mult_left_mono) (auto simp: policy_ok_def)
  then show ?thesis by (auto simp: exponential_def)
qed

lemma jitter_bounds:
  assumes "policy_ok p" "random_ok r"
  shows "1 - num (jitterRatio p) \<le> jitter p (num r)"
    and "jitter p (num r) \<le> 1 + num (jitterRatio p)"
    and "0 \<le> jitter p (num r)"
proof -
  have j: "0 \<le> num (jitterRatio p)" "num (jitterRatio p) \<le> 1" and r: "0 \<le> num r" "num r \<le> 1"
    using assms by (simp_all add: policy_ok_def random_ok_def)
  have "0 \<le> num (jitterRatio p) * num r" using j r by simp
  moreover have "num (jitterRatio p) * num r \<le> num (jitterRatio p) * 1"
    using j r by (intro mult_left_mono) simp_all
  ultimately show "1 - num (jitterRatio p) \<le> jitter p (num r)"
    and "jitter p (num r) \<le> 1 + num (jitterRatio p)"
    and "0 \<le> jitter p (num r)"
    using j unfolding jitter_def mult.assoc by linarith+
qed

lemma js_round_near: "of_int (js_round q) \<le> q + 1 / 2" "q - 1 / 2 \<le> of_int (js_round q)"
  unfolding js_round_def by linarith+

lemma calculateRetryDelay_range:
  assumes "policy_ok p" and "calculateRetryDelayMilliseconds n p r = Inr d"
  shows "1 \<le> d" and "of_int d \<le> num (maxDelayMilliseconds p)"
proof -
  have M: "num (maxDelayMilliseconds p) = of_int (js_int (maxDelayMilliseconds p))"
    using assms by (intro js_integer_num) (simp add: policy_ok_def)
  have "100 \<le> num (maxDelayMilliseconds p)"
    using assms by (auto simp: policy_ok_def)
  then have "1 \<le> js_int (maxDelayMilliseconds p)" unfolding M by linarith
  moreover have "attempt_ok n \<and> random_ok r"
    using assms(2) calculateRetryDelay_Inr_iff by (metis is_ok_simps(1))
  ultimately have "1 \<le> d \<and> d \<le> js_int (maxDelayMilliseconds p)"
    using assms calculateRetryDelay_Inr [of p n r] by auto
  then show "1 \<le> d" and "of_int d \<le> num (maxDelayMilliseconds p)"
    unfolding M by (simp_all only: of_int_le_iff)
qed

text \<open>For a valid policy, attempt number and random draw the
  delay is computed, lies between one millisecond and the policy's ceiling, and differs from the
  capped exponential back-off by at most the jitter ratio, up to the rounding to a millisecond.\<close>

theorem retry_delay_within_jitter:
  assumes p: "policy_ok p" and n: "attempt_ok n" and r: "random_ok r"
  shows "\<exists>d. calculateRetryDelayMilliseconds n p r = Inr d
    \<and> 1 \<le> d \<and> of_int d \<le> num (maxDelayMilliseconds p)
    \<and> exponential (nat (js_int n)) p * (1 - num (jitterRatio p)) - 1 / 2 \<le> of_int d
    \<and> of_int d \<le> exponential (nat (js_int n)) p * (1 + num (jitterRatio p)) + 1 / 2"
proof -
  let ?e = "exponential (nat (js_int n)) p" and ?j = "jitter p (num r)"
  let ?x = "js_round (?e * ?j)" and ?M = "js_int (maxDelayMilliseconds p)"
  let ?d = "max 1 (min ?M ?x)"
  have M: "num (maxDelayMilliseconds p) = of_int ?M"
    using p by (intro js_integer_num) (simp add: policy_ok_def)
  have e: "100 \<le> ?e" "?e \<le> of_int ?M"
    using exponential_bounds [OF p, of "nat (js_int n)"] p M by (auto simp: policy_ok_def)
  then have M1: "1 \<le> ?M" by linarith
  have lo: "?e * (1 - num (jitterRatio p)) \<le> ?e * ?j" and hi: "?e * ?j \<le> ?e * (1 + num (jitterRatio p))"
    using e jitter_bounds [OF p r] by (intro mult_left_mono; simp)+
  have jr: "0 \<le> num (jitterRatio p)" using p by (simp add: policy_ok_def)
  have "?e * (1 - num (jitterRatio p)) \<le> ?e * 1" and "?e * 1 \<le> ?e * (1 + num (jitterRatio p))"
    using e jr by (intro mult_left_mono; simp)+
  then have le: "?e * (1 - num (jitterRatio p)) \<le> of_int ?M" "1 \<le> ?e * (1 + num (jitterRatio p)) + 1 / 2"
    using e by linarith+
  have x: "of_int ?x \<le> ?e * ?j + 1 / 2" "?e * ?j - 1 / 2 \<le> of_int ?x"
    by (rule js_round_near)+
  have low: "?e * (1 - num (jitterRatio p)) - 1 / 2 \<le> of_int ?d"
  proof (cases "?M \<le> ?x")
    case True
    then show ?thesis using le(1) M1 by simp
  next
    case False
    then have "?x \<le> ?d" by simp
    then have "(of_int ?x :: rat) \<le> of_int ?d" by (simp only: of_int_le_iff)
    then show ?thesis using lo x(2) by linarith
  qed
  have up: "of_int ?d \<le> ?e * (1 + num (jitterRatio p)) + 1 / 2"
  proof (cases "?x \<le> 1")
    case True
    then have "?d = 1" by simp
    then show ?thesis using le(2) by simp
  next
    case False
    then have "?d \<le> ?x" by simp
    then have "(of_int ?d :: rat) \<le> of_int ?x" by (simp only: of_int_le_iff)
    then show ?thesis using hi x(1) by linarith
  qed
  have "?d \<le> ?M" using M1 by simp
  then have "of_int ?d \<le> num (maxDelayMilliseconds p)" unfolding M by (simp only: of_int_le_iff)
  then show ?thesis
    using calculateRetryDelay_Inr [OF p n r] low up by (intro exI [of _ ?d]) simp
qed

theorem retry_delay_within_jitter_witness:
  "\<exists>d. calculateRetryDelayMilliseconds (Finite 3) DEFAULT_RETRY_POLICY (Finite (1 / 2)) = Inr d
    \<and> 3200 \<le> d + 1 \<and> d \<le> 4801"
  using retry_delay_within_jitter [of DEFAULT_RETRY_POLICY "Finite 3" "Finite (1 / 2)"]
  by (auto simp: attempt_ok_def random_ok_def exponential_def DEFAULT_RETRY_POLICY_def
      js_int_def policy_ok_def)

text \<open>With the same random draw, a later attempt never waits less
  than an earlier one.\<close>

theorem retry_backoff_monotone:
  assumes "calculateRetryDelayMilliseconds m p r = Inr d"
    and "calculateRetryDelayMilliseconds n p r = Inr d'"
    and "num m \<le> num n"
  shows "d \<le> d'"
proof -
  have ok: "policy_ok p" "attempt_ok m" "attempt_ok n" "random_ok r"
    using assms calculateRetryDelay_Inr_iff by (metis is_ok_simps(1))+
  have "nat (js_int m) \<le> nat (js_int n)"
    using assms(3) unfolding js_int_def by (intro nat_mono floor_mono)
  then have "exponential (nat (js_int m)) p * jitter p (num r)
      \<le> exponential (nat (js_int n)) p * jitter p (num r)"
    using ok by (intro mult_right_mono exponential_mono jitter_bounds)
  then have "js_round (exponential (nat (js_int m)) p * jitter p (num r))
      \<le> js_round (exponential (nat (js_int n)) p * jitter p (num r))"
    unfolding js_round_def by (intro floor_mono) simp
  moreover have "d = max 1 (min (js_int (maxDelayMilliseconds p))
      (js_round (exponential (nat (js_int m)) p * jitter p (num r))))"
    and "d' = max 1 (min (js_int (maxDelayMilliseconds p))
      (js_round (exponential (nat (js_int n)) p * jitter p (num r))))"
    using assms calculateRetryDelay_Inr [OF ok(1) ok(2) ok(4)]
      calculateRetryDelay_Inr [OF ok(1) ok(3) ok(4)] by simp_all
  ultimately show ?thesis by (simp add: max.coboundedI2 min.coboundedI2)
qed

lemma default_delays:
  "calculateRetryDelayMilliseconds (Finite 2) DEFAULT_RETRY_POLICY (Finite (1 / 2)) = Inr 2000"
  "calculateRetryDelayMilliseconds (Finite 4) DEFAULT_RETRY_POLICY (Finite (1 / 2)) = Inr 8000"
  by (simp_all add: calculateRetryDelay_Inr attempt_ok_def random_ok_def)
     (simp_all add: DEFAULT_RETRY_POLICY_def exponential_def jitter_def js_round_def js_int_def,
      (rule floor_unique; simp)+)

theorem retry_backoff_monotone_witness:
  "calculateRetryDelayMilliseconds (Finite 2) DEFAULT_RETRY_POLICY (Finite (1 / 2)) = Inr 2000
   \<and> (2000::int) \<le> 8000"
  using default_delays retry_backoff_monotone [OF default_delays] by simp

section \<open>Retry or dead letter\<close>

datatype truth_state = Truth_failed | Truth_unknown

datatype RetryDecision =
  Retry_decision (delayMilliseconds: int) (nextAttemptNumber: int) (failure: ProviderFailure)
| Dlq (reasonCode: string) (truthState: truth_state) (exhausted: bool) (failure: ProviderFailure)

definition decideProviderRetry ::
  "thrown \<Rightarrow> js_number \<Rightarrow> RetryPolicy \<Rightarrow> js_number \<Rightarrow> (retry_error, RetryDecision) result" where
  "decideProviderRetry error currentAttemptNumber policyValue random =
     bindR (parseRetryPolicy policyValue) (\<lambda>policy.
       if \<not> js_integer currentAttemptNumber \<or> num currentAttemptNumber < 1
       then Inl Attempt_number_invalid
       else let failure = normalizeProviderFailure error
            in if disposition failure = Safe_to_retry
                  \<and> num currentAttemptNumber < num (maxAttempts policy)
               then bindR (calculateRetryDelayMilliseconds currentAttemptNumber policy random)
                      (\<lambda>d. Inr (Retry_decision d (js_int currentAttemptNumber + 1) failure))
               else let ambiguous = (disposition failure = Ambiguous);
                        exhausted = (disposition failure = Safe_to_retry)
                    in Inr (Dlq
                         (if ambiguous then ''PROVIDER_OUTCOME_AMBIGUOUS''
                          else if exhausted then ''PROVIDER_RETRY_EXHAUSTED'' else code failure)
                         (if ambiguous then Truth_unknown else Truth_failed)
                         exhausted failure))"

lemma decideProviderRetry_retry:
  "decideProviderRetry e n p r = Inr (Retry_decision d k f) \<longleftrightarrow>
     policy_ok p \<and> attempt_ok n \<and> f = normalizeProviderFailure e
     \<and> disposition f = Safe_to_retry \<and> num n < num (maxAttempts p) \<and> k = js_int n + 1
     \<and> calculateRetryDelayMilliseconds n p r = Inr d"
  by (auto simp: decideProviderRetry_def parseRetryPolicy_def attempt_ok_def Let_def bindR_Inr_iff
      split: if_splits)

lemma decideProviderRetry_dlq:
  "decideProviderRetry e n p r = Inr (Dlq c t x f) \<longleftrightarrow>
     policy_ok p \<and> attempt_ok n \<and> f = normalizeProviderFailure e
     \<and> (disposition f = Safe_to_retry \<longrightarrow> num (maxAttempts p) \<le> num n)
     \<and> x = (disposition f = Safe_to_retry)
     \<and> t = (if disposition f = Ambiguous then Truth_unknown else Truth_failed)
     \<and> c = (case disposition f of Ambiguous \<Rightarrow> ''PROVIDER_OUTCOME_AMBIGUOUS''
            | Safe_to_retry \<Rightarrow> ''PROVIDER_RETRY_EXHAUSTED'' | Terminal_failure \<Rightarrow> code f)"
  by (auto simp: decideProviderRetry_def parseRetryPolicy_def attempt_ok_def Let_def bindR_Inr_iff
      split: if_splits ProviderFailureDisposition.splits)

text \<open>C29: with a valid policy, attempt number and random draw every
  failure is decided. A failure is retried exactly when the provider said that a retry is safe
  and attempts are left, with the next attempt number inside the budget and a delay inside the
  policy; an ambiguous outcome is never retried and never reported as failed; everything else is
  a dead letter that says whether the budget ran out.\<close>

theorem provider_retry_decision:
  assumes "policy_ok p" "attempt_ok n" "random_ok r"
  shows "case decideProviderRetry e n p r of
      Inl _ \<Rightarrow> False
    | Inr (Retry_decision d k f) \<Rightarrow>
        f = normalizeProviderFailure e \<and> disposition f = Safe_to_retry
        \<and> k = js_int n + 1 \<and> of_int k \<le> num (maxAttempts p)
        \<and> 1 \<le> d \<and> of_int d \<le> num (maxDelayMilliseconds p)
    | Inr (Dlq c t x f) \<Rightarrow>
        f = normalizeProviderFailure e
        \<and> (t = Truth_unknown \<longleftrightarrow> disposition f = Ambiguous)
        \<and> (x \<longleftrightarrow> disposition f = Safe_to_retry) \<and> (x \<longrightarrow> num (maxAttempts p) \<le> num n)"
proof (cases "decideProviderRetry e n p r")
  case (Inl err)
  then show ?thesis
    using assms calculateRetryDelay_Inr [OF assms]
    by (auto simp: decideProviderRetry_def parseRetryPolicy_def attempt_ok_def Let_def split: if_splits)
next
  case (Inr dec)
  show ?thesis
  proof (cases dec)
    case (Retry_decision d k f)
    then have "decideProviderRetry e n p r = Inr (Retry_decision d k f)"
      using Inr by simp
    then have dec: "f = normalizeProviderFailure e" "disposition f = Safe_to_retry" "num n < num (maxAttempts p)"
      "k = js_int n + 1" "calculateRetryDelayMilliseconds n p r = Inr d"
      unfolding decideProviderRetry_retry by blast+
    have m: "num (maxAttempts p) = of_int (js_int (maxAttempts p))" and n: "num n = of_int (js_int n)"
      using assms by (simp_all add: attempt_ok_def policy_ok_def js_integer_num)
    have "js_int n < js_int (maxAttempts p)"
      using dec(3) unfolding m n by (simp only: of_int_less_iff)
    then have "(of_int k :: rat) \<le> num (maxAttempts p)"
      unfolding m dec(4) of_int_le_iff by simp
    then show ?thesis
      using Inr Retry_decision dec calculateRetryDelay_range [OF assms(1) dec(5)] by simp
  next
    case (Dlq c t x f)
    then have "decideProviderRetry e n p r = Inr (Dlq c t x f)"
      using Inr by simp
    then have dec: "f = normalizeProviderFailure e"
      "disposition f = Safe_to_retry \<longrightarrow> num (maxAttempts p) \<le> num n"
      "x = (disposition f = Safe_to_retry)"
      "t = (if disposition f = Ambiguous then Truth_unknown else Truth_failed)"
      unfolding decideProviderRetry_dlq by blast+
    show ?thesis
      unfolding Inr Dlq sum.case RetryDecision.case using dec by auto
  qed
qed

theorem provider_retry_decision_witness:
  "decideProviderRetry Other_thrown (Finite 1) DEFAULT_RETRY_POLICY (Finite 0)
     = Inr (Dlq ''PROVIDER_OUTCOME_AMBIGUOUS'' Truth_unknown False
              (normalizeProviderFailure Other_thrown))
   \<and> is_ok (decideProviderRetry
       (Provider_dispatch_error \<lparr>code = ''THROTTLED'', disposition = Safe_to_retry, diagnosticDigest = None\<rparr>)
       (Finite 4) DEFAULT_RETRY_POLICY (Finite 0))"
  using provider_retry_decision [of DEFAULT_RETRY_POLICY "Finite 1" "Finite 0" Other_thrown]
    provider_retry_decision [of DEFAULT_RETRY_POLICY "Finite 4" "Finite 0"
      "Provider_dispatch_error \<lparr>code = ''THROTTLED'', disposition = Safe_to_retry, diagnosticDigest = None\<rparr>"]
  by (auto simp: attempt_ok_def random_ok_def decideProviderRetry_dlq
      is_ok_def split: sum.splits RetryDecision.splits)

end
