(* ===== verification/Attempt_Store.thy ===== *)
theory Attempt_Store
  imports Contracts
begin

text \<open>
  \<open>packages/server/lib/notify/attempt-execution-store.ts\<close>: the durable execution leases of
  channel attempts. The table \<open>channel_attempt_executions\<close> is a map from attempt IDs to rows;
  \<open>gen_random_uuid()\<close> is a sequence of tokens with the number of tokens drawn so far, and a
  reading of \<open>clock_timestamp()\<close> is an argument. A claim is two statements of one
  transaction between which other transactions may commit, so its two halves are operations
  of their own and the step relation below interleaves them freely.
\<close>

section \<open>Rows and requests\<close>

record execution =
  fingerprint :: string
  leaseToken :: uuid
  leaseExpiresAt :: timestamp
  completion :: js_value
  completedAt :: "timestamp option"

record attempt_store =
  executions :: "uuid \<rightharpoonup> execution"
  tokensDrawn :: nat

datatype store_error =
  ATTEMPT_FINGERPRINT_CONFLICT | ATTEMPT_LEASE_CONFLICT | ATTEMPT_COMPLETION_CORRUPT
| Store_request_invalid

definition FingerprintSchema :: "string \<Rightarrow> string option" where
  "FingerprintSchema v =
     (let t = js_trim v in if 1 \<le> length t \<and> length t \<le> 200 then Some t else None)"

definition LeaseMillisecondsSchema :: "js_number \<Rightarrow> int option" where
  "LeaseMillisecondsSchema n =
     (if js_integer n \<and> num n > 0 \<and> num n \<le> 10 * 60 * 1000 then Some (js_int n) else None)"

text \<open>
  The envelope of a stored completion: an outcome that is an object, and for a retry a
  non-negative delay, a positive next attempt number and a reason. Other keys pass through.
\<close>

fun is_object :: "js_value \<Rightarrow> bool" where
  "is_object (JObj _) = True"
| "is_object _ = False"

fun int_at_least :: "int \<Rightarrow> js_value \<Rightarrow> bool" where
  "int_at_least k (JNum n) = (js_integer n \<and> k \<le> js_int n)"
| "int_at_least _ _ = False"

fun nonempty_string :: "js_value \<Rightarrow> bool" where
  "nonempty_string (JStr s) = (1 \<le> length s)"
| "nonempty_string _ = False"

fun StoredCompletionSchema :: "js_value \<Rightarrow> bool" where
  "StoredCompletionSchema (JObj fs) =
     (js_field fs ''kind'' = JStr ''final'' \<and> is_object (js_field fs ''outcome'')
      \<or> js_field fs ''kind'' = JStr ''retry'' \<and> is_object (js_field fs ''outcome'')
        \<and> int_at_least 0 (js_field fs ''delayMilliseconds'')
        \<and> int_at_least 1 (js_field fs ''nextAttemptNumber'')
        \<and> nonempty_string (js_field fs ''reasonCode''))"
| "StoredCompletionSchema _ = False"

definition readCompletion :: "js_value \<Rightarrow> (store_error, js_value) result" where
  "readCompletion v =
     (if StoredCompletionSchema v then Inr v else Inl ATTEMPT_COMPLETION_CORRUPT)"

datatype attempt_claim = Acquired uuid | Claim_completed js_value | Claim_in_progress

datatype attempt_lookup =
  Missing | Reclaimable | Lookup_completed js_value | Lookup_in_progress

section \<open>Operations\<close>

text \<open>
  \<open>lookup\<close>, read-only: \<open>t\<close> is the clock of its second statement. The second statement
  reads the same row again, so its result is taken in the same state.
\<close>

definition lookup ::
  "timestamp \<Rightarrow> string \<Rightarrow> string \<Rightarrow> (attempt_store, store_error, attempt_lookup) comp" where
  "lookup t attemptId fp st =
     (if \<not> uuid_ok attemptId then (Inl Store_request_invalid, st)
      else case FingerprintSchema fp of
        None \<Rightarrow> (Inl Store_request_invalid, st)
      | Some f \<Rightarrow>
          (case executions st attemptId of
             None \<Rightarrow> (Inr Missing, st)
           | Some row \<Rightarrow>
               if fingerprint row \<noteq> f then (Inl ATTEMPT_FINGERPRINT_CONFLICT, st)
               else if completion row \<noteq> JNull
               then (bindR (readCompletion (completion row)) (\<lambda>c. Inr (Lookup_completed c)), st)
               else if leaseExpiresAt row > t then (Inr Lookup_in_progress, st)
               else (Inr Reclaimable, st)))"

text \<open>
  First statement of the claim's transaction: \<open>insert \<dots> on conflict do nothing\<close>. It gives
  the lease token when the insert won, and nothing when a row exists.
\<close>

definition claim_insert ::
  "(nat \<Rightarrow> uuid) \<Rightarrow> timestamp \<Rightarrow> uuid \<Rightarrow> string \<Rightarrow> int \<Rightarrow> attempt_store \<Rightarrow> uuid option \<times> attempt_store" where
  "claim_insert gen_random_uuid t attemptId f lease st =
     (case executions st attemptId of
        None \<Rightarrow>
          (let token = gen_random_uuid (tokensDrawn st)
           in (Some token,
               st\<lparr>executions := (executions st)(attemptId \<mapsto>
                    \<lparr>fingerprint = f, leaseToken = token, leaseExpiresAt = t + lease,
                     completion = JNull, completedAt = None\<rparr>),
                  tokensDrawn := Suc (tokensDrawn st)\<rparr>))
      | Some _ \<Rightarrow> (None, st))"

text \<open>
  The rest of the transaction, under the row lock: \<open>t\<close> is the clock of the lease check and
  \<open>t'\<close> that of the takeover.
\<close>

definition claim_locked ::
  "(nat \<Rightarrow> uuid) \<Rightarrow> timestamp \<Rightarrow> timestamp \<Rightarrow> uuid \<Rightarrow> string \<Rightarrow> int
     \<Rightarrow> (attempt_store, store_error, attempt_claim) comp" where
  "claim_locked gen_random_uuid t t' attemptId f lease st =
     (case executions st attemptId of
        None \<Rightarrow> (Inr Claim_in_progress, st)
      | Some row \<Rightarrow>
          if fingerprint row \<noteq> f then (Inl ATTEMPT_FINGERPRINT_CONFLICT, st)
          else if completion row \<noteq> JNull
          then (bindR (readCompletion (completion row)) (\<lambda>c. Inr (Claim_completed c)), st)
          else if leaseExpiresAt row > t then (Inr Claim_in_progress, st)
          else let token = gen_random_uuid (tokensDrawn st)
               in (Inr (Acquired token),
                   st\<lparr>executions := (executions st)(attemptId \<mapsto>
                        row\<lparr>leaseToken := token, leaseExpiresAt := t' + lease\<rparr>),
                      tokensDrawn := Suc (tokensDrawn st)\<rparr>))"

text \<open>The whole claim when no other transaction commits between its statements.\<close>

definition claim ::
  "(nat \<Rightarrow> uuid) \<Rightarrow> timestamp \<Rightarrow> timestamp \<Rightarrow> string \<Rightarrow> string \<Rightarrow> js_number
     \<Rightarrow> (attempt_store, store_error, attempt_claim) comp" where
  "claim gen_random_uuid t t' attemptId fp leaseMilliseconds st =
     (if \<not> uuid_ok attemptId then (Inl Store_request_invalid, st)
      else case (FingerprintSchema fp, LeaseMillisecondsSchema leaseMilliseconds) of
        (Some f, Some lease) \<Rightarrow>
          (case claim_insert gen_random_uuid t attemptId f lease st of
             (Some token, st') \<Rightarrow> (Inr (Acquired token), st')
           | (None, st') \<Rightarrow> claim_locked gen_random_uuid t t' attemptId f lease st')
      | _ \<Rightarrow> (Inl Store_request_invalid, st))"

text \<open>The completion that is stored is an object, given by its fields.\<close>

definition complete ::
  "timestamp \<Rightarrow> string \<Rightarrow> string \<Rightarrow> string \<Rightarrow> (string \<times> js_value) list
     \<Rightarrow> (attempt_store, store_error, unit) comp" where
  "complete t attemptId fp token obj st =
     (if \<not> uuid_ok attemptId \<or> \<not> uuid_ok token then (Inl Store_request_invalid, st)
      else case FingerprintSchema fp of
        None \<Rightarrow> (Inl Store_request_invalid, st)
      | Some f \<Rightarrow>
          (case executions st attemptId of
             None \<Rightarrow> (Inl ATTEMPT_LEASE_CONFLICT, st)
           | Some row \<Rightarrow>
               if fingerprint row = f \<and> leaseToken row = token
               then (Inr (), st\<lparr>executions := (executions st)(attemptId \<mapsto>
                       row\<lparr>completion := JObj obj, completedAt := Some t\<rparr>)\<rparr>)
               else (Inl ATTEMPT_LEASE_CONFLICT, st)))"

definition release ::
  "string \<Rightarrow> string \<Rightarrow> string \<Rightarrow> (attempt_store, store_error, unit) comp" where
  "release attemptId fp token st =
     (if \<not> uuid_ok attemptId \<or> \<not> uuid_ok token then (Inl Store_request_invalid, st)
      else case FingerprintSchema fp of
        None \<Rightarrow> (Inl Store_request_invalid, st)
      | Some f \<Rightarrow>
          (case executions st attemptId of
             None \<Rightarrow> (Inl ATTEMPT_LEASE_CONFLICT, st)
           | Some row \<Rightarrow>
               if fingerprint row = f \<and> leaseToken row = token \<and> completion row = JNull
               then (Inr (), st\<lparr>executions := (executions st)(attemptId := None)\<rparr>)
               else (Inl ATTEMPT_LEASE_CONFLICT, st)))"

section \<open>What each operation does to the row\<close>

definition settled :: "attempt_store \<Rightarrow> uuid \<Rightarrow> js_value option" where
  "settled st a =
     (case executions st a of None \<Rightarrow> None
      | Some row \<Rightarrow> if completion row = JNull then None else Some (completion row))"

definition lease_of :: "attempt_store \<Rightarrow> uuid \<Rightarrow> (uuid \<times> timestamp) option" where
  "lease_of st a = map_option (\<lambda>row. (leaseToken row, leaseExpiresAt row)) (executions st a)"

lemma claim_insertE:
  assumes "claim_insert gen t a f lease st = (Some k, st')"
  obtains "executions st a = None" "k = gen (tokensDrawn st)"
    "st' = st\<lparr>executions := (executions st)(a \<mapsto>
        \<lparr>fingerprint = f, leaseToken = k, leaseExpiresAt = t + lease, completion = JNull,
         completedAt = None\<rparr>), tokensDrawn := Suc (tokensDrawn st)\<rparr>"
  using assms by (auto simp: claim_insert_def Let_def split: option.splits)

lemma claim_insert_lost: "claim_insert gen t a f lease st = (None, st') \<Longrightarrow> st' = st"
  by (auto simp: claim_insert_def Let_def split: option.splits)

lemma claim_locked_acquiredE:
  assumes "claim_locked gen t t' a f lease st = (Inr (Acquired k), st')"
  obtains row where "executions st a = Some row" "fingerprint row = f" "completion row = JNull"
    "leaseExpiresAt row \<le> t" "k = gen (tokensDrawn st)"
    "st' = st\<lparr>executions := (executions st)(a \<mapsto>
        row\<lparr>leaseToken := k, leaseExpiresAt := t' + lease\<rparr>), tokensDrawn := Suc (tokensDrawn st)\<rparr>"
  using assms
  by (auto simp: claim_locked_def Let_def bindR_def split: option.splits if_splits sum.splits)

lemma claim_locked_idle:
  assumes "claim_locked gen t t' a f lease st = (r, st')" and "\<And>k. r \<noteq> Inr (Acquired k)"
  shows "st' = st"
  using assms by (auto simp: claim_locked_def Let_def split: option.splits if_splits)

lemma claim_cases:
  assumes "claim gen t t' a fp ms st = (r, st')"
  obtains (refused) "r = Inl Store_request_invalid" "st' = st"
  | (inserted) f lease k where "FingerprintSchema fp = Some f" "LeaseMillisecondsSchema ms = Some lease"
      "claim_insert gen t a f lease st = (Some k, st')" "r = Inr (Acquired k)"
  | (locked) f lease where "FingerprintSchema fp = Some f" "LeaseMillisecondsSchema ms = Some lease"
      "claim_insert gen t a f lease st = (None, st)"
      "claim_locked gen t t' a f lease st = (r, st')"
  using assms that
  by (fastforce simp: claim_def split: if_splits option.splits prod.splits dest: claim_insert_lost)

lemma completeE:
  assumes "complete t a fp k fs st = (Inr u, st')"
  obtains row where "executions st a = Some row" "FingerprintSchema fp = Some (fingerprint row)"
    "leaseToken row = k"
    "st' = st\<lparr>executions := (executions st)(a \<mapsto> row\<lparr>completion := JObj fs, completedAt := Some t\<rparr>)\<rparr>"
  using assms by (auto simp: complete_def split: if_splits option.splits)

lemma releaseE:
  assumes "release a fp k st = (Inr u, st')"
  obtains row where "executions st a = Some row" "FingerprintSchema fp = Some (fingerprint row)"
    "leaseToken row = k" "completion row = JNull"
    "st' = st\<lparr>executions := (executions st)(a := None)\<rparr>"
  using assms by (auto simp: release_def split: if_splits option.splits)

text \<open>The same effects on the two observations that the interface speaks of.\<close>

lemma claim_insert_effect:
  assumes "claim_insert gen t a f lease st = (Some k, st')"
  shows "lease_of st a = None" "settled st a = None" "settled st' = settled st"
    "lease_of st' = (lease_of st)(a \<mapsto> (k, t + lease))"
    "k = gen (tokensDrawn st)" "tokensDrawn st' = Suc (tokensDrawn st)"
  using assms by (auto elim!: claim_insertE simp: lease_of_def settled_def fun_eq_iff)

lemma claim_locked_effect:
  assumes "claim_locked gen t t' a f lease st = (Inr (Acquired k), st')"
  shows "\<exists>k' e. lease_of st a = Some (k', e) \<and> e \<le> t"
    "settled st a = None" "settled st' = settled st"
    "lease_of st' = (lease_of st)(a \<mapsto> (k, t' + lease))"
    "k = gen (tokensDrawn st)" "tokensDrawn st' = Suc (tokensDrawn st)"
  using assms by (auto elim!: claim_locked_acquiredE simp: lease_of_def settled_def fun_eq_iff)

lemma complete_effect:
  assumes "complete t a fp k obj st = (Inr u, st')"
  shows "\<exists>e. lease_of st a = Some (k, e)" "settled st' = (settled st)(a \<mapsto> JObj obj)"
    "lease_of st' = lease_of st" "tokensDrawn st' = tokensDrawn st"
  using assms by (auto elim!: completeE simp: lease_of_def settled_def fun_eq_iff)

lemma release_effect:
  assumes "release a fp k st = (Inr u, st')"
  shows "\<exists>e. lease_of st a = Some (k, e)" "settled st a = None" "settled st' = settled st"
    "lease_of st' = (lease_of st)(a := None)" "tokensDrawn st' = tokensDrawn st"
  using assms by (auto elim!: releaseE simp: lease_of_def settled_def fun_eq_iff)

text \<open>A thrown error leaves the store as it was.\<close>

lemma store_error_unchanged:
  "lookup t a fp st = (r, st') \<Longrightarrow> st' = st"
  "claim gen t t' a fp ms st = (Inl e, st') \<Longrightarrow> st' = st"
  "complete t a fp k fs st = (Inl e, st') \<Longrightarrow> st' = st"
  "release a fp k st = (Inl e, st') \<Longrightarrow> st' = st"
  subgoal by (auto simp: lookup_def split: if_splits option.splits)
  subgoal by (erule claim_cases) (auto dest: claim_locked_idle)
  subgoal by (auto simp: complete_def split: if_splits option.splits)
  subgoal by (auto simp: release_def split: if_splits option.splits)
  done

section \<open>Interleaved runs\<close>

text \<open>
  A run interleaves the statements of any number of workers with the passing of time. The
  log, newest event first, records what workers were told.
\<close>

datatype store_event =
  Granted uuid uuid timestamp timestamp
| Completed uuid uuid js_value
| Released uuid uuid

record store_config =
  now :: timestamp
  store :: attempt_store
  events :: "store_event list"

definition empty_store :: attempt_store where
  "empty_store = \<lparr>executions = Map.empty, tokensDrawn = 0\<rparr>"

inductive store_step :: "(nat \<Rightarrow> uuid) \<Rightarrow> store_config \<Rightarrow> store_config \<Rightarrow> bool"
  for gen :: "nat \<Rightarrow> uuid" where
  tick: "now c \<le> t \<Longrightarrow> store_step gen c (c\<lparr>now := t\<rparr>)"
| insert: "claim_insert gen (now c) a f lease (store c) = (Some k, st') \<Longrightarrow>
    store_step gen c
      (c\<lparr>store := st', events := Granted a k (now c) (now c + lease) # events c\<rparr>)"
| takeover: "now c \<le> t' \<Longrightarrow>
    claim_locked gen (now c) t' a f lease (store c) = (Inr (Acquired k), st') \<Longrightarrow>
    store_step gen c
      (c\<lparr>now := t', store := st', events := Granted a k (now c) (t' + lease) # events c\<rparr>)"
| completes: "complete (now c) a fp k fs (store c) = (Inr u, st') \<Longrightarrow>
    store_step gen c (c\<lparr>store := st', events := Completed a k (JObj fs) # events c\<rparr>)"
| releases: "release a fp k (store c) = (Inr u, st') \<Longrightarrow>
    store_step gen c (c\<lparr>store := st', events := Released a k # events c\<rparr>)"

inductive store_reach :: "(nat \<Rightarrow> uuid) \<Rightarrow> store_config \<Rightarrow> bool" for gen :: "nat \<Rightarrow> uuid" where
  start: "store_reach gen \<lparr>now = t, store = empty_store, events = []\<rparr>"
| step: "store_reach gen c \<Longrightarrow> store_step gen c c' \<Longrightarrow> store_reach gen c'"

text \<open>What the log says about an attempt: its current lease, and whether it was completed.\<close>

fun holder :: "store_event list \<Rightarrow> uuid \<Rightarrow> (uuid \<times> timestamp) option" where
  "holder [] a = None"
| "holder (Granted b k t e # l) a = (if a = b then Some (k, e) else holder l a)"
| "holder (Completed b k v # l) a = holder l a"
| "holder (Released b k # l) a = (if a = b then None else holder l a)"

definition completed_in :: "store_event list \<Rightarrow> uuid \<Rightarrow> bool" where
  "completed_in l a = (\<exists>k v. Completed a k v \<in> set l)"

lemma completed_in_simps [simp]:
  "\<not> completed_in [] a"
  "completed_in (Granted b k t e # l) a \<longleftrightarrow> completed_in l a"
  "completed_in (Completed b k v # l) a \<longleftrightarrow> a = b \<or> completed_in l a"
  "completed_in (Released b k # l) a \<longleftrightarrow> completed_in l a"
  by (auto simp: completed_in_def)

text \<open>The last completion of an attempt, with the token it was made under.\<close>

fun last_completion :: "store_event list \<Rightarrow> uuid \<Rightarrow> (uuid \<times> js_value) option" where
  "last_completion [] a = None"
| "last_completion (Completed b k v # l) a = (if a = b then Some (k, v) else last_completion l a)"
| "last_completion (e # l) a = last_completion l a"

lemma last_completion_in: "last_completion l a = Some (k, v) \<Longrightarrow> Completed a k v \<in> set l"
  by (induction l a rule: last_completion.induct) (auto split: if_splits)

lemma last_completion_None: "last_completion l a = None \<longleftrightarrow> \<not> completed_in l a"
  by (induction l a rule: last_completion.induct) auto

definition granted_tokens :: "store_event list \<Rightarrow> uuid set" where
  "granted_tokens l = {k. \<exists>a t e. Granted a k t e \<in> set l}"

lemma granted_tokens_simps [simp]:
  "granted_tokens [] = {}"
  "granted_tokens (Granted b k t e # l) = insert k (granted_tokens l)"
  "granted_tokens (Completed b k v # l) = granted_tokens l"
  "granted_tokens (Released b k # l) = granted_tokens l"
  by (auto simp: granted_tokens_def)

definition store_inv :: "(nat \<Rightarrow> uuid) \<Rightarrow> store_config \<Rightarrow> bool" where
  "store_inv gen c =
     ((\<forall>a. lease_of (store c) a = holder (events c) a)
      \<and> (\<forall>a. settled (store c) a = map_option snd (last_completion (events c) a))
      \<and> (\<forall>a k v. Completed a k v \<in> set (events c) \<longrightarrow> map_option fst (holder (events c) a) = Some k)
      \<and> granted_tokens (events c) \<subseteq> gen ` {..< tokensDrawn (store c)})"

lemma store_inv_start: "store_inv gen \<lparr>now = t, store = empty_store, events = []\<rparr>"
  by (simp add: store_inv_def lease_of_def settled_def empty_store_def)

lemma store_inv_step:
  assumes inv: "store_inv gen c" and "store_step gen c c'"
  shows "store_inv gen c'"
  using assms(2)
proof (cases rule: store_step.cases)
  case (tick t)
  then show ?thesis using inv by (simp add: store_inv_def)
next
  case (insert a f lease k st')
  then show ?thesis
    using inv claim_insert_effect [OF insert(2)] last_completion_None [of "events c" a]
    by (auto simp: store_inv_def lessThan_Suc completed_in_def)
next
  case (takeover t' a f lease k st')
  then show ?thesis
    using inv claim_locked_effect [OF takeover(3)] last_completion_None [of "events c" a]
    by (auto simp: store_inv_def lessThan_Suc completed_in_def)
next
  case (completes a fp k obj u st')
  then show ?thesis
    using inv complete_effect [OF completes(2)] by (auto simp: store_inv_def)
next
  case (releases a fp k u st')
  then show ?thesis
    using inv release_effect [OF releases(2)] last_completion_None [of "events c" a]
    by (auto simp: store_inv_def completed_in_def)
qed

lemma store_reach_inv: "store_reach gen c \<Longrightarrow> store_inv gen c"
  by (induction rule: store_reach.induct) (auto intro: store_inv_start store_inv_step)

lemma store_invD:
  assumes "store_inv gen c"
  shows "holder (events c) a = lease_of (store c) a"
    and "completed_in (events c) a \<longleftrightarrow> settled (store c) a \<noteq> None"
proof -
  show "holder (events c) a = lease_of (store c) a" using assms by (simp add: store_inv_def)
  have "settled (store c) a = map_option snd (last_completion (events c) a)"
    using assms by (simp add: store_inv_def)
  then show "completed_in (events c) a \<longleftrightarrow> settled (store c) a \<noteq> None"
    using last_completion_None [of "events c" a] by auto
qed

lemma fresh_token:
  assumes "inj gen" and "store_inv gen c"
  shows "gen (tokensDrawn (store c)) \<notin> granted_tokens (events c)"
proof
  assume "gen (tokensDrawn (store c)) \<in> granted_tokens (events c)"
  then obtain i where "i < tokensDrawn (store c)" and "gen (tokensDrawn (store c)) = gen i"
    using assms(2) by (auto simp: store_inv_def)
  then show False using injD [OF assms(1)] by blast
qed

lemma wrong_token_refused:
  assumes "lease_of st a = Some (k', e)" and "k \<noteq> k'"
  shows "\<exists>err. complete t a fp k obj st = (Inl err, st)"
    and "\<exists>err. release a fp k st = (Inl err, st)"
  using assms by (auto simp: complete_def release_def lease_of_def split: option.splits)

text \<open>C9: however workers interleave, an attempt is granted only when
  no lease on it is outstanding or the outstanding one has expired at the clock of the check,
  never after it was completed, and always under a token that was never handed out before.\<close>

theorem attempt_lease_exclusive:
  assumes "inj gen" and "store_reach gen c" and "store_step gen c c'"
    and "events c' = Granted a k t e # events c"
  shows "(case holder (events c) a of None \<Rightarrow> True | Some (k', e') \<Rightarrow> e' \<le> t)
    \<and> \<not> completed_in (events c) a \<and> k \<notin> granted_tokens (events c)"
  using assms(3)
proof (cases rule: store_step.cases)
  case (insert a' f lease k' st')
  with assms(4) have eq: "a' = a" "k' = k" by auto
  note eff = claim_insert_effect [OF insert(2), unfolded eq]
  have inv: "store_inv gen c" using assms(2) by (rule store_reach_inv)
  have "k \<notin> granted_tokens (events c)"
    unfolding eff(5) using assms(1) inv by (rule fresh_token)
  then show ?thesis using store_invD [OF inv] eff by simp
next
  case (takeover t' a' f lease k' st')
  with assms(4) have eq: "a' = a" "k' = k" "t = now c" by auto
  note eff = claim_locked_effect [OF takeover(3), unfolded eq]
  have inv: "store_inv gen c" using assms(2) by (rule store_reach_inv)
  have "k \<notin> granted_tokens (events c)"
    unfolding eff(5) using assms(1) inv by (rule fresh_token)
  then show ?thesis using store_invD [OF inv] eff eq by auto
qed (use assms(4) in auto)

text \<open>C26: in every reachable state an attempt that was ever
  completed still has its row, with the completion that was stored last. All its completions were
  made under one token, that of the lease it was completed under: as in the code, the holder of that
  lease may complete it once more and replace what is stored. Under any other token it cannot be
  completed, no claim acquires it and no release deletes it.\<close>

theorem completed_attempt_stays_completed:
  assumes "store_reach gen c" and "completed_in (events c) a"
  shows "\<exists>k v. settled (store c) a = Some v \<and> last_completion (events c) a = Some (k, v)
    \<and> (\<forall>k' v'. Completed a k' v' \<in> set (events c) \<longrightarrow> k' = k)
    \<and> (\<forall>t fp k' fs. k' \<noteq> k \<longrightarrow> fst (complete t a fp k' fs (store c)) \<noteq> Inr ())
    \<and> (\<forall>t t' fp ms k'. fst (claim gen t t' a fp ms (store c)) \<noteq> Inr (Acquired k'))
    \<and> (\<forall>fp k'. fst (release a fp k' (store c)) \<noteq> Inr ())"
proof -
  note inv = store_reach_inv [OF assms(1), unfolded store_inv_def]
  have s: "settled (store c) a \<noteq> None"
    using store_invD(2) [OF store_reach_inv [OF assms(1)]] assms(2) by simp
  then obtain k v where last: "settled (store c) a = Some v" "last_completion (events c) a = Some (k, v)"
    using inv by force
  have under: "map_option fst (holder (events c) a) = Some k'" if "Completed a k' v' \<in> set (events c)" for k' v'
    using inv that by blast
  have one: "k' = k" if "Completed a k' v' \<in> set (events c)" for k' v'
    using under [OF that] under [OF last_completion_in [OF last(2)]] by simp
  have "map_option fst (lease_of (store c) a) = Some k"
    using inv under [OF last_completion_in [OF last(2)]] by simp
  then have other: "fst (complete t a fp k' fs (store c)) \<noteq> Inr ()" if "k' \<noteq> k" for t fp k' fs
    using that complete_effect(1) [of t a fp k' fs "store c" "()"]
    by (cases "complete t a fp k' fs (store c)") auto
  have unclaimed: "fst (claim gen t t' a fp ms (store c)) \<noteq> Inr (Acquired k')" for t t' fp ms k'
  proof
    assume acq: "fst (claim gen t t' a fp ms (store c)) = Inr (Acquired k')"
    obtain r st' where "claim gen t t' a fp ms (store c) = (r, st')" by (cases "claim gen t t' a fp ms (store c)")
    with acq have "claim gen t t' a fp ms (store c) = (Inr (Acquired k'), st')" by simp
    then show False
      by (rule claim_cases) (use s in \<open>auto dest: claim_insert_effect(2) claim_locked_effect(2)\<close>)
  qed
  have "fst (release a fp k' (store c)) \<noteq> Inr ()" for fp k'
    using s release_effect by (metis prod.collapse)
  then show ?thesis using last one other unclaimed by (intro exI [of _ k] exI [of _ v] conjI) simp_all
qed

text \<open>Once an attempt was granted to a later holder, whoever holds an
  earlier token can neither complete nor release it, and its attempts change nothing.\<close>

theorem stale_holder_refused:
  assumes "store_reach gen c" and "holder (events c) a = Some (k', e)" and "k \<noteq> k'"
  shows "snd (complete t a fp k obj (store c)) = store c
    \<and> snd (release a fp k (store c)) = store c
    \<and> \<not> is_ok (fst (complete t a fp k obj (store c))) \<and> \<not> is_ok (fst (release a fp k (store c)))"
proof -
  have l: "lease_of (store c) a = Some (k', e)"
    using store_reach_inv [OF assms(1)] assms(2) by (simp add: store_inv_def)
  then show ?thesis
    using assms(3) wrong_token_refused [of "store c" a k' e k] by (metis fst_conv is_ok_simps(2) snd_conv)
qed

text \<open>An attempt whose holder vanished becomes workable again.
  A well-formed claim on a row that is not completed and whose lease has expired acquires it
  under the next token, with a lease that runs for the requested time.\<close>

theorem claim_recovers_expired_lease:
  assumes "executions st a = Some row" and "completion row = JNull" and "leaseExpiresAt row \<le> t"
    and "uuid_ok a" and "FingerprintSchema fp = Some (fingerprint row)"
    and "LeaseMillisecondsSchema ms = Some lease"
  shows "\<exists>st'. claim gen t t' a fp ms st = (Inr (Acquired (gen (tokensDrawn st))), st')
    \<and> lease_of st' a = Some (gen (tokensDrawn st), t' + lease) \<and> settled st' = settled st"
  using assms
  by (simp add: claim_def claim_insert_def claim_locked_def lease_of_def settled_def Let_def fun_eq_iff)

section \<open>Concrete runs\<close>

lemma fingerprint_f [simp]: "FingerprintSchema ''f'' = Some ''f''"
  by code_simp

lemma lease_1000 [simp]: "LeaseMillisecondsSchema (Finite 1000) = Some 1000"
  by (simp add: LeaseMillisecondsSchema_def js_int_def)

text \<open>A run in which a first holder vanishes, a second one takes over and completes.\<close>

definition run_tokens :: "nat \<Rightarrow> uuid" where
  "run_tokens n = (if n = 1 then nil_uuid else replicate n (CHR ''0''))"

definition run_row :: "uuid \<Rightarrow> timestamp \<Rightarrow> execution" where
  "run_row k e = \<lparr>fingerprint = ''f'', leaseToken = k, leaseExpiresAt = e, completion = JNull,
     completedAt = None\<rparr>"

definition run0 :: store_config where
  "run0 = \<lparr>now = 0, store = empty_store, events = []\<rparr>"

definition run1 :: store_config where
  "run1 = \<lparr>now = 0, store = \<lparr>executions = [nil_uuid \<mapsto> run_row [] 1000], tokensDrawn = 1\<rparr>,
     events = [Granted nil_uuid [] 0 1000]\<rparr>"

definition run2 :: store_config where
  "run2 = run1\<lparr>now := 1000\<rparr>"

definition run3 :: store_config where
  "run3 = \<lparr>now = 1000,
     store = \<lparr>executions = [nil_uuid \<mapsto> run_row nil_uuid 2000], tokensDrawn = 2\<rparr>,
     events = [Granted nil_uuid nil_uuid 1000 2000, Granted nil_uuid [] 0 1000]\<rparr>"

definition run4 :: store_config where
  "run4 = \<lparr>now = 1000,
     store = \<lparr>executions = [nil_uuid \<mapsto> (run_row nil_uuid 2000)
         \<lparr>completion := JObj [], completedAt := Some 1000\<rparr>], tokensDrawn = 2\<rparr>,
     events = [Completed nil_uuid nil_uuid (JObj []), Granted nil_uuid nil_uuid 1000 2000,
               Granted nil_uuid [] 0 1000]\<rparr>"

lemma inj_run_tokens: "inj (\<lambda>n. replicate n (CHR ''0''))"
  by (rule injI) (metis length_replicate)

lemma run_steps:
  "store_step run_tokens run0 run1" "store_step run_tokens run1 run2"
  "store_step run_tokens run2 run3" "store_step run_tokens run3 run4"
proof -
  have "claim_insert run_tokens (now run0) nil_uuid ''f'' 1000 (store run0) = (Some [], store run1)"
    by (simp add: claim_insert_def run0_def run1_def empty_store_def run_tokens_def run_row_def)
  from store_step.insert [OF this] show "store_step run_tokens run0 run1"
    by (simp add: run0_def run1_def)
  from store_step.tick [of run1 1000] show "store_step run_tokens run1 run2"
    by (simp add: run1_def run2_def)
  have "claim_locked run_tokens (now run2) 1000 nil_uuid ''f'' 1000 (store run2)
      = (Inr (Acquired nil_uuid), store run3)"
    by (simp add: claim_locked_def run1_def run2_def run3_def run_tokens_def run_row_def)
  from store_step.takeover [OF _ this] show "store_step run_tokens run2 run3"
    by (simp add: run1_def run2_def run3_def)
  have "complete (now run3) nil_uuid ''f'' nil_uuid [] (store run3) = (Inr (), store run4)"
    by (simp add: complete_def run3_def run4_def run_row_def)
  from store_step.completes [OF this] show "store_step run_tokens run3 run4"
    by (simp add: run3_def run4_def)
qed

lemma run_reach:
  "store_reach run_tokens run2" "store_reach run_tokens run3" "store_reach run_tokens run4"
proof -
  have "store_reach run_tokens run0" unfolding run0_def by (rule start)
  then have "store_reach run_tokens run1" using run_steps(1) by (rule step)
  then show r2: "store_reach run_tokens run2" using run_steps(2) by (rule step)
  then show r3: "store_reach run_tokens run3" using run_steps(3) by (rule step)
  then show "store_reach run_tokens run4" using run_steps(4) by (rule step)
qed

text \<open>The same first two steps under tokens that never repeat.\<close>

lemma inj_tokens_run:
  "store_reach (\<lambda>n. replicate n (CHR ''0'')) run2"
  "store_step (\<lambda>n. replicate n (CHR ''0'')) run2
     \<lparr>now = 1000, store = \<lparr>executions = [nil_uuid \<mapsto> run_row ''0'' 2000], tokensDrawn = 2\<rparr>,
      events = [Granted nil_uuid ''0'' 1000 2000, Granted nil_uuid [] 0 1000]\<rparr>"
proof -
  let ?g = "\<lambda>n. replicate n (CHR ''0'')"
  have "store_reach ?g run0" unfolding run0_def by (rule start)
  moreover have "claim_insert ?g (now run0) nil_uuid ''f'' 1000 (store run0) = (Some [], store run1)"
    by (simp add: claim_insert_def run0_def run1_def empty_store_def run_row_def)
  from store_step.insert [OF this] have "store_step ?g run0 run1" by (simp add: run0_def run1_def)
  ultimately have "store_reach ?g run1" by (rule step)
  moreover from store_step.tick [of run1 1000] have "store_step ?g run1 run2"
    by (simp add: run1_def run2_def)
  ultimately show "store_reach ?g run2" by (rule step)
  have "claim_locked ?g (now run2) 1000 nil_uuid ''f'' 1000 (store run2)
      = (Inr (Acquired ''0''), \<lparr>executions = [nil_uuid \<mapsto> run_row ''0'' 2000], tokensDrawn = 2\<rparr>)"
    by (simp add: claim_locked_def run1_def run2_def run_row_def Let_def)
  from store_step.takeover [OF _ this]
  show "store_step ?g run2 \<lparr>now = 1000,
      store = \<lparr>executions = [nil_uuid \<mapsto> run_row ''0'' 2000], tokensDrawn = 2\<rparr>,
      events = [Granted nil_uuid ''0'' 1000 2000, Granted nil_uuid [] 0 1000]\<rparr>"
    by (simp add: run1_def run2_def)
qed

theorem attempt_lease_exclusive_witness:
  "holder (events run2) nil_uuid = Some ([], 1000) \<and> ''0'' \<notin> granted_tokens (events run2)"
  using attempt_lease_exclusive [OF inj_run_tokens inj_tokens_run, of nil_uuid "''0''" 1000 2000]
  by (simp add: run1_def run2_def)

theorem completed_attempt_stays_completed_witness:
  "settled (store run4) nil_uuid = Some (JObj [])
   \<and> fst (complete 1500 nil_uuid ''f'' max_uuid [(''kind'', JStr ''final'')] (store run4)) \<noteq> Inr ()
   \<and> fst (release nil_uuid ''f'' nil_uuid (store run4)) \<noteq> Inr ()"
proof -
  have "completed_in (events run4) nil_uuid" by (simp add: run4_def)
  from completed_attempt_stays_completed [OF run_reach(3) this] obtain k v where
    kept: "settled (store run4) nil_uuid = Some v" "last_completion (events run4) nil_uuid = Some (k, v)"
    and other: "k' \<noteq> k \<Longrightarrow> fst (complete t nil_uuid fp k' fs (store run4)) \<noteq> Inr ()"
    and held: "fst (release nil_uuid fp k' (store run4)) \<noteq> Inr ()" for t fp k' fs
    by blast
  have "k = nil_uuid" "v = JObj []" using kept(2) by (simp_all add: run4_def)
  moreover have "max_uuid \<noteq> nil_uuid" by code_simp
  ultimately show ?thesis using kept(1) other held by blast
qed

theorem stale_holder_refused_witness:
  "\<not> is_ok (fst (complete 1500 nil_uuid ''f'' [] [] (store run3)))
   \<and> snd (release nil_uuid ''f'' [] (store run3)) = store run3"
  using stale_holder_refused [OF run_reach(2), of nil_uuid nil_uuid 2000 "[]" 1500 "''f''" "[]"]
  by (simp add: run3_def nil_uuid_def)

theorem claim_recovers_expired_lease_witness:
  "\<exists>st'. claim run_tokens 1000 1000 nil_uuid ''f'' (Finite 1000) (store run2)
      = (Inr (Acquired nil_uuid), st') \<and> lease_of st' nil_uuid = Some (nil_uuid, 2000)"
  using claim_recovers_expired_lease [of "store run2" nil_uuid "run_row [] 1000" 1000 "''f''"
      "Finite 1000" 1000 run_tokens 1000]
  by (auto simp: run1_def run2_def run_row_def run_tokens_def)

section \<open>The interface that the workers rely on\<close>

text \<open>
  \<open>AttemptExecutionStore\<close> as the attempt processor uses it: four operations over some state,
  and the completion that the state holds for an attempt.
\<close>

locale attempt_execution_store =
  fixes lookup_op :: "uuid \<Rightarrow> string \<Rightarrow> ('s, 'e, attempt_lookup) comp"
    and claim_op :: "uuid \<Rightarrow> string \<Rightarrow> js_number \<Rightarrow> ('s, 'e, attempt_claim) comp"
    and complete_op :: "uuid \<Rightarrow> string \<Rightarrow> uuid \<Rightarrow> (string \<times> js_value) list \<Rightarrow> ('s, 'e, unit) comp"
    and release_op :: "uuid \<Rightarrow> string \<Rightarrow> uuid \<Rightarrow> ('s, 'e, unit) comp"
    and kept :: "'s \<Rightarrow> uuid \<Rightarrow> js_value option"
  assumes lookup_kept: "lookup_op a fp s = (r, s') \<Longrightarrow> kept s' = kept s"
    and lookup_completed: "lookup_op a fp s = (Inr (Lookup_completed v), s') \<Longrightarrow> kept s a = Some v"
    and lookup_open: "lookup_op a fp s = (Inr q, s') \<Longrightarrow> \<forall>v. q \<noteq> Lookup_completed v \<Longrightarrow> kept s a = None"
    and claim_kept: "claim_op a fp ms s = (c, s') \<Longrightarrow> kept s' = kept s"
    and claim_completed: "claim_op a fp ms s = (Inr (Claim_completed v), s') \<Longrightarrow> kept s a = Some v"
    and claim_acquired: "claim_op a fp ms s = (Inr (Acquired k), s') \<Longrightarrow> kept s a = None"
    and complete_kept: "complete_op a fp k obj s = (Inr u, s') \<Longrightarrow> kept s' = (kept s)(a \<mapsto> JObj obj)"
    and complete_failed: "complete_op a fp k obj s = (Inl e, s') \<Longrightarrow> kept s' = kept s"
    and release_kept: "release_op a fp k s = (x, s') \<Longrightarrow> kept s' = kept s"

text \<open>
  The modelled store provides it. Its clock is a sequence of readings, of which every
  operation consumes two.
\<close>

record clocked_store =
  base :: attempt_store
  readings :: nat

definition on_base ::
  "(attempt_store, store_error, 'a) comp \<Rightarrow> (clocked_store, store_error, 'a) comp" where
  "on_base m s = (case m (base s) of (r, st) \<Rightarrow> (r, s\<lparr>base := st, readings := readings s + 2\<rparr>))"

definition lookup_now :: "(nat \<Rightarrow> timestamp) \<Rightarrow> uuid \<Rightarrow> string
    \<Rightarrow> (clocked_store, store_error, attempt_lookup) comp" where
  "lookup_now clock a fp s = on_base (lookup (clock (readings s)) a fp) s"

definition claim_now :: "(nat \<Rightarrow> uuid) \<Rightarrow> (nat \<Rightarrow> timestamp) \<Rightarrow> uuid \<Rightarrow> string \<Rightarrow> js_number
    \<Rightarrow> (clocked_store, store_error, attempt_claim) comp" where
  "claim_now gen clock a fp ms s =
     on_base (claim gen (clock (readings s)) (clock (Suc (readings s))) a fp ms) s"

definition complete_now :: "(nat \<Rightarrow> timestamp) \<Rightarrow> uuid \<Rightarrow> string \<Rightarrow> uuid \<Rightarrow> (string \<times> js_value) list
    \<Rightarrow> (clocked_store, store_error, unit) comp" where
  "complete_now clock a fp k obj s = on_base (complete (clock (readings s)) a fp k obj) s"

definition release_now :: "uuid \<Rightarrow> string \<Rightarrow> uuid \<Rightarrow> (clocked_store, store_error, unit) comp" where
  "release_now a fp k s = on_base (release a fp k) s"

definition kept_now :: "clocked_store \<Rightarrow> uuid \<Rightarrow> js_value option" where
  "kept_now s = settled (base s)"

lemma on_baseE:
  assumes "on_base m s = (r, s')"
  obtains st where "m (base s) = (r, st)" "base s' = st"
  using assms by (auto simp: on_base_def split: prod.splits)

lemma readCompletion_Inr [simp]: "readCompletion v = Inr w \<longleftrightarrow> StoredCompletionSchema v \<and> w = v"
  by (auto simp: readCompletion_def)

lemma lookup_answer:
  assumes "lookup t a fp st = (Inr q, st')"
  shows "case q of Lookup_completed v \<Rightarrow> settled st a = Some v | _ \<Rightarrow> settled st a = None"
  using assms
  by (auto simp: lookup_def settled_def bindR_Inr_iff split: if_splits option.splits)

lemma claim_settled:
  assumes "claim gen t t' a fp ms st = (r, st')"
  shows "settled st' = settled st"
  using assms
proof (cases rule: claim_cases)
  case (locked f lease)
  show ?thesis
  proof (cases "\<exists>k. r = Inr (Acquired k)")
    case True
    then show ?thesis using locked(4) by (auto dest: claim_locked_effect(3))
  next
    case False
    then show ?thesis using claim_locked_idle [OF locked(4)] by simp
  qed
qed (auto dest: claim_insert_effect(3))

lemma claim_answer:
  assumes "claim gen t t' a fp ms st = (Inr q, st')"
  shows "case q of Claim_completed v \<Rightarrow> settled st a = Some v | Acquired k \<Rightarrow> settled st a = None
    | Claim_in_progress \<Rightarrow> True"
  using assms
proof (cases rule: claim_cases)
  case (locked f lease)
  then show ?thesis
    by (cases q) (auto dest: claim_locked_effect(2)
        simp: claim_locked_def Let_def settled_def bindR_Inr_iff split: option.splits if_splits)
qed (auto dest: claim_insert_effect(2))

interpretation durable_store:
  attempt_execution_store "lookup_now clock" "claim_now gen clock" "complete_now clock" release_now kept_now
  for clock :: "nat \<Rightarrow> timestamp" and gen :: "nat \<Rightarrow> uuid"
proof unfold_locales
  fix a fp ms k s s' r q v u e x obj
  show "lookup_now clock a fp s = (r, s') \<Longrightarrow> kept_now s' = kept_now s"
    by (auto simp: lookup_now_def kept_now_def elim!: on_baseE dest: store_error_unchanged(1))
  show "lookup_now clock a fp s = (Inr (Lookup_completed v), s') \<Longrightarrow> kept_now s a = Some v"
    by (auto simp: lookup_now_def kept_now_def elim!: on_baseE dest!: lookup_answer)
  show "lookup_now clock a fp s = (Inr q, s') \<Longrightarrow> \<forall>v. q \<noteq> Lookup_completed v \<Longrightarrow> kept_now s a = None"
    by (auto simp: lookup_now_def kept_now_def elim!: on_baseE dest!: lookup_answer
        split: attempt_lookup.splits)
  show "claim_now gen clock a fp ms s = (r, s') \<Longrightarrow> kept_now s' = kept_now s" for r
    by (auto simp: claim_now_def kept_now_def elim!: on_baseE dest: claim_settled)
  show "claim_now gen clock a fp ms s = (Inr (Claim_completed v), s') \<Longrightarrow> kept_now s a = Some v"
    by (auto simp: claim_now_def kept_now_def elim!: on_baseE dest!: claim_answer)
  show "claim_now gen clock a fp ms s = (Inr (Acquired k), s') \<Longrightarrow> kept_now s a = None"
    by (auto simp: claim_now_def kept_now_def elim!: on_baseE dest!: claim_answer)
  show "complete_now clock a fp k obj s = (Inr u, s') \<Longrightarrow> kept_now s' = (kept_now s)(a \<mapsto> JObj obj)"
    by (auto simp: complete_now_def kept_now_def elim!: on_baseE dest: complete_effect(2))
  show "complete_now clock a fp k obj s = (Inl e, s') \<Longrightarrow> kept_now s' = kept_now s"
    by (auto simp: complete_now_def kept_now_def elim!: on_baseE dest: store_error_unchanged(3))
  show "release_now a fp k s = (x, s') \<Longrightarrow> kept_now s' = kept_now s"
    by (cases x) (auto simp: release_now_def kept_now_def elim!: on_baseE
        dest: release_effect(3) store_error_unchanged(4))
qed

end
