(* ===== verification/Event_Contracts.thy ===== *)
theory Event_Contracts
  imports Contracts
begin

text \<open>
  \<open>packages/contracts/src/event.ts\<close> and the rendered messages of \<open>event-type.ts\<close>: the
  classification of events, activation and lifecycle authorizations, the reconstructable event
  view, consequence previews, prepared activations and the append-only event transitions. A
  record stands for a value of the right shape; its schema predicate holds exactly of the
  values that the schema returns, so trimmed strings are already trimmed. Characters are
  modelled up to U+00FF, where text is its own NFC normalization.
\<close>

section \<open>Classification\<close>

datatype event_kind = Incident | Drill | Test_event

datatype template_mode = Real_mode | Drill_mode

datatype roster_population = Staff | Synthetic | Partner

datatype event_status = Draft | Active | Cleared | Closed

datatype notification_purpose = Activation | Clearance | Reactivation

datatype channel = Push | Email | Sms

fun EventClassificationSchema :: "event_kind \<Rightarrow> template_mode \<Rightarrow> bool" where
  "EventClassificationSchema Incident m = (m = Real_mode)"
| "EventClassificationSchema Drill m = (m = Drill_mode)"
| "EventClassificationSchema Test_event m = (m = Drill_mode)"

record targeting =
  t_kind :: event_kind
  t_mode :: template_mode
  t_population :: roster_population

definition EventTargetingSchema :: "targeting \<Rightarrow> bool" where
  "EventTargetingSchema t =
     (t_kind t = Incident \<and> t_mode t = Real_mode \<and> t_population t = Staff
      \<or> t_kind t = Drill \<and> t_mode t = Drill_mode \<and> t_population t = Staff
      \<or> t_kind t = Drill \<and> t_mode t = Drill_mode \<and> t_population t = Synthetic
      \<or> t_kind t = Test_event \<and> t_mode t = Drill_mode \<and> t_population t = Synthetic)"

definition NotificationTargetingSchema :: "targeting \<Rightarrow> bool" where
  "NotificationTargetingSchema t =
     (EventTargetingSchema t
      \<or> t_kind t = Incident \<and> t_mode t = Real_mode \<and> t_population t = Partner)"

definition isRosteredPopulation :: "roster_population \<Rightarrow> bool" where
  "isRosteredPopulation p = (p \<noteq> Partner)"

definition eventPopulationForNotification :: "roster_population \<Rightarrow> roster_population" where
  "eventPopulationForNotification p = (if p = Partner then Staff else p)"

lemma targeting_classification:
  "EventTargetingSchema t \<Longrightarrow> EventClassificationSchema (t_kind t) (t_mode t)"
  "NotificationTargetingSchema t \<Longrightarrow> EventClassificationSchema (t_kind t) (t_mode t)"
  by (auto simp: EventTargetingSchema_def NotificationTargetingSchema_def)

lemma real_mode_iff_incident:
  "EventClassificationSchema k m \<Longrightarrow> m = Real_mode \<longleftrightarrow> k = Incident"
  by (cases k) auto

record type_version_ref =
  tv_id :: uuid
  tv_mode :: template_mode

definition EventTypeVersionRefSchema :: "type_version_ref \<Rightarrow> bool" where
  "EventTypeVersionRefSchema r = uuid_ok (tv_id r)"

section \<open>Visible text and rendered messages\<close>

definition isUnsafeVisibleTextCodePoint :: "char \<Rightarrow> bool" where
  "isUnsafeVisibleTextCodePoint c =
     (let n = (of_char c :: nat)
      in n \<le> 9 \<or> (11 \<le> n \<and> n \<le> 31) \<or> (127 \<le> n \<and> n \<le> 159))"

definition renderedVisibleText :: "nat \<Rightarrow> string \<Rightarrow> bool" where
  "renderedVisibleText n s =
     (bounded_text n s \<and> list_all (\<lambda>c. \<not> isUnsafeVisibleTextCodePoint c) s)"

definition OperatorDetailSchema :: "string \<Rightarrow> bool" where
  "OperatorDetailSchema = renderedVisibleText 200"

definition startsWith :: "string \<Rightarrow> string \<Rightarrow> bool" where
  "startsWith s p = (take (length p) s = p)"

fun str_includes :: "string \<Rightarrow> string \<Rightarrow> bool" where
  "str_includes [] p = (p = [])"
| "str_includes (c # s) p = (startsWith (c # s) p \<or> str_includes s p)"

datatype classification_marker = INCIDENT_marker | DRILL_marker

fun marker_prefix :: "classification_marker \<Rightarrow> string" where
  "marker_prefix INCIDENT_marker = ''[INCIDENT]''"
| "marker_prefix DRILL_marker = ''[DRILL]''"

fun opposite_marker :: "classification_marker \<Rightarrow> classification_marker" where
  "opposite_marker INCIDENT_marker = DRILL_marker"
| "opposite_marker DRILL_marker = INCIDENT_marker"

datatype message_content =
  Push_message (title: string) (body: string)
| Email_message (subject: string) (textBody: string)
| Sms_message (body: string)

fun content_channel :: "message_content \<Rightarrow> channel" where
  "content_channel (Push_message _ _) = Push"
| "content_channel (Email_message _ _) = Email"
| "content_channel (Sms_message _) = Sms"

record rendered_message =
  m_kind :: event_kind
  m_mode :: template_mode
  m_purpose :: notification_purpose
  m_marker :: classification_marker
  m_content :: message_content

fun visibleFields :: "message_content \<Rightarrow> string list" where
  "visibleFields (Push_message t b) = [t, b]"
| "visibleFields (Email_message s t) = [s, t]"
| "visibleFields (Sms_message b) = [b]"

text \<open>\<open>addRenderedMessageIssues\<close> adds no issue.\<close>

definition rendered_message_consistent :: "rendered_message \<Rightarrow> bool" where
  "rendered_message_consistent m =
     (let expectedMode = (if m_kind m = Incident then Real_mode else Drill_mode);
          expectedMarker = (if expectedMode = Real_mode then INCIDENT_marker else DRILL_marker)
      in m_mode m = expectedMode \<and> m_marker m = expectedMarker
         \<and> list_all (\<lambda>f. startsWith f (marker_prefix expectedMarker)
                      \<and> \<not> str_includes f (marker_prefix (opposite_marker expectedMarker)))
             (visibleFields (m_content m)))"

fun message_content_ok :: "message_content \<Rightarrow> bool" where
  "message_content_ok (Push_message t b) = (renderedVisibleText 120 t \<and> renderedVisibleText 500 b)"
| "message_content_ok (Email_message s t) = (renderedVisibleText 200 s \<and> renderedVisibleText 10000 t)"
| "message_content_ok (Sms_message b) = renderedVisibleText 1000 b"

definition RenderedMessageSchema :: "rendered_message \<Rightarrow> bool" where
  "RenderedMessageSchema m = (message_content_ok (m_content m) \<and> rendered_message_consistent m)"

record channel_preview =
  cp_channel :: channel
  cp_endpointCount :: int
  cp_message :: rendered_message
  cp_integrationId :: string

fun integrationsByChannel :: "channel \<Rightarrow> string list" where
  "integrationsByChannel Push = [''expo-push'', ''mobile-push'']"
| "integrationsByChannel Email = [''ses-email'']"
| "integrationsByChannel Sms = [''aws-eum-sms'']"

definition ChannelConsequencePreviewSchema :: "channel_preview \<Rightarrow> bool" where
  "ChannelConsequencePreviewSchema p =
     (0 \<le> cp_endpointCount p \<and> cp_endpointCount p \<le> 12000
      \<and> RenderedMessageSchema (cp_message p) \<and> IntegrationIdSchema (cp_integrationId p)
      \<and> content_channel (m_content (cp_message p)) = cp_channel p
      \<and> cp_integrationId p \<in> set (integrationsByChannel (cp_channel p)))"

section \<open>Authorizations\<close>

datatype activation_authorization =
  Human_confirmed (aa_previewId: uuid) (aa_preparedId: "uuid option") (aa_confirmationId: uuid)
    (aa_digest: digest) (aa_requestId: uuid)
| Synthetic_training (aa_previewId: uuid) (aa_digest: digest) (aa_requestId: uuid)

fun is_human_confirmed :: "activation_authorization \<Rightarrow> bool" where
  "is_human_confirmed (Human_confirmed _ _ _ _ _) = True"
| "is_human_confirmed (Synthetic_training _ _ _) = False"

fun ActivationAuthorizationSchema :: "activation_authorization \<Rightarrow> bool" where
  "ActivationAuthorizationSchema (Human_confirmed p q c d r) =
     (uuid_ok p \<and> pred_option uuid_ok q \<and> uuid_ok c \<and> digest_ok d \<and> uuid_ok r)"
| "ActivationAuthorizationSchema (Synthetic_training p d r) =
     (uuid_ok p \<and> digest_ok d \<and> uuid_ok r)"

text \<open>
  The protected actions in the order in which JavaScript sorts their IDs: \<open>all-clear\<close>,
  \<open>close-real-event\<close>, \<open>send-real-notification\<close>, \<open>start-real-incident\<close>.
\<close>

fun id_rank :: "human_only_action \<Rightarrow> nat" where
  "id_rank All_clear = 0"
| "id_rank Close_real_event = 1"
| "id_rank Send_real_notification = 2"
| "id_rank Start_real_incident = 3"

lemma id_rank_inject: "id_rank a = id_rank b \<longleftrightarrow> a = b"
  by (cases a; cases b) simp_all

instantiation human_only_action :: linorder
begin

definition less_eq_human_only_action :: "human_only_action \<Rightarrow> human_only_action \<Rightarrow> bool" where
  "less_eq_human_only_action a b = (id_rank a \<le> id_rank b)"

definition less_human_only_action :: "human_only_action \<Rightarrow> human_only_action \<Rightarrow> bool" where
  "less_human_only_action a b = (id_rank a < id_rank b)"

instance
  by standard (auto simp: less_eq_human_only_action_def less_human_only_action_def id_rank_inject)

end

text \<open>That order is the lexicographic order of the IDs by code unit.\<close>

lemma id_order_lexicographic:
  "a < b \<longleftrightarrow> ord_class.lexordp (map (of_char :: char \<Rightarrow> nat) (human_only_id a))
      (map (of_char :: char \<Rightarrow> nat) (human_only_id b))"
  by (cases a; cases b) (simp_all add: less_human_only_action_def)

datatype lifecycle_authorization =
  Human_lifecycle (la_purpose: notification_purpose) (la_targeting: targeting) (la_previewId: uuid)
    (la_transitionId: uuid) (la_actionIds: "human_only_action list") (la_confirmationId: uuid)
    (la_digest: digest) (la_requestId: uuid)
| Synthetic_lifecycle (la_purpose: notification_purpose) (la_targeting: targeting) (la_previewId: uuid)
    (la_transitionId: uuid) (la_digest: digest) (la_requestId: uuid)

fun is_human_lifecycle :: "lifecycle_authorization \<Rightarrow> bool" where
  "is_human_lifecycle (Human_lifecycle _ _ _ _ _ _ _ _) = True"
| "is_human_lifecycle (Synthetic_lifecycle _ _ _ _ _ _) = False"

definition expectedActionIds :: "notification_purpose \<Rightarrow> targeting \<Rightarrow> human_only_action list" where
  "expectedActionIds p t =
     (if p = Clearance then [All_clear, Send_real_notification]
      else if t_kind t = Incident then [Start_real_incident, Send_real_notification]
      else [Send_real_notification])"

text \<open>The members of the union, without the refinement that relates their fields.\<close>

fun lifecycle_authorization_shape :: "lifecycle_authorization \<Rightarrow> bool" where
  "lifecycle_authorization_shape (Human_lifecycle p t v i acts c d r) =
     (p \<noteq> Activation \<and> EventTargetingSchema t \<and> uuid_ok v \<and> uuid_ok i
      \<and> 1 \<le> length acts \<and> length acts \<le> 4 \<and> distinct acts
      \<and> uuid_ok c \<and> digest_ok d \<and> uuid_ok r)"
| "lifecycle_authorization_shape (Synthetic_lifecycle p t v i d r) =
     (p \<noteq> Activation \<and> EventTargetingSchema t \<and> uuid_ok v \<and> uuid_ok i \<and> digest_ok d \<and> uuid_ok r)"

definition LifecycleActionAuthorizationSchema :: "lifecycle_authorization \<Rightarrow> bool" where
  "LifecycleActionAuthorizationSchema a =
     (lifecycle_authorization_shape a
      \<and> (t_population (la_targeting a) = Staff) = is_human_lifecycle a
      \<and> (case a of
           Human_lifecycle p t v i acts c d r \<Rightarrow> sort acts = sort (expectedActionIds p t)
         | Synthetic_lifecycle p t v i d r \<Rightarrow> True))"

section \<open>Events\<close>

record activation_threat =
  threat_id :: uuid
  threat_name :: string
  threat_detail :: "string option"

definition ActivationThreatSchema :: "activation_threat \<Rightarrow> bool" where
  "ActivationThreatSchema t =
     (uuid_ok (threat_id t) \<and> bounded_text 160 (threat_name t)
      \<and> pred_option OperatorDetailSchema (threat_detail t))"

record event =
  ev_id :: uuid
  ev_facilityId :: uuid
  ev_kind :: event_kind
  ev_mode :: template_mode
  ev_typeVersion :: type_version_ref
  ev_status :: event_status
  ev_rosterSnapshotId :: "uuid option"
  ev_population :: "roster_population option"
  ev_threat :: "activation_threat option"
  ev_responseDetail :: "string option"
  ev_createdBy :: actor
  ev_createdAt :: timestamp
  ev_activatedAt :: "timestamp option"
  ev_allClearAt :: "timestamp option"
  ev_reactivatedAt :: "timestamp option"
  ev_closedAt :: "timestamp option"
  ev_correctionOf :: "uuid option"
  ev_correctionReason :: "string option"
  ev_authorization :: "activation_authorization option"

text \<open>\<open>addClassificationIssues\<close> adds no issue.\<close>

definition classification_ok ::
  "event_kind \<Rightarrow> template_mode \<Rightarrow> roster_population option \<Rightarrow> bool" where
  "classification_ok k m p =
     (EventClassificationSchema k m
      \<and> (case p of None \<Rightarrow> True
          | Some q \<Rightarrow> EventTargetingSchema \<lparr>t_kind = k, t_mode = m, t_population = q\<rparr>))"

definition event_shape :: "event \<Rightarrow> bool" where
  "event_shape e =
     (uuid_ok (ev_id e) \<and> uuid_ok (ev_facilityId e) \<and> EventTypeVersionRefSchema (ev_typeVersion e)
      \<and> pred_option uuid_ok (ev_rosterSnapshotId e)
      \<and> pred_option isRosteredPopulation (ev_population e)
      \<and> pred_option ActivationThreatSchema (ev_threat e)
      \<and> pred_option OperatorDetailSchema (ev_responseDetail e)
      \<and> ActorSchema (ev_createdBy e)
      \<and> pred_option uuid_ok (ev_correctionOf e)
      \<and> pred_option (bounded_text 1000) (ev_correctionReason e)
      \<and> pred_option ActivationAuthorizationSchema (ev_authorization e))"

definition event_creator_ok :: "event \<Rightarrow> bool" where
  "event_creator_ok e =
     (tv_mode (ev_typeVersion e) = ev_mode e
      \<and> \<not> (ev_kind e = Incident \<and> ev_status e \<noteq> Draft \<and> actor_kind (ev_createdBy e) \<noteq> Human)
      \<and> \<not> (ev_kind e = Drill \<and> ev_population e = Some Staff \<and> actor_kind (ev_createdBy e) \<noteq> Human))"

definition event_pins_ok :: "event \<Rightarrow> bool" where
  "event_pins_ok e =
     (if ev_status e = Draft
      then ev_rosterSnapshotId e = None \<and> ev_population e = None
        \<and> ev_activatedAt e = None \<and> ev_allClearAt e = None \<and> ev_reactivatedAt e = None
        \<and> ev_closedAt e = None \<and> ev_authorization e = None
      else ev_rosterSnapshotId e \<noteq> None \<and> ev_population e \<noteq> None \<and> ev_activatedAt e \<noteq> None
        \<and> (case ev_authorization e of
             None \<Rightarrow> False
           | Some a \<Rightarrow>
               \<not> (ev_population e = Some Staff \<and> \<not> is_human_confirmed a)
               \<and> \<not> (ev_population e = Some Synthetic \<and> is_human_confirmed a)))"

definition event_status_ok :: "event \<Rightarrow> bool" where
  "event_status_ok e =
     ((ev_status e = Active \<longrightarrow>
         (ev_allClearAt e = None \<and> ev_reactivatedAt e = None
          \<or> ev_allClearAt e \<noteq> None \<and> ev_reactivatedAt e \<noteq> None)
         \<and> ev_closedAt e = None)
      \<and> (ev_status e = Cleared \<longrightarrow> ev_allClearAt e \<noteq> None \<and> ev_closedAt e = None)
      \<and> (ev_status e = Closed \<longrightarrow> ev_allClearAt e \<noteq> None \<and> ev_closedAt e \<noteq> None)
      \<and> (ev_reactivatedAt e \<noteq> None \<longrightarrow> ev_allClearAt e \<noteq> None))"

definition lifecycleTimes :: "event \<Rightarrow> timestamp list" where
  "lifecycleTimes e =
     map the (filter (\<lambda>t. t \<noteq> None)
       (if ev_status e = Active \<and> ev_reactivatedAt e \<noteq> None
        then [ev_activatedAt e, ev_allClearAt e, ev_reactivatedAt e]
        else [ev_activatedAt e, ev_reactivatedAt e, ev_allClearAt e, ev_closedAt e]))"

fun chronological :: "timestamp \<Rightarrow> timestamp list \<Rightarrow> bool" where
  "chronological previous [] = True"
| "chronological previous (t # ts) = (isAtOrAfter t previous \<and> chronological t ts)"

definition event_correction_ok :: "event \<Rightarrow> bool" where
  "event_correction_ok e =
     ((ev_correctionOf e \<noteq> None) = (ev_correctionReason e \<noteq> None)
      \<and> ev_correctionOf e \<noteq> Some (ev_id e))"

definition EventSchema :: "event \<Rightarrow> bool" where
  "EventSchema e =
     (event_shape e
      \<and> classification_ok (ev_kind e) (ev_mode e) (ev_population e)
      \<and> event_creator_ok e \<and> event_pins_ok e \<and> event_status_ok e
      \<and> chronological (ev_createdAt e) (lifecycleTimes e)
      \<and> event_correction_ok e)"

section \<open>Consequence previews\<close>

definition ACTIVATION_PREVIEW_MAX_AGE_SECONDS :: int where
  "ACTIVATION_PREVIEW_MAX_AGE_SECONDS = 15 * 60"

definition PARTNER_AUDIENCE_MAX_RECIPIENTS :: int where
  "PARTNER_AUDIENCE_MAX_RECIPIENTS = 1200"

text \<open>The fields that activation and lifecycle previews share, and what each adds.\<close>

record preview =
  pv_id :: uuid
  pv_kind :: event_kind
  pv_mode :: template_mode
  pv_typeVersion :: type_version_ref
  pv_rosterSnapshotId :: uuid
  pv_population :: roster_population
  pv_recipientCount :: int
  pv_partnerRecipientCount :: int
  pv_channels :: "channel_preview list"
  pv_ready :: bool
  pv_blockingReasonCodes :: "string list"
  pv_digest :: digest
  pv_createdAt :: timestamp
  pv_expiresAt :: timestamp

record activation_preview = preview +
  pv_facilityId :: uuid
  pv_threat :: "activation_threat option"
  pv_responseDetail :: "string option"
  pv_activeEventIds :: "uuid list"

record lifecycle_preview = preview +
  pv_eventId :: uuid
  pv_purpose :: notification_purpose

definition previewReachesPartners ::
  "event_kind \<Rightarrow> template_mode \<Rightarrow> roster_population \<Rightarrow> bool" where
  "previewReachesPartners k m p = (k = Incident \<and> m = Real_mode \<and> p = Staff)"

definition reason_code_ok :: "string \<Rightarrow> bool" where
  "reason_code_ok s =
     (bounded_text 100 s \<and> list_all (\<lambda>c. ascii_upper c \<or> ascii_digit c \<or> c = CHR ''_'') s)"

text \<open>Checks that both preview schemas make with the same code.\<close>

definition preview_common_ok :: "'a preview_scheme \<Rightarrow> bool" where
  "preview_common_ok p =
     (uuid_ok (pv_id p) \<and> EventTypeVersionRefSchema (pv_typeVersion p)
      \<and> uuid_ok (pv_rosterSnapshotId p) \<and> isRosteredPopulation (pv_population p)
      \<and> 0 \<le> pv_recipientCount p \<and> pv_recipientCount p \<le> 1200
      \<and> 0 \<le> pv_partnerRecipientCount p
      \<and> pv_partnerRecipientCount p \<le> PARTNER_AUDIENCE_MAX_RECIPIENTS
      \<and> 2 \<le> length (pv_channels p) \<and> length (pv_channels p) \<le> 3
      \<and> list_all ChannelConsequencePreviewSchema (pv_channels p)
      \<and> length (pv_blockingReasonCodes p) \<le> 20 \<and> list_all reason_code_ok (pv_blockingReasonCodes p)
      \<and> digest_ok (pv_digest p)
      \<and> classification_ok (pv_kind p) (pv_mode p) (Some (pv_population p))
      \<and> \<not> (pv_partnerRecipientCount p > 0
            \<and> \<not> previewReachesPartners (pv_kind p) (pv_mode p) (pv_population p))
      \<and> tv_mode (pv_typeVersion p) = pv_mode p
      \<and> isAtOrAfter (pv_expiresAt p) (pv_createdAt p)
      \<and> \<not> (pv_expiresAt p - pv_createdAt p > ACTIVATION_PREVIEW_MAX_AGE_SECONDS * 1000))"

text \<open>Unique channels, push and email among them, and copy that matches the preview.\<close>

definition preview_channels_ok :: "notification_purpose \<Rightarrow> 'a preview_scheme \<Rightarrow> bool" where
  "preview_channels_ok purpose p =
     (distinct (map cp_channel (pv_channels p))
      \<and> Push \<in> set (map cp_channel (pv_channels p)) \<and> Email \<in> set (map cp_channel (pv_channels p))
      \<and> list_all (\<lambda>c. m_kind (cp_message c) = pv_kind p \<and> m_mode (cp_message c) = pv_mode p
                      \<and> m_purpose (cp_message c) = purpose
                      \<and> \<not> (cp_endpointCount c > pv_recipientCount p * 10)) (pv_channels p))"

definition preview_readiness_ok :: "'a preview_scheme \<Rightarrow> bool" where
  "preview_readiness_ok p =
     (let requiredChannelsHaveEndpoints =
            list_all (\<lambda>c. cp_endpointCount c > 0)
              (filter (\<lambda>c. cp_channel c \<in> set [Push, Email]) (pv_channels p))
      in \<not> (pv_ready p \<and> (pv_recipientCount p = 0 \<or> \<not> requiredChannelsHaveEndpoints))
         \<and> pv_ready p = (pv_blockingReasonCodes p = []))"

definition ActivationPreviewSchema :: "activation_preview \<Rightarrow> bool" where
  "ActivationPreviewSchema p =
     (preview_common_ok p \<and> preview_channels_ok Activation p \<and> preview_readiness_ok p
      \<and> uuid_ok (pv_facilityId p) \<and> pred_option ActivationThreatSchema (pv_threat p)
      \<and> pred_option OperatorDetailSchema (pv_responseDetail p)
      \<and> length (pv_activeEventIds p) \<le> 100 \<and> list_all uuid_ok (pv_activeEventIds p)
      \<and> distinct (pv_activeEventIds p)
      \<and> pv_threat p \<noteq> None)"

definition LifecycleConsequencePreviewSchema :: "lifecycle_preview \<Rightarrow> bool" where
  "LifecycleConsequencePreviewSchema p =
     (preview_common_ok p \<and> preview_channels_ok (pv_purpose p) p \<and> preview_readiness_ok p
      \<and> uuid_ok (pv_eventId p) \<and> pv_purpose p \<noteq> Activation)"

section \<open>Prepared activations\<close>

record prepared_activation =
  pa_id :: uuid
  pa_preview :: activation_preview
  pa_preparedBy :: actor
  pa_preparedAt :: timestamp

definition PreparedActivationSchema :: "prepared_activation \<Rightarrow> bool" where
  "PreparedActivationSchema p =
     (uuid_ok (pa_id p) \<and> ActivationPreviewSchema (pa_preview p) \<and> ActorSchema (pa_preparedBy p)
      \<and> actor_kind (pa_preparedBy p) \<noteq> System
      \<and> pv_population (pa_preview p) = Staff
      \<and> isAtOrAfter (pa_preparedAt p) (pv_createdAt (pa_preview p))
      \<and> isAtOrAfter (pv_expiresAt (pa_preview p)) (pa_preparedAt p))"

record prepared_consumption =
  pc_preparedActivationId :: uuid
  pc_eventId :: uuid
  pc_authorization :: activation_authorization
  pc_requestId :: uuid
  pc_consumedBy :: actor
  pc_consumedAt :: timestamp

definition PreparedActivationConsumptionSchema :: "prepared_consumption \<Rightarrow> bool" where
  "PreparedActivationConsumptionSchema c =
     (uuid_ok (pc_preparedActivationId c) \<and> uuid_ok (pc_eventId c)
      \<and> ActivationAuthorizationSchema (pc_authorization c) \<and> uuid_ok (pc_requestId c)
      \<and> ActorSchema (pc_consumedBy c)
      \<and> actor_kind (pc_consumedBy c) = Human
      \<and> (case pc_authorization c of
           Synthetic_training _ _ _ \<Rightarrow> False
         | Human_confirmed _ q _ _ r \<Rightarrow>
             q = Some (pc_preparedActivationId c) \<and> r = pc_requestId c))"

section \<open>Transitions\<close>

record transition_common =
  tr_id :: uuid
  tr_sequence :: int
  tr_actor :: actor
  tr_source :: invocation_source
  tr_occurredAt :: timestamp
  tr_requestId :: uuid
  tr_confirmationId :: "uuid option"
  tr_digest :: "digest option"
  tr_targeting :: targeting
  tr_idempotencyKey :: string

datatype transition_body =
  Activate uuid activation_authorization
| Clear uuid lifecycle_authorization
| Reactivate uuid lifecycle_authorization
| Close uuid
| Reopen_as_correction uuid uuid string

type_synonym event_transition = "transition_common \<times> transition_body"

fun from_status :: "transition_body \<Rightarrow> event_status" where
  "from_status (Activate _ _) = Draft"
| "from_status (Clear _ _) = Active"
| "from_status (Reactivate _ _) = Cleared"
| "from_status (Close _) = Cleared"
| "from_status (Reopen_as_correction _ _ _) = Closed"

fun to_status :: "transition_body \<Rightarrow> event_status" where
  "to_status (Activate _ _) = Active"
| "to_status (Clear _ _) = Cleared"
| "to_status (Reactivate _ _) = Active"
| "to_status (Close _) = Closed"
| "to_status (Reopen_as_correction _ _ _) = Draft"

definition transition_common_ok :: "transition_common \<Rightarrow> bool" where
  "transition_common_ok c =
     (uuid_ok (tr_id c) \<and> 1 \<le> tr_sequence c \<and> ActorSchema (tr_actor c) \<and> uuid_ok (tr_requestId c)
      \<and> pred_option uuid_ok (tr_confirmationId c) \<and> pred_option digest_ok (tr_digest c)
      \<and> EventTargetingSchema (tr_targeting c)
      \<and> IdempotencyKeySchema (tr_idempotencyKey c) = Some (tr_idempotencyKey c))"

fun transition_body_ok :: "transition_body \<Rightarrow> bool" where
  "transition_body_ok (Activate e a) = (uuid_ok e \<and> ActivationAuthorizationSchema a)"
| "transition_body_ok (Clear e a) = (uuid_ok e \<and> LifecycleActionAuthorizationSchema a)"
| "transition_body_ok (Reactivate e a) = (uuid_ok e \<and> LifecycleActionAuthorizationSchema a)"
| "transition_body_ok (Close e) = uuid_ok e"
| "transition_body_ok (Reopen_as_correction s c r) =
     (uuid_ok s \<and> uuid_ok c \<and> bounded_text 1000 r \<and> s \<noteq> c)"

fun requiresConfirmation :: "transition_body \<Rightarrow> targeting \<Rightarrow> bool" where
  "requiresConfirmation (Clear _ _) t = (t_population t = Staff)"
| "requiresConfirmation (Reactivate _ _) t = (t_population t = Staff)"
| "requiresConfirmation (Activate _ _) t = (t_population t = Staff)"
| "requiresConfirmation (Close _) t = (t_kind t = Incident)"
| "requiresConfirmation (Reopen_as_correction _ _ _) t = False"

fun requiresHumanActor :: "transition_body \<Rightarrow> targeting \<Rightarrow> bool" where
  "requiresHumanActor (Close e) t =
     (requiresConfirmation (Close e) t \<or> t_population t = Staff)"
| "requiresHumanActor b t = requiresConfirmation b t"

definition transition_actor_ok :: "event_transition \<Rightarrow> bool" where
  "transition_actor_ok tr = (case tr of (c, b) \<Rightarrow>
     isActorSourceCompatible (tr_actor c) (tr_source c)
     \<and> \<not> (requiresHumanActor b (tr_targeting c) \<and> actor_kind (tr_actor c) \<noteq> Human)
     \<and> requiresConfirmation b (tr_targeting c) = (tr_confirmationId c \<noteq> None)
     \<and> requiresConfirmation b (tr_targeting c) = (tr_digest c \<noteq> None))"

definition activation_binding_ok :: "transition_common \<Rightarrow> activation_authorization \<Rightarrow> bool" where
  "activation_binding_ok c a =
     (is_human_confirmed a = (t_population (tr_targeting c) = Staff)
      \<and> aa_requestId a = tr_requestId c
      \<and> (case a of
           Human_confirmed _ _ conf d _ \<Rightarrow>
             Some conf = tr_confirmationId c \<and> Some d = tr_digest c
         | Synthetic_training _ _ _ \<Rightarrow> tr_confirmationId c = None \<and> tr_digest c = None))"

definition lifecycle_binding_ok ::
  "transition_common \<Rightarrow> notification_purpose \<Rightarrow> lifecycle_authorization \<Rightarrow> bool" where
  "lifecycle_binding_ok c expectedPurpose a =
     (la_purpose a = expectedPurpose
      \<and> la_transitionId a = tr_id c \<and> la_requestId a = tr_requestId c
      \<and> t_kind (la_targeting a) = t_kind (tr_targeting c)
      \<and> t_mode (la_targeting a) = t_mode (tr_targeting c)
      \<and> t_population (la_targeting a) = t_population (tr_targeting c)
      \<and> (case a of
           Human_lifecycle _ _ _ _ _ conf d _ \<Rightarrow>
             Some conf = tr_confirmationId c \<and> Some d = tr_digest c
         | Synthetic_lifecycle _ _ _ _ _ _ \<Rightarrow> True))"

definition EventTransitionSchema :: "event_transition \<Rightarrow> bool" where
  "EventTransitionSchema tr = (case tr of (c, b) \<Rightarrow>
     transition_common_ok c \<and> transition_body_ok b \<and> transition_actor_ok (c, b)
     \<and> (case b of
          Activate _ a \<Rightarrow> activation_binding_ok c a
        | Clear _ a \<Rightarrow> lifecycle_binding_ok c Clearance a
        | Reactivate _ a \<Rightarrow> lifecycle_binding_ok c Reactivation a
        | Close _ \<Rightarrow> True
        | Reopen_as_correction _ _ _ \<Rightarrow> True))"

definition canActorActivateEvent :: "actor \<Rightarrow> targeting \<Rightarrow> bool" where
  "canActorActivateEvent a t = (t_population t = Synthetic \<or> actor_kind a = Human)"

end
