(* ===== verification/Event_Lifecycle.thy ===== *)
theory Event_Lifecycle
  imports Event_Contracts "HOL-Library.Multiset"
begin

text \<open>
  What the event contracts promise: exact action sets of lifecycle authorizations, visible
  classification of rendered messages, the human confirmation behind every protected
  transition, and the state machine that the transition evidence of one event describes.
\<close>

section \<open>Authorizations and messages\<close>

lemma sort_eq_set: "sort xs = sort ys \<Longrightarrow> set xs = set ys"
  by (metis set_sort)

lemma sort_eq_length: "sort xs = sort ys \<Longrightarrow> length xs = length ys"
  by (metis length_sort)

text \<open>An all-clear or reactivation authorization is
  human-confirmed exactly for staff targeting, and then it binds exactly the protected actions of
  its purpose, the notification send among them: all-clear and send, or start and send for an
  incident, or the send alone for a drill.\<close>

theorem lifecycle_authorization_exact:
  assumes "LifecycleActionAuthorizationSchema a"
  shows "(is_human_lifecycle a \<longleftrightarrow> t_population (la_targeting a) = Staff)
    \<and> la_purpose a \<noteq> Activation
    \<and> (is_human_lifecycle a \<longrightarrow>
         Send_real_notification \<in> set (la_actionIds a)
         \<and> (All_clear \<in> set (la_actionIds a) \<longleftrightarrow> la_purpose a = Clearance)
         \<and> (Start_real_incident \<in> set (la_actionIds a)
              \<longleftrightarrow> la_purpose a = Reactivation \<and> t_kind (la_targeting a) = Incident)
         \<and> Close_real_event \<notin> set (la_actionIds a))"
proof (cases a)
  case (Human_lifecycle p t v i acts c d r)
  with assms have "set acts = set (expectedActionIds p t)"
    by (intro sort_eq_set) (simp add: LifecycleActionAuthorizationSchema_def)
  with Human_lifecycle assms show ?thesis
    by (cases p) (auto simp: LifecycleActionAuthorizationSchema_def expectedActionIds_def)
next
  case (Synthetic_lifecycle p t v i d r)
  with assms show ?thesis by (auto simp: LifecycleActionAuthorizationSchema_def)
qed

lemma startsWith_includes: "startsWith s p \<Longrightarrow> str_includes s p"
  by (cases s) (auto simp: startsWith_def)

lemma consistent_marker:
  assumes "rendered_message_consistent m"
  shows "m_marker m = (if m_kind m = Incident then INCIDENT_marker else DRILL_marker)"
    and "m_mode m = Real_mode \<longleftrightarrow> m_kind m = Incident"
    and "f \<in> set (visibleFields (m_content m)) \<Longrightarrow>
      startsWith f (marker_prefix (m_marker m)) \<and> \<not> str_includes f (marker_prefix (opposite_marker (m_marker m)))"
  using assms by (auto simp: rendered_message_consistent_def Let_def list_all_iff split: if_splits)

text \<open>In every visible field of a rendered message
  the incident marker appears exactly for incidents, at the very beginning, and the drill marker
  exactly for drills and tests, at the very beginning; no field can show both.\<close>

theorem rendered_message_classification_visible:
  assumes "RenderedMessageSchema m" and "f \<in> set (visibleFields (m_content m))"
  shows "(str_includes f ''[INCIDENT]'' \<longleftrightarrow> m_kind m = Incident)
    \<and> (str_includes f ''[DRILL]'' \<longleftrightarrow> m_kind m \<noteq> Incident)
    \<and> (startsWith f ''[INCIDENT]'' \<longleftrightarrow> m_kind m = Incident)
    \<and> (startsWith f ''[DRILL]'' \<longleftrightarrow> m_kind m \<noteq> Incident)"
proof -
  have c: "rendered_message_consistent m" using assms(1) by (simp add: RenderedMessageSchema_def)
  show ?thesis
    using consistent_marker(1) [OF c] consistent_marker(3) [OF c assms(2)] startsWith_includes
    by (cases "m_kind m = Incident") auto
qed

definition sample_drill_sms :: rendered_message where
  "sample_drill_sms = \<lparr>m_kind = Drill, m_mode = Drill_mode, m_purpose = Activation,
     m_marker = DRILL_marker, m_content = Sms_message ''[DRILL] Go''\<rparr>"

lemma sample_drill_sms_ok: "RenderedMessageSchema sample_drill_sms"
  by code_simp

theorem rendered_message_classification_visible_witness:
  "str_includes ''[DRILL] Go'' ''[DRILL]'' \<and> \<not> str_includes ''[DRILL] Go'' ''[INCIDENT]''"
  using rendered_message_classification_visible [OF sample_drill_sms_ok, of "''[DRILL] Go''"]
  unfolding sample_drill_sms_def by simp

section \<open>Protected transitions\<close>

lemma transitionD:
  assumes "EventTransitionSchema (c, b)"
  shows "transition_actor_ok (c, b)" "transition_body_ok b" "transition_common_ok c"
    and "b = Activate e a \<Longrightarrow> activation_binding_ok c a"
    and "b = Clear e l \<Longrightarrow> lifecycle_binding_ok c Clearance l"
    and "b = Reactivate e l \<Longrightarrow> lifecycle_binding_ok c Reactivation l"
  using assms by (auto simp: EventTransitionSchema_def)

text \<open>How a transition carries the confirmation that its authorization names.\<close>

fun authorization_bound :: "transition_common \<Rightarrow> transition_body \<Rightarrow> bool" where
  "authorization_bound c (Activate _ (Human_confirmed _ _ conf d r)) =
     (tr_confirmationId c = Some conf \<and> tr_digest c = Some d \<and> tr_requestId c = r)"
| "authorization_bound c (Clear _ (Human_lifecycle p t _ i acts conf d r)) =
     (tr_confirmationId c = Some conf \<and> tr_digest c = Some d \<and> tr_requestId c = r \<and> tr_id c = i
      \<and> t = tr_targeting c \<and> p = Clearance \<and> mset acts = {#All_clear, Send_real_notification#})"
| "authorization_bound c (Reactivate _ (Human_lifecycle p t _ i acts conf d r)) =
     (tr_confirmationId c = Some conf \<and> tr_digest c = Some d \<and> tr_requestId c = r \<and> tr_id c = i
      \<and> t = tr_targeting c \<and> p = Reactivation
      \<and> mset acts = (if t_kind t = Incident then {#Start_real_incident, Send_real_notification#}
                      else {#Send_real_notification#}))"
| "authorization_bound c (Close _) = True"
| "authorization_bound c _ = False"

lemma staff_activation_bound:
  assumes "activation_binding_ok c a" and "t_population (tr_targeting c) = Staff"
  shows "authorization_bound c (Activate e a)"
  using assms by (cases a) (auto simp: activation_binding_ok_def)

lemma targeting_eqI:
  "t_kind s = t_kind t \<Longrightarrow> t_mode s = t_mode t \<Longrightarrow> t_population s = t_population t
   \<Longrightarrow> s = (t :: targeting)"
  by (cases s; cases t) simp

lemma human_lifecycle_bound:
  assumes "lifecycle_binding_ok c p l" and "LifecycleActionAuthorizationSchema l"
    and "t_population (tr_targeting c) = Staff"
  obtains v i acts conf d where
    "l = Human_lifecycle p (tr_targeting c) v (tr_id c) acts conf d (tr_requestId c)"
    "tr_confirmationId c = Some conf" "tr_digest c = Some d"
    "mset acts = mset (expectedActionIds p (tr_targeting c))"
proof (cases l)
  case (Human_lifecycle q t v i acts conf d r)
  have "t = tr_targeting c"
    using assms(1) Human_lifecycle by (intro targeting_eqI) (auto simp: lifecycle_binding_ok_def)
  moreover have "sort acts = sort (expectedActionIds q t)"
    using assms(2) Human_lifecycle by (simp add: LifecycleActionAuthorizationSchema_def)
  then have "mset acts = mset (expectedActionIds q t)" by (metis mset_sort)
  ultimately show ?thesis
    using assms(1) Human_lifecycle that by (auto simp: lifecycle_binding_ok_def)
next
  case (Synthetic_lifecycle q t v i d r)
  then show ?thesis
    using assms by (simp add: lifecycle_binding_ok_def LifecycleActionAuthorizationSchema_def)
qed

text \<open>C18: a transition that activates, clears or reactivates a
  staff event, or closes an incident, was made by a human from the web or the mobile app, carries
  exactly one confirmation and one consequence digest, and its authorization names the same
  confirmation, digest and request. For all-clear and reactivation it also names the same transition
  and targeting, and exactly the protected actions of the transition, each once: all-clear and
  sending real notifications; for a reactivation, sending real notifications, with starting a real
  incident when the event is an incident.\<close>

theorem protected_transition_confirmed:
  assumes tr: "EventTransitionSchema (c, b)" and req: "requiresConfirmation b (tr_targeting c)"
  shows "actor_kind (tr_actor c) = Human \<and> tr_source c \<in> {Web, Mobile}
    \<and> tr_confirmationId c \<noteq> None \<and> tr_digest c \<noteq> None \<and> authorization_bound c b"
proof -
  have act: "transition_actor_ok (c, b)" using transitionD(1) [OF tr] .
  have "requiresHumanActor b (tr_targeting c)" using req by (cases b) auto
  with act req have h: "actor_kind (tr_actor c) = Human" "tr_confirmationId c \<noteq> None" "tr_digest c \<noteq> None"
    and s: "isActorSourceCompatible (tr_actor c) (tr_source c)"
    by (auto simp: transition_actor_ok_def)
  from s h(1) have src: "tr_source c \<in> {Web, Mobile}"
    by (cases "tr_actor c") (auto simp: human_sources)
  have "authorization_bound c b"
  proof (cases b)
    case (Activate e a)
    then show ?thesis using transitionD(4) [OF tr Activate] req by (simp add: staff_activation_bound)
  next
    case (Clear e l)
    then show ?thesis
      using transitionD(2) [OF tr] transitionD(5) [OF tr Clear] req
      by (auto elim!: human_lifecycle_bound simp: expectedActionIds_def)
  next
    case (Reactivate e l)
    then show ?thesis
      using transitionD(2) [OF tr] transitionD(6) [OF tr Reactivate] req
      by (auto elim!: human_lifecycle_bound simp: expectedActionIds_def)
  next
    case (Close e)
    then show ?thesis by simp
  next
    case (Reopen_as_correction x y z)
    then show ?thesis using req by simp
  qed
  with h src show ?thesis by blast
qed

section \<open>The life of one event\<close>

text \<open>
  The transition evidence of one event, oldest first, read as a run: each transition starts in
  the status the previous one ended in. Reopening as a correction makes another event and
  never appears in the run of its source.
\<close>

fun creates_another :: "transition_body \<Rightarrow> bool" where
  "creates_another (Reopen_as_correction _ _ _) = True"
| "creates_another _ = False"

inductive event_run :: "targeting \<Rightarrow> event_transition list \<Rightarrow> event_status \<Rightarrow> bool"
  for t :: targeting where
  drafted: "event_run t [] Draft"
| transition: "event_run t trs (from_status b) \<Longrightarrow> EventTransitionSchema (c, b) \<Longrightarrow>
    tr_targeting c = t \<Longrightarrow> \<not> creates_another b \<Longrightarrow> event_run t (trs @ [(c, b)]) (to_status b)"

inductive_cases event_run_snocE: "event_run t (trs @ [tr]) s"

fun is_activate :: "transition_body \<Rightarrow> bool" where
  "is_activate (Activate _ _) = True"
| "is_activate _ = False"

fun is_clear :: "transition_body \<Rightarrow> bool" where
  "is_clear (Clear _ _) = True"
| "is_clear _ = False"

fun is_reactivate :: "transition_body \<Rightarrow> bool" where
  "is_reactivate (Reactivate _ _) = True"
| "is_reactivate _ = False"

definition count_steps :: "(transition_body \<Rightarrow> bool) \<Rightarrow> event_transition list \<Rightarrow> nat" where
  "count_steps P trs = length (filter (P \<circ> snd) trs)"

lemma count_steps_simps [simp]:
  "count_steps P [] = 0"
  "count_steps P [(c, b)] = (if P b then 1 else 0)"
  "count_steps P (trs @ [(c, b)]) = count_steps P trs + (if P b then 1 else 0)"
  by (simp_all add: count_steps_def)

text \<open>However an event lives, it was activated exactly once unless it is
  still a draft, and it was cleared as often as it was reactivated, once more when it is cleared
  or closed; so a closed event was cleared and a draft has no history.\<close>

theorem event_run_counts:
  assumes "event_run t trs s"
  shows "count_steps is_activate trs = (if s = Draft then 0 else 1)
    \<and> count_steps is_clear trs
        = count_steps is_reactivate trs + (if s = Cleared \<or> s = Closed then 1 else 0)
    \<and> (s = Draft \<longrightarrow> trs = [])"
  using assms
proof (induction rule: event_run.induct)
  case drafted
  then show ?case by simp
next
  case (transition trs b c)
  then show ?case by (cases b) auto
qed

text \<open>C19: every staff event that left its draft has in its history
  exactly the activation by a human, from the web or the mobile app, whose human-confirmed
  authorization names the confirmation and the digest that the transition carries.\<close>

theorem staff_event_started_by_human:
  assumes "event_run t trs s" and "t_population t = Staff" and "s \<noteq> Draft"
  shows "\<exists>c e p q conf d r. (c, Activate e (Human_confirmed p q conf d r)) \<in> set trs
    \<and> actor_kind (tr_actor c) = Human \<and> tr_source c \<in> {Web, Mobile}
    \<and> tr_confirmationId c = Some conf \<and> tr_digest c = Some d \<and> tr_requestId c = r"
  using assms
proof (induction rule: event_run.induct)
  case drafted
  then show ?case by simp
next
  case (transition trs b c)
  show ?case
  proof (cases b)
    case (Activate e a)
    have req: "requiresConfirmation b (tr_targeting c)" using transition Activate by simp
    have bound: "authorization_bound c (Activate e a)"
      using transitionD(4) [OF transition(2) Activate] transition by (simp add: staff_activation_bound)
    then obtain p q conf d r where a: "a = Human_confirmed p q conf d r" by (cases a) auto
    have "transition_actor_ok (c, b)" using transitionD(1) [OF transition(2)] .
    with req Activate have h: "actor_kind (tr_actor c) = Human"
      and s: "isActorSourceCompatible (tr_actor c) (tr_source c)"
      by (auto simp: transition_actor_ok_def)
    then have "tr_source c \<in> {Web, Mobile}" by (cases "tr_actor c") (auto simp: human_sources)
    with h a Activate bound show ?thesis
      by (intro exI [of _ c] exI [of _ e] exI [of _ p] exI [of _ q] exI [of _ conf] exI [of _ d]
          exI [of _ r]) simp
  qed (use transition in auto)
qed

text \<open>The evidence determines the status, and a closed event is final.\<close>

lemma event_run_last:
  "event_run t trs s \<Longrightarrow> s = (if trs = [] then Draft else to_status (snd (last trs)))"
  by (induction rule: event_run.induct) simp_all

lemma closed_event_final: "event_run t trs Closed \<Longrightarrow> \<not> event_run t (trs @ [tr]) s"
proof
  assume closed: "event_run t trs Closed" and "event_run t (trs @ [tr]) s"
  then obtain b where b: "event_run t trs (from_status b)" "\<not> creates_another b"
    by (auto elim: event_run_snocE)
  have "from_status b = Closed"
    using event_run_last [OF b(1)] event_run_last [OF closed] by simp
  then show False using b(2) by (cases b) auto
qed

section \<open>A sample life\<close>

definition staff_drill :: targeting where
  "staff_drill = \<lparr>t_kind = Drill, t_mode = Drill_mode, t_population = Staff\<rparr>"

definition sample_common :: "actor \<Rightarrow> transition_common" where
  "sample_common a = \<lparr>tr_id = nil_uuid, tr_sequence = 1, tr_actor = a, tr_source = Web,
     tr_occurredAt = 0, tr_requestId = nil_uuid, tr_confirmationId = Some nil_uuid,
     tr_digest = Some zero_digest, tr_targeting = staff_drill, tr_idempotencyKey = sample_key\<rparr>"

definition sample_human :: actor where
  "sample_human = Human_actor nil_uuid nil_uuid"

definition sample_start :: event_transition where
  "sample_start = (sample_common sample_human,
     Activate nil_uuid (Human_confirmed nil_uuid None nil_uuid zero_digest nil_uuid))"

definition sample_clear_authorization :: lifecycle_authorization where
  "sample_clear_authorization = Human_lifecycle Clearance staff_drill nil_uuid nil_uuid
     [Send_real_notification, All_clear] nil_uuid zero_digest nil_uuid"

definition sample_clear :: event_transition where
  "sample_clear = (sample_common sample_human, Clear nil_uuid sample_clear_authorization)"

lemmas sample_defs = sample_start_def sample_clear_def sample_common_def sample_human_def
  sample_clear_authorization_def staff_drill_def

lemma sample_clear_authorization_ok: "LifecycleActionAuthorizationSchema sample_clear_authorization"
  by (simp add: LifecycleActionAuthorizationSchema_def sample_clear_authorization_def
      EventTargetingSchema_def staff_drill_def expectedActionIds_def
      less_eq_human_only_action_def)

lemma sample_transitions_ok:
  "EventTransitionSchema sample_start" "EventTransitionSchema sample_clear"
  using sample_clear_authorization_ok
  by (simp_all add: EventTransitionSchema_def sample_defs transition_common_ok_def
      transition_actor_ok_def human_sources activation_binding_ok_def lifecycle_binding_ok_def
      EventTargetingSchema_def)

lemma sample_run: "event_run staff_drill [sample_start, sample_clear] Cleared"
proof -
  have run0: "event_run staff_drill [] (from_status (snd sample_start))"
    by (simp add: sample_start_def drafted)
  have run1: "event_run staff_drill [sample_start] Active"
    using transition [OF run0, of "fst sample_start"] sample_transitions_ok(1)
    by (simp add: sample_start_def sample_common_def)
  then have "event_run staff_drill [sample_start] (from_status (snd sample_clear))"
    by (simp add: sample_clear_def)
  then show ?thesis
    using transition [of staff_drill "[sample_start]" "snd sample_clear" "fst sample_clear"]
      sample_transitions_ok(2)
    by (simp add: sample_clear_def sample_common_def)
qed

theorem lifecycle_authorization_exact_witness:
  "Send_real_notification \<in> set (la_actionIds sample_clear_authorization)
   \<and> Start_real_incident \<notin> set (la_actionIds sample_clear_authorization)"
  using lifecycle_authorization_exact [OF sample_clear_authorization_ok]
  by (simp add: sample_clear_authorization_def staff_drill_def)

theorem protected_transition_confirmed_witness:
  "tr_source (fst sample_clear) \<in> {Web, Mobile}
   \<and> authorization_bound (fst sample_clear) (snd sample_clear)"
  using protected_transition_confirmed [of "fst sample_clear" "snd sample_clear"] sample_transitions_ok(2)
  by (simp add: sample_clear_def sample_common_def staff_drill_def)

theorem event_run_counts_witness:
  "count_steps is_activate [sample_start, sample_clear] = 1
   \<and> count_steps is_clear [sample_start, sample_clear]
       = count_steps is_reactivate [sample_start, sample_clear] + 1"
  using event_run_counts [OF sample_run] by simp

theorem staff_event_started_by_human_witness:
  "\<exists>c e p q conf d r. (c, Activate e (Human_confirmed p q conf d r)) \<in> set [sample_start, sample_clear]
    \<and> actor_kind (tr_actor c) = Human \<and> tr_source c \<in> {Web, Mobile}
    \<and> tr_confirmationId c = Some conf \<and> tr_digest c = Some d \<and> tr_requestId c = r"
  by (rule staff_event_started_by_human [OF sample_run]) (simp_all add: staff_drill_def)

definition sample_event :: event where
  "sample_event = \<lparr>ev_id = nil_uuid, ev_facilityId = nil_uuid, ev_kind = Drill, ev_mode = Drill_mode,
     ev_typeVersion = \<lparr>tv_id = nil_uuid, tv_mode = Drill_mode\<rparr>, ev_status = Active,
     ev_rosterSnapshotId = Some nil_uuid, ev_population = Some Staff, ev_threat = None,
     ev_responseDetail = None, ev_createdBy = sample_human, ev_createdAt = 10,
     ev_activatedAt = Some 20, ev_allClearAt = Some 30, ev_reactivatedAt = Some 40,
     ev_closedAt = None, ev_correctionOf = None, ev_correctionReason = None,
     ev_authorization = Some (Human_confirmed nil_uuid None nil_uuid zero_digest nil_uuid)\<rparr>"

lemma sample_event_ok: "EventSchema sample_event"
  by (simp add: EventSchema_def sample_event_def event_shape_def EventTypeVersionRefSchema_def
      isRosteredPopulation_def sample_human_def classification_ok_def EventTargetingSchema_def
      event_creator_ok_def event_pins_ok_def event_status_ok_def lifecycleTimes_def isAtOrAfter_def
      event_correction_ok_def)

section \<open>The event view\<close>

lemma eventD:
  assumes "EventSchema e"
  shows "classification_ok (ev_kind e) (ev_mode e) (ev_population e)" "event_creator_ok e"
    "event_pins_ok e" "event_status_ok e" "chronological (ev_createdAt e) (lifecycleTimes e)"
  using assms by (simp_all add: EventSchema_def)

text \<open>C33: an event that is not a draft pins a roster snapshot and a
  population that its kind allows, and its authorization is human-confirmed exactly when it
  targets staff; an incident is always a real-mode staff event that a human created, and a test is
  always synthetic.\<close>

theorem event_view_authorized:
  assumes e: "EventSchema e" and nd: "ev_status e \<noteq> Draft"
  shows "ev_rosterSnapshotId e \<noteq> None \<and> ev_activatedAt e \<noteq> None
    \<and> (\<exists>p a. ev_population e = Some p \<and> ev_authorization e = Some a
         \<and> EventTargetingSchema \<lparr>t_kind = ev_kind e, t_mode = ev_mode e, t_population = p\<rparr>
         \<and> (is_human_confirmed a \<longleftrightarrow> p = Staff)
         \<and> (p = Staff \<longrightarrow> actor_kind (ev_createdBy e) = Human)
         \<and> (ev_kind e = Incident \<longrightarrow> p = Staff \<and> ev_mode e = Real_mode)
         \<and> (ev_kind e = Test_event \<longrightarrow> p = Synthetic))"
proof -
  from eventD(3) [OF e] nd obtain p a where pa: "ev_population e = Some p" "ev_authorization e = Some a"
    and pins: "ev_rosterSnapshotId e \<noteq> None" "ev_activatedAt e \<noteq> None"
    and h: "p = Staff \<Longrightarrow> is_human_confirmed a" "p = Synthetic \<Longrightarrow> \<not> is_human_confirmed a"
    by (auto simp: event_pins_ok_def split: option.splits)
  have t: "EventTargetingSchema \<lparr>t_kind = ev_kind e, t_mode = ev_mode e, t_population = p\<rparr>"
    using eventD(1) [OF e] pa by (simp add: classification_ok_def)
  have "p = Staff \<longrightarrow> actor_kind (ev_createdBy e) = Human"
    using eventD(2) [OF e] nd pa t by (auto simp: event_creator_ok_def EventTargetingSchema_def)
  moreover have "is_human_confirmed a \<longleftrightarrow> p = Staff"
    using h t by (cases p) (auto simp: EventTargetingSchema_def)
  ultimately show ?thesis
    using pa pins t by (auto simp: EventTargetingSchema_def)
qed

theorem event_view_authorized_witness:
  "\<exists>a. ev_authorization sample_event = Some a \<and> is_human_confirmed a"
  using event_view_authorized [OF sample_event_ok] by (simp add: sample_event_def)

end
