(* ===== verification/Notification.thy ===== *)
theory Notification
  imports Event_Lifecycle
begin

text \<open>
  The records of \<open>packages/contracts/src/notification.ts\<close> that cross the worker boundary:
  send intents, outbox messages and records, dispatch batches, channel attempts and the status
  projection. Each repeats the classification of its event; the schemas below are the checks
  that keep the copies consistent.
\<close>

section \<open>Delivery truth\<close>

datatype delivery_state =
  D_accepted | D_recorded | D_attempted | D_provider_accepted | D_delivered | D_failed | D_expired
| D_unknown

datatype subject_kind = Intent_subject | Attempt_subject

definition TERMINAL_DELIVERY_TRUTH_STATES :: "delivery_state list" where
  "TERMINAL_DELIVERY_TRUTH_STATES = [D_delivered, D_failed, D_expired]"

definition isTerminalDeliveryTruthState :: "delivery_state \<Rightarrow> bool" where
  "isTerminalDeliveryTruthState s = (s \<in> set TERMINAL_DELIVERY_TRUTH_STATES)"

definition AttemptDeliveryTruthStates :: "delivery_state list" where
  "AttemptDeliveryTruthStates =
     [D_attempted, D_provider_accepted, D_delivered, D_failed, D_expired, D_unknown]"

definition allowedDeliveryTransitions :: "(subject_kind \<times> delivery_state \<times> delivery_state) list" where
  "allowedDeliveryTransitions =
     [(Intent_subject, D_accepted, D_recorded),
      (Attempt_subject, D_attempted, D_provider_accepted),
      (Attempt_subject, D_attempted, D_delivered),
      (Attempt_subject, D_attempted, D_failed),
      (Attempt_subject, D_attempted, D_expired),
      (Attempt_subject, D_attempted, D_unknown),
      (Attempt_subject, D_provider_accepted, D_delivered),
      (Attempt_subject, D_provider_accepted, D_failed),
      (Attempt_subject, D_provider_accepted, D_expired),
      (Attempt_subject, D_provider_accepted, D_unknown),
      (Attempt_subject, D_unknown, D_provider_accepted),
      (Attempt_subject, D_unknown, D_delivered),
      (Attempt_subject, D_unknown, D_failed),
      (Attempt_subject, D_expired, D_delivered)]"

definition DeliveryTruthTransitionSchema ::
  "subject_kind \<Rightarrow> delivery_state \<Rightarrow> delivery_state \<Rightarrow> bool" where
  "DeliveryTruthTransitionSchema k s s' = ((k, s, s') \<in> set allowedDeliveryTransitions)"

section \<open>Authorization of a send\<close>

datatype notification_authorization =
  For_activation activation_authorization | For_lifecycle lifecycle_authorization

fun auth_requestId :: "notification_authorization \<Rightarrow> uuid" where
  "auth_requestId (For_activation a) = aa_requestId a"
| "auth_requestId (For_lifecycle l) = la_requestId l"

fun NotificationAuthorizationSchema :: "notification_authorization \<Rightarrow> bool" where
  "NotificationAuthorizationSchema (For_activation a) = ActivationAuthorizationSchema a"
| "NotificationAuthorizationSchema (For_lifecycle l) = LifecycleActionAuthorizationSchema l"

text \<open>The classification that every notification record repeats.\<close>

record notification =
  n_eventId :: uuid
  n_kind :: event_kind
  n_mode :: template_mode
  n_purpose :: notification_purpose
  n_typeVersion :: type_version_ref
  n_rosterSnapshotId :: uuid
  n_population :: roster_population

record authorized_notification = notification +
  n_requestId :: uuid
  n_authorization :: notification_authorization

definition n_targeting :: "'a notification_scheme \<Rightarrow> targeting" where
  "n_targeting n = \<lparr>t_kind = n_kind n, t_mode = n_mode n, t_population = n_population n\<rparr>"

text \<open>\<open>addNotificationTargetingIssues\<close> adds no issue.\<close>

definition notification_targeting_ok :: "'a notification_scheme \<Rightarrow> bool" where
  "notification_targeting_ok n = NotificationTargetingSchema (n_targeting n)"

text \<open>The field formats and the version check that the record schemas repeat.\<close>

definition notification_shape :: "'a notification_scheme \<Rightarrow> bool" where
  "notification_shape n =
     (uuid_ok (n_eventId n) \<and> EventTypeVersionRefSchema (n_typeVersion n)
      \<and> uuid_ok (n_rosterSnapshotId n) \<and> tv_mode (n_typeVersion n) = n_mode n)"

definition authorized_shape :: "'a authorized_notification_scheme \<Rightarrow> bool" where
  "authorized_shape n =
     (notification_shape n \<and> uuid_ok (n_requestId n)
      \<and> NotificationAuthorizationSchema (n_authorization n))"

text \<open>\<open>addChannelPlanIssues\<close> adds no issue.\<close>

definition channel_plan_ok :: "'a notification_scheme \<Rightarrow> channel_preview list \<Rightarrow> bool" where
  "channel_plan_ok n channels =
     (distinct (map cp_channel channels)
      \<and> Push \<in> set (map cp_channel channels) \<and> Email \<in> set (map cp_channel channels)
      \<and> list_all (\<lambda>c. m_kind (cp_message c) = n_kind n \<and> m_mode (cp_message c) = n_mode n
                     \<and> m_purpose (cp_message c) = n_purpose n) channels)"

definition NotificationChannelPlanSchema :: "channel_preview list \<Rightarrow> bool" where
  "NotificationChannelPlanSchema cs =
     (2 \<le> length cs \<and> length cs \<le> 3 \<and> list_all ChannelConsequencePreviewSchema cs)"

text \<open>\<open>addNotificationAuthorizationIssues\<close> adds no issue.\<close>

definition notification_authorization_ok :: "'a authorized_notification_scheme \<Rightarrow> bool" where
  "notification_authorization_ok n =
     (auth_requestId (n_authorization n) = n_requestId n
      \<and> (if n_purpose n = Activation
         then (case n_authorization n of
                 For_activation a \<Rightarrow> is_human_confirmed a = (n_population n \<noteq> Synthetic)
               | For_lifecycle _ \<Rightarrow> False)
         else (case n_authorization n of
                 For_activation _ \<Rightarrow> False
               | For_lifecycle l \<Rightarrow>
                   is_human_lifecycle l = (n_population n \<noteq> Synthetic)
                   \<and> la_purpose l = n_purpose n
                   \<and> t_kind (la_targeting l) = n_kind n
                   \<and> t_mode (la_targeting l) = n_mode n
                   \<and> t_population (la_targeting l)
                       = eventPopulationForNotification (n_population n))))"

section \<open>Intents, outbox messages, batches, attempts\<close>

record intent = authorized_notification +
  in_id :: uuid
  in_createdBy :: actor
  in_source :: invocation_source
  in_channels :: "channel_preview list"
  in_createdAt :: timestamp

definition NotificationIntentSchema :: "intent \<Rightarrow> bool" where
  "NotificationIntentSchema i =
     (authorized_shape i \<and> uuid_ok (in_id i) \<and> ActorSchema (in_createdBy i)
      \<and> NotificationChannelPlanSchema (in_channels i)
      \<and> notification_targeting_ok i \<and> channel_plan_ok i (in_channels i)
      \<and> notification_authorization_ok i
      \<and> \<not> (n_population i \<noteq> Synthetic \<and> actor_kind (in_createdBy i) \<noteq> Human)
      \<and> isActorSourceCompatible (in_createdBy i) (in_source i))"

text \<open>An outbox message of version 1 has no facility.\<close>

record outbox_message = authorized_notification +
  om_outboxId :: uuid
  om_intentId :: uuid
  om_facilityId :: "uuid option"
  om_channels :: "channel_preview list"
  om_createdAt :: timestamp

definition NotificationOutboxMessageSchema :: "outbox_message \<Rightarrow> bool" where
  "NotificationOutboxMessageSchema m =
     (authorized_shape m \<and> uuid_ok (om_outboxId m) \<and> uuid_ok (om_intentId m)
      \<and> pred_option uuid_ok (om_facilityId m) \<and> NotificationChannelPlanSchema (om_channels m)
      \<and> notification_targeting_ok m \<and> channel_plan_ok m (om_channels m)
      \<and> notification_authorization_ok m)"

datatype outbox_status = Outbox_pending | Outbox_processing | Outbox_published | Outbox_failed

record outbox_record =
  or_id :: uuid
  or_message :: outbox_message
  or_status :: outbox_status
  or_attempts :: int
  or_availableAt :: timestamp
  or_lockedUntil :: "timestamp option"
  or_publishedAt :: "timestamp option"
  or_failedAt :: "timestamp option"
  or_lastErrorCode :: "string option"

definition OutboxRecordSchema :: "outbox_record \<Rightarrow> bool" where
  "OutboxRecordSchema r =
     (uuid_ok (or_id r) \<and> NotificationOutboxMessageSchema (or_message r)
      \<and> 0 \<le> or_attempts r \<and> or_attempts r \<le> 100
      \<and> pred_option reason_code_ok (or_lastErrorCode r)
      \<and> or_id r = om_outboxId (or_message r)
      \<and> (or_status r = Outbox_processing \<longrightarrow> or_lockedUntil r \<noteq> None)
      \<and> (or_status r \<noteq> Outbox_processing \<longrightarrow> or_lockedUntil r = None)
      \<and> (or_status r = Outbox_published) = (or_publishedAt r \<noteq> None)
      \<and> (or_status r = Outbox_failed) = (or_failedAt r \<noteq> None)
      \<and> (or_status r = Outbox_failed \<longrightarrow> or_lastErrorCode r \<noteq> None)
      \<and> list_all (\<lambda>t. isAtOrAfter t (om_createdAt (or_message r)))
          (or_availableAt r # map the (filter (\<lambda>t. t \<noteq> None)
             [or_lockedUntil r, or_publishedAt r, or_failedAt r])))"

record dispatch_batch = authorized_notification +
  b_id :: uuid
  b_intentId :: uuid
  b_facilityId :: uuid
  b_channel :: channel
  b_message :: rendered_message
  b_integrationId :: string
  b_sequence :: int
  b_endpointCount :: int
  b_createdAt :: timestamp

definition DispatchBatchSchema :: "dispatch_batch \<Rightarrow> bool" where
  "DispatchBatchSchema b =
     (authorized_shape b \<and> uuid_ok (b_id b) \<and> uuid_ok (b_intentId b) \<and> uuid_ok (b_facilityId b)
      \<and> RenderedMessageSchema (b_message b) \<and> IntegrationIdSchema (b_integrationId b)
      \<and> 1 \<le> b_sequence b \<and> 0 \<le> b_endpointCount b \<and> b_endpointCount b \<le> 12000
      \<and> notification_targeting_ok b \<and> notification_authorization_ok b
      \<and> content_channel (m_content (b_message b)) = b_channel b
      \<and> m_kind (b_message b) = n_kind b \<and> m_mode (b_message b) = n_mode b
      \<and> m_purpose (b_message b) = n_purpose b
      \<and> ChannelConsequencePreviewSchema
          \<lparr>cp_channel = b_channel b, cp_endpointCount = b_endpointCount b,
           cp_message = b_message b, cp_integrationId = b_integrationId b\<rparr>)"

definition isRosteredDispatchBatch :: "dispatch_batch \<Rightarrow> bool" where
  "isRosteredDispatchBatch b = isRosteredPopulation (n_population b)"

record channel_attempt = notification +
  a_id :: uuid
  a_batchId :: uuid
  a_intentId :: uuid
  a_recipientId :: uuid
  a_endpointId :: uuid
  a_channel :: channel
  a_attemptNumber :: int
  a_attemptedAt :: timestamp

definition ChannelAttemptSchema :: "channel_attempt \<Rightarrow> bool" where
  "ChannelAttemptSchema a =
     (notification_shape a \<and> uuid_ok (a_id a) \<and> uuid_ok (a_batchId a) \<and> uuid_ok (a_intentId a)
      \<and> uuid_ok (a_recipientId a) \<and> uuid_ok (a_endpointId a) \<and> 1 \<le> a_attemptNumber a
      \<and> notification_targeting_ok a)"

section \<open>The status projection\<close>

record state_count =
  sc_state :: delivery_state
  sc_count :: int

record notification_status =
  ns_intent :: intent
  ns_batches :: "dispatch_batch list"
  ns_stateCounts :: "state_count list"
  ns_generatedAt :: timestamp

fun find_channel :: "channel \<Rightarrow> channel_preview list \<Rightarrow> (nat \<times> channel_preview) option" where
  "find_channel c [] = None"
| "find_channel c (p # ps) =
     (if cp_channel p = c then Some (0, p)
      else map_option (\<lambda>(i, q). (Suc i, q)) (find_channel c ps))"

text \<open>
  The refinement's comparison of one batch with the intent. \<open>JSON.stringify\<close> of two parsed
  values is compared as equality of the values.
\<close>

definition batch_preserves_intent :: "intent \<Rightarrow> dispatch_batch \<Rightarrow> bool" where
  "batch_preserves_intent i b =
     (b_intentId b = in_id i \<and> n_eventId b = n_eventId i \<and> n_kind b = n_kind i
      \<and> n_mode b = n_mode i \<and> n_purpose b = n_purpose i
      \<and> tv_id (n_typeVersion b) = tv_id (n_typeVersion i)
      \<and> tv_mode (n_typeVersion b) = tv_mode (n_typeVersion i)
      \<and> n_rosterSnapshotId b = n_rosterSnapshotId i \<and> n_population b = n_population i
      \<and> n_requestId b = n_requestId i \<and> n_authorization b = n_authorization i
      \<and> (case find_channel (b_channel b) (in_channels i) of
           None \<Rightarrow> False
         | Some (k, p) \<Rightarrow>
             b_sequence b = int k + 1 \<and> b_endpointCount b = cp_endpointCount p
             \<and> b_message b = cp_message p \<and> b_integrationId b = cp_integrationId p)
      \<and> isAtOrAfter (b_createdAt b) (in_createdAt i))"

definition NotificationStatusSchema :: "notification_status \<Rightarrow> bool" where
  "NotificationStatusSchema s =
     (NotificationIntentSchema (ns_intent s)
      \<and> length (ns_batches s) \<le> 3 \<and> list_all DispatchBatchSchema (ns_batches s)
      \<and> length (ns_stateCounts s) \<le> 8
      \<and> list_all (\<lambda>c. sc_state c \<in> set AttemptDeliveryTruthStates \<and> 0 \<le> sc_count c \<and> sc_count c \<le> 12000) (ns_stateCounts s)
      \<and> distinct (map sc_state (ns_stateCounts s))
      \<and> sum_list (map sc_count (ns_stateCounts s))
          \<le> sum_list (map cp_endpointCount (in_channels (ns_intent s)))
      \<and> distinct (map b_channel (ns_batches s))
      \<and> list_all (batch_preserves_intent (ns_intent s)) (ns_batches s))"

section \<open>What the records promise\<close>

text \<open>The human authorization that a send to people carries, and what it names.\<close>

fun human_authorized :: "notification_purpose \<Rightarrow> uuid \<Rightarrow> notification_authorization \<Rightarrow> bool" where
  "human_authorized p r (For_activation (Human_confirmed _ _ _ _ q)) = (p = Activation \<and> q = r)"
| "human_authorized p r (For_lifecycle (Human_lifecycle u t _ _ acts _ _ q)) =
     (p = u \<and> p \<noteq> Activation \<and> q = r \<and> t_population t = Staff \<and> Send_real_notification \<in> set acts)"
| "human_authorized p r _ = False"

lemma send_to_people_authorized:
  assumes auth: "notification_authorization_ok n"
    and shape: "NotificationAuthorizationSchema (n_authorization n)"
    and pop: "n_population n \<noteq> Synthetic"
  shows "human_authorized (n_purpose n) (n_requestId n) (n_authorization n)"
proof (cases "n_authorization n")
  case (For_activation a)
  then show ?thesis
    using auth pop by (cases a) (auto simp: notification_authorization_ok_def split: if_splits)
next
  case (For_lifecycle l)
  then obtain p t v i acts c d r where l: "l = Human_lifecycle p t v i acts c d r"
    using auth pop by (cases l) (auto simp: notification_authorization_ok_def split: if_splits)
  have "set acts = set (expectedActionIds p t)"
    using shape For_lifecycle l
    by (intro sort_eq_set) (simp add: LifecycleActionAuthorizationSchema_def)
  then have "Send_real_notification \<in> set acts" by (auto simp: expectedActionIds_def)
  moreover have "eventPopulationForNotification (n_population n) = Staff"
    using pop by (cases "n_population n") (auto simp: eventPopulationForNotification_def)
  ultimately show ?thesis
    using auth For_lifecycle l by (auto simp: notification_authorization_ok_def split: if_splits)
qed

text \<open>C21: an intent whose population is not synthetic, partners
  included, was created by a human from the web or the mobile app and carries a human-confirmed
  authorization for its own purpose and request; when it reaches partners it belongs to a real
  incident. A synthetic intent is never real.\<close>

theorem people_are_notified_by_humans:
  assumes "NotificationIntentSchema i"
  shows "(n_population i \<noteq> Synthetic \<longrightarrow>
      actor_kind (in_createdBy i) = Human \<and> in_source i \<in> {Web, Mobile}
      \<and> human_authorized (n_purpose i) (n_requestId i) (n_authorization i))
    \<and> (n_population i = Partner \<longrightarrow> n_kind i = Incident \<and> n_mode i = Real_mode)
    \<and> (n_population i = Synthetic \<longrightarrow> n_kind i \<noteq> Incident \<and> n_mode i = Drill_mode)"
proof -
  have parts: "notification_targeting_ok i" "notification_authorization_ok i" "authorized_shape i"
    "n_population i \<noteq> Synthetic \<longrightarrow> actor_kind (in_createdBy i) = Human"
    "isActorSourceCompatible (in_createdBy i) (in_source i)"
    using assms by (auto simp: NotificationIntentSchema_def)
  have src: "actor_kind (in_createdBy i) = Human \<longrightarrow> in_source i \<in> {Web, Mobile}"
    using parts(5) by (cases "in_createdBy i") (auto simp: human_sources)
  have tgt: "(n_population i = Partner \<longrightarrow> n_kind i = Incident \<and> n_mode i = Real_mode)
      \<and> (n_population i = Synthetic \<longrightarrow> n_kind i \<noteq> Incident \<and> n_mode i = Drill_mode)"
    using parts(1)
    by (auto simp: notification_targeting_ok_def NotificationTargetingSchema_def
        EventTargetingSchema_def n_targeting_def)
  have "n_population i \<noteq> Synthetic \<longrightarrow>
      human_authorized (n_purpose i) (n_requestId i) (n_authorization i)"
    using parts(2,3) by (simp add: send_to_people_authorized authorized_shape_def)
  with parts(4) src tgt show ?thesis by blast
qed

lemma find_channel_nth:
  "find_channel c ps = Some (k, p) \<Longrightarrow> k < length ps \<and> ps ! k = p \<and> cp_channel p = c"
  by (induction ps arbitrary: k) (auto split: if_splits)

text \<open>In a status projection every batch is the planned channel of
  its intent, under the same human or synthetic authorization: its message, integration and
  endpoint count are those of the plan row at its sequence number, and no channel has two batches,
  so the batches never promise more endpoints than the plan.\<close>

theorem status_projection_faithful:
  assumes s: "NotificationStatusSchema s" and b: "b \<in> set (ns_batches s)"
  shows "\<exists>k < length (in_channels (ns_intent s)).
      b_sequence b = int k + 1
      \<and> in_channels (ns_intent s) ! k = \<lparr>cp_channel = b_channel b, cp_endpointCount = b_endpointCount b,
            cp_message = b_message b, cp_integrationId = b_integrationId b\<rparr>
      \<and> n_authorization b = n_authorization (ns_intent s)
      \<and> n_targeting b = n_targeting (ns_intent s)
      \<and> (\<forall>c \<in> set (ns_batches s). b_sequence c = b_sequence b \<longrightarrow> c = b)"
proof -
  let ?i = "ns_intent s"
  have pres: "batch_preserves_intent ?i c" if "c \<in> set (ns_batches s)" for c
    using s that by (auto simp: NotificationStatusSchema_def list_all_iff)
  have row: "\<exists>k < length (in_channels ?i). b_sequence c = int k + 1
      \<and> in_channels ?i ! k = \<lparr>cp_channel = b_channel c, cp_endpointCount = b_endpointCount c,
          cp_message = b_message c, cp_integrationId = b_integrationId c\<rparr>"
    if c: "c \<in> set (ns_batches s)" for c
  proof -
    obtain k p where kp: "find_channel (b_channel c) (in_channels ?i) = Some (k, p)"
      and eqs: "b_sequence c = int k + 1" "b_endpointCount c = cp_endpointCount p"
        "b_message c = cp_message p" "b_integrationId c = cp_integrationId p"
      using pres [OF c] by (auto simp: batch_preserves_intent_def split: option.splits)
    from find_channel_nth [OF kp] eqs show ?thesis
      by (intro exI [of _ k]) (cases p, simp)
  qed
  obtain k where k: "k < length (in_channels ?i)" "b_sequence b = int k + 1"
    "in_channels ?i ! k = \<lparr>cp_channel = b_channel b, cp_endpointCount = b_endpointCount b,
       cp_message = b_message b, cp_integrationId = b_integrationId b\<rparr>"
    using row [OF b] by blast
  have same: "\<forall>c \<in> set (ns_batches s). b_sequence c = b_sequence b \<longrightarrow> c = b"
  proof (intro ballI impI)
    fix c
    assume c: "c \<in> set (ns_batches s)" and sq: "b_sequence c = b_sequence b"
    obtain j where "j < length (in_channels ?i)" "b_sequence c = int j + 1"
      "in_channels ?i ! j = \<lparr>cp_channel = b_channel c, cp_endpointCount = b_endpointCount c,
         cp_message = b_message c, cp_integrationId = b_integrationId c\<rparr>"
      using row [OF c] by blast
    with k sq have ch: "b_channel c = b_channel b" by simp
    have "distinct (map b_channel (ns_batches s))"
      using s by (simp add: NotificationStatusSchema_def)
    with ch b c show "c = b" by (simp add: distinct_map inj_on_def)
  qed
  have "n_authorization b = n_authorization ?i" "n_targeting b = n_targeting ?i"
    using pres [OF b] by (simp_all add: batch_preserves_intent_def n_targeting_def)
  with k same show ?thesis by blast
qed

text \<open>A batch hands its channel's message to an integration
  of that channel, the message shows the incident marker exactly for incidents, and a batch for a
  synthetic population shows the drill marker.\<close>

theorem batch_message_matches_population:
  assumes "DispatchBatchSchema b"
  shows "content_channel (m_content (b_message b)) = b_channel b
    \<and> b_integrationId b \<in> set (integrationsByChannel (b_channel b))
    \<and> m_marker (b_message b) = (if n_kind b = Incident then INCIDENT_marker else DRILL_marker)
    \<and> (n_population b \<noteq> Synthetic \<longrightarrow> human_authorized (n_purpose b) (n_requestId b) (n_authorization b))
    \<and> (n_population b = Synthetic \<longrightarrow> m_marker (b_message b) = DRILL_marker)
    \<and> (n_population b = Partner \<longrightarrow> m_marker (b_message b) = INCIDENT_marker)"
proof -
  have p: "rendered_message_consistent (b_message b)" "m_kind (b_message b) = n_kind b"
    "content_channel (m_content (b_message b)) = b_channel b"
    "b_integrationId b \<in> set (integrationsByChannel (b_channel b))"
    "notification_targeting_ok b" "notification_authorization_ok b"
    "NotificationAuthorizationSchema (n_authorization b)"
    using assms by (auto simp: DispatchBatchSchema_def RenderedMessageSchema_def
        ChannelConsequencePreviewSchema_def authorized_shape_def)
  have m: "m_marker (b_message b) = (if n_kind b = Incident then INCIDENT_marker else DRILL_marker)"
    using consistent_marker(1) [OF p(1)] p(2) by simp
  have k: "n_population b = Synthetic \<longrightarrow> n_kind b \<noteq> Incident" "n_population b = Partner \<longrightarrow> n_kind b = Incident"
    using p(5) by (auto simp: notification_targeting_ok_def NotificationTargetingSchema_def
        EventTargetingSchema_def n_targeting_def)
  show ?thesis using p m k send_to_people_authorized by auto
qed

section \<open>A sample send\<close>

definition sample_message :: "message_content \<Rightarrow> rendered_message" where
  "sample_message c = \<lparr>m_kind = Drill, m_mode = Drill_mode, m_purpose = Activation,
     m_marker = DRILL_marker, m_content = c\<rparr>"

definition sample_push :: channel_preview where
  "sample_push = \<lparr>cp_channel = Push, cp_endpointCount = 3,
     cp_message = sample_message (Push_message ''[DRILL] A'' ''[DRILL] B''), cp_integrationId = ''mobile-push''\<rparr>"

definition sample_email :: channel_preview where
  "sample_email = \<lparr>cp_channel = Email, cp_endpointCount = 2,
     cp_message = sample_message (Email_message ''[DRILL] A'' ''[DRILL] B''), cp_integrationId = ''ses-email''\<rparr>"

lemma sample_previews_ok:
  "ChannelConsequencePreviewSchema sample_push" "ChannelConsequencePreviewSchema sample_email"
  by code_simp+

definition sample_intent :: intent where
  "sample_intent = \<lparr>n_eventId = nil_uuid, n_kind = Drill, n_mode = Drill_mode, n_purpose = Activation,
     n_typeVersion = \<lparr>tv_id = nil_uuid, tv_mode = Drill_mode\<rparr>, n_rosterSnapshotId = nil_uuid,
     n_population = Staff, n_requestId = nil_uuid,
     n_authorization = For_activation (Human_confirmed nil_uuid None nil_uuid zero_digest nil_uuid),
     in_id = nil_uuid, in_createdBy = sample_human, in_source = Web,
     in_channels = [sample_push, sample_email], in_createdAt = 0\<rparr>"

definition sample_batch :: dispatch_batch where
  "sample_batch = \<lparr>n_eventId = nil_uuid, n_kind = Drill, n_mode = Drill_mode, n_purpose = Activation,
     n_typeVersion = \<lparr>tv_id = nil_uuid, tv_mode = Drill_mode\<rparr>, n_rosterSnapshotId = nil_uuid,
     n_population = Staff, n_requestId = nil_uuid,
     n_authorization = For_activation (Human_confirmed nil_uuid None nil_uuid zero_digest nil_uuid),
     b_id = nil_uuid, b_intentId = nil_uuid, b_facilityId = nil_uuid, b_channel = Email,
     b_message = cp_message sample_email, b_integrationId = ''ses-email'', b_sequence = 2,
     b_endpointCount = 2, b_createdAt = 5\<rparr>"

lemmas notification_simps = authorized_shape_def notification_shape_def EventTypeVersionRefSchema_def
  notification_targeting_ok_def NotificationTargetingSchema_def EventTargetingSchema_def
  n_targeting_def notification_authorization_ok_def

lemma sample_intent_ok: "NotificationIntentSchema sample_intent"
  unfolding NotificationIntentSchema_def NotificationChannelPlanSchema_def channel_plan_ok_def
  using sample_previews_ok
  by (simp add: sample_intent_def notification_simps sample_human_def human_sources)
     (simp add: sample_push_def sample_email_def sample_message_def)

lemma sample_batch_ok: "DispatchBatchSchema sample_batch"
proof -
  have row: "\<lparr>cp_channel = b_channel sample_batch, cp_endpointCount = b_endpointCount sample_batch,
      cp_message = b_message sample_batch, cp_integrationId = b_integrationId sample_batch\<rparr> = sample_email"
    by (simp add: sample_batch_def sample_email_def)
  have "RenderedMessageSchema (b_message sample_batch)" "IntegrationIdSchema (b_integrationId sample_batch)"
    using sample_previews_ok(2) by (simp_all add: ChannelConsequencePreviewSchema_def sample_batch_def sample_email_def)
  then show ?thesis
    using sample_previews_ok(2) unfolding DispatchBatchSchema_def row
    by (simp add: sample_batch_def notification_simps)
       (simp add: sample_email_def sample_message_def)
qed

definition sample_status :: notification_status where
  "sample_status = \<lparr>ns_intent = sample_intent, ns_batches = [sample_batch],
     ns_stateCounts = [\<lparr>sc_state = D_attempted, sc_count = 4\<rparr>], ns_generatedAt = 9\<rparr>"

lemma sample_status_ok: "NotificationStatusSchema sample_status"
proof -
  have "batch_preserves_intent sample_intent sample_batch"
    by (simp add: batch_preserves_intent_def sample_intent_def sample_batch_def isAtOrAfter_def)
       (simp add: sample_push_def sample_email_def)
  moreover have "sum_list (map cp_endpointCount (in_channels sample_intent)) = 5"
    by (simp add: sample_intent_def sample_push_def sample_email_def)
  ultimately show ?thesis
    using sample_intent_ok sample_batch_ok
    by (simp add: NotificationStatusSchema_def sample_status_def AttemptDeliveryTruthStates_def)
qed

theorem people_are_notified_by_humans_witness:
  "n_population sample_intent = Staff
   \<and> human_authorized Activation nil_uuid (n_authorization sample_intent)"
  using people_are_notified_by_humans [OF sample_intent_ok] by (simp add: sample_intent_def)

theorem status_projection_faithful_witness:
  "\<exists>k < 2. b_sequence sample_batch = int k + 1
    \<and> cp_message (in_channels sample_intent ! k) = b_message sample_batch"
  using status_projection_faithful [OF sample_status_ok, of sample_batch]
  by (auto simp: sample_status_def sample_intent_def)

theorem batch_message_matches_population_witness:
  "m_marker (b_message sample_batch) = DRILL_marker
   \<and> b_integrationId sample_batch \<in> set (integrationsByChannel Email)"
  using batch_message_matches_population [OF sample_batch_ok] by (simp add: sample_batch_def)

end
