(* ===== verification/Delivery_Evidence.thy ===== *)
theory Delivery_Evidence
  imports Notification "HOL-Library.List_Lexorder" "HOL-Library.Char_ord"
begin

text \<open>
  Append-only delivery evidence: the schemas of \<open>packages/contracts/src/notification.ts\<close>, the
  store behind \<open>packages/server/app/api/internal/delivery-state/runtime.ts\<close> and the reconciler of
  \<open>packages/server/lib/notify/reconcile.ts\<close>. The tables are lists of rows; the random UUIDs and
  the readings of the database clock are sequences with the number of elements drawn so far. A
  timestamp is the instant that its canonical ISO text denotes.
\<close>

section \<open>Facts\<close>

datatype delivery_subject = Intent_of uuid | Attempt_of uuid

fun subject_kind :: "delivery_subject \<Rightarrow> subject_kind" where
  "subject_kind (Intent_of _) = Intent_subject"
| "subject_kind (Attempt_of _) = Attempt_subject"

fun subject_id :: "delivery_subject \<Rightarrow> uuid" where
  "subject_id (Intent_of i) = i"
| "subject_id (Attempt_of a) = a"

record delivery_proof =
  dp_provider :: string
  dp_receiptId :: string
  dp_deliveredAt :: timestamp

definition DeliveryProofSchema :: "delivery_proof \<Rightarrow> bool" where
  "DeliveryProofSchema p = (bounded_text 100 (dp_provider p) \<and> bounded_text 500 (dp_receiptId p))"

text \<open>What a writer submits, and what the store adds to it.\<close>

record evidence_fact =
  de_subject :: delivery_subject
  de_state :: delivery_state
  de_provider :: "string option"
  de_reference :: "string option"
  de_occurredAt :: "timestamp option"
  de_proof :: "delivery_proof option"
  de_reason :: "string option"
  de_digest :: "digest option"

record delivery_evidence = evidence_fact +
  de_id :: uuid
  de_sequence :: int
  de_previous :: "uuid option"
  de_recordedAt :: timestamp

definition evidence_shape :: "'a evidence_fact_scheme \<Rightarrow> bool" where
  "evidence_shape e =
     (uuid_ok (subject_id (de_subject e))
      \<and> pred_option (bounded_text 100) (de_provider e)
      \<and> pred_option (bounded_text 500) (de_reference e)
      \<and> pred_option DeliveryProofSchema (de_proof e)
      \<and> pred_option reason_code_ok (de_reason e)
      \<and> pred_option digest_ok (de_digest e))"

definition apns_unregistered :: "'a evidence_fact_scheme \<Rightarrow> bool" where
  "apns_unregistered e =
     (de_state e = D_failed \<and> de_provider e = Some ''apns-direct''
      \<and> de_reason e = Some ''APNS_UNREGISTERED'')"

definition RecordDeliveryEvidenceInputSchema :: "evidence_fact \<Rightarrow> bool" where
  "RecordDeliveryEvidenceInputSchema e =
     (evidence_shape e
      \<and> (de_state e \<in> set [D_accepted, D_recorded]) = (subject_kind (de_subject e) = Intent_subject)
      \<and> (de_state e = D_delivered) = (de_proof e \<noteq> None)
      \<and> (de_state e \<in> set [D_provider_accepted, D_delivered] \<longrightarrow>
           de_provider e \<noteq> None \<and> de_reference e \<noteq> None)
      \<and> (case de_proof e of None \<Rightarrow> True | Some p \<Rightarrow> Some (dp_provider p) = de_provider e)
      \<and> (de_state e \<in> set [D_failed, D_expired, D_unknown]) = (de_reason e \<noteq> None)
      \<and> (de_digest e \<noteq> None \<longrightarrow> de_reason e \<noteq> None)
      \<and> (de_reason e = Some ''APNS_UNREGISTERED'') = apns_unregistered e
      \<and> apns_unregistered e = (de_occurredAt e \<noteq> None))"

definition DeliveryEvidenceSchema :: "delivery_evidence \<Rightarrow> bool" where
  "DeliveryEvidenceSchema e =
     (uuid_ok (de_id e) \<and> evidence_shape e \<and> 1 \<le> de_sequence e \<and> pred_option uuid_ok (de_previous e)
      \<and> (de_sequence e = 1) = (de_previous e = None)
      \<and> de_previous e \<noteq> Some (de_id e)
      \<and> (de_state e \<in> set [D_accepted, D_recorded]) = (subject_kind (de_subject e) = Intent_subject)
      \<and> \<not> (de_state e = D_delivered \<and> de_proof e = None)
      \<and> \<not> (de_state e \<noteq> D_delivered \<and> de_proof e \<noteq> None)
      \<and> \<not> (de_state e = D_delivered \<and> (de_provider e = None \<or> de_reference e = None))
      \<and> (case de_proof e of None \<Rightarrow> True
          | Some p \<Rightarrow> de_provider e = Some (dp_provider p)
                     \<and> isAtOrAfter (de_recordedAt e) (dp_deliveredAt p))
      \<and> \<not> (de_state e = D_provider_accepted \<and> (de_provider e = None \<or> de_reference e = None))
      \<and> (de_state e \<in> set [D_failed, D_expired, D_unknown]) = (de_reason e \<noteq> None)
      \<and> \<not> (de_digest e \<noteq> None \<and> de_reason e = None)
      \<and> (de_reason e = Some ''APNS_UNREGISTERED'') = apns_unregistered e
      \<and> apns_unregistered e = (de_occurredAt e \<noteq> None)
      \<and> (case de_occurredAt e of None \<Rightarrow> True | Some t \<Rightarrow> \<not> (t > de_recordedAt e + 300000)))"

section \<open>The tables\<close>

record delivery_db =
  attempts :: "channel_attempt list"
  facts :: "delivery_evidence list"
  uuidsDrawn :: nat
  clockReads :: nat

datatype delivery_error =
  ATTEMPT_CONFLICT | ATTEMPT_ENDPOINT_UNBOUND | DELIVERY_STATE_PERSISTENCE_INVALID
| INITIAL_ATTEMPT_EVIDENCE_REQUIRED | INVALID_DELIVERY_TRANSITION
| Invalid_request | Row_invalid | Duplicate_key
| RECONCILIATION_CONFIGURATION_INVALID | RECONCILIATION_PERSISTENCE_INVALID

definition facts_of :: "delivery_db \<Rightarrow> uuid \<Rightarrow> delivery_evidence list" where
  "facts_of s a = filter (\<lambda>e. de_subject e = Attempt_of a) (facts s)"

definition evidenceFromRow :: "delivery_evidence \<Rightarrow> (delivery_error, delivery_evidence) result" where
  "evidenceFromRow e = (if DeliveryEvidenceSchema e then Inr e else Inl Row_invalid)"

definition attemptFromRow :: "channel_attempt \<Rightarrow> (delivery_error, channel_attempt) result" where
  "attemptFromRow a = (if ChannelAttemptSchema a then Inr a else Inl Row_invalid)"

definition sameAttempt :: "channel_attempt \<Rightarrow> channel_attempt \<Rightarrow> bool" where
  "sameAttempt l r =
     (a_id l = a_id r \<and> a_batchId l = a_batchId r \<and> a_intentId l = a_intentId r
      \<and> n_eventId l = n_eventId r \<and> n_kind l = n_kind r \<and> n_mode l = n_mode r
      \<and> n_purpose l = n_purpose r \<and> tv_id (n_typeVersion l) = tv_id (n_typeVersion r)
      \<and> tv_mode (n_typeVersion l) = tv_mode (n_typeVersion r)
      \<and> n_rosterSnapshotId l = n_rosterSnapshotId r \<and> n_population l = n_population r
      \<and> a_recipientId l = a_recipientId r \<and> a_endpointId l = a_endpointId r
      \<and> a_channel l = a_channel r \<and> a_attemptNumber l = a_attemptNumber r
      \<and> a_attemptedAt l = a_attemptedAt r)"

definition evidenceMatchesInput :: "delivery_evidence \<Rightarrow> evidence_fact \<Rightarrow> bool" where
  "evidenceMatchesInput e i =
     (subject_kind (de_subject e) = Attempt_subject \<and> de_subject e = de_subject i
      \<and> de_state e = de_state i \<and> de_provider e = de_provider i \<and> de_reference e = de_reference i
      \<and> de_occurredAt e = de_occurredAt i \<and> de_proof e = de_proof i
      \<and> de_reason e = de_reason i \<and> de_digest e = de_digest i)"

datatype disposition = Subsumes | Conflicts

definition strongerEvidenceDisposition :: "delivery_evidence \<Rightarrow> evidence_fact \<Rightarrow> disposition option" where
  "strongerEvidenceDisposition e i =
     (if subject_kind (de_subject e) \<noteq> Attempt_subject \<or> de_subject e \<noteq> de_subject i then None
      else let terminal = isTerminalDeliveryTruthState (de_state e)
           in if de_state i = D_unknown \<and> de_reference i = None
              then if de_state e \<noteq> D_provider_accepted \<and> \<not> terminal then None
                   else if de_provider i = None \<or> de_provider e = de_provider i
                   then Some Subsumes else Some Conflicts
              else if \<not> terminal then None
              else let sameLineage = (de_provider e = de_provider i \<and> de_reference e = de_reference i)
                   in if sameLineage \<and> de_state e = D_expired \<and> de_state i = D_delivered then None
                      else if sameLineage then Some Subsumes else Some Conflicts)"

definition loadLatestEvidence :: "delivery_db \<Rightarrow> uuid \<Rightarrow> (delivery_error, delivery_evidence option) result" where
  "loadLatestEvidence s a =
     (case rev (sort_key de_sequence (facts_of s a)) of
        [] \<Rightarrow> Inr None
      | row # _ \<Rightarrow> bindR (evidenceFromRow row) (\<lambda>e. Inr (Some e)))"

definition loadFirstEvidence :: "delivery_db \<Rightarrow> uuid \<Rightarrow> (delivery_error, delivery_evidence option) result" where
  "loadFirstEvidence s a =
     (case sort_key de_sequence (facts_of s a) of
        [] \<Rightarrow> Inr None
      | row # _ \<Rightarrow> bindR (evidenceFromRow row) (\<lambda>e. Inr (Some e)))"

text \<open>The proof is compared only after the rows were read, as in the source.\<close>

definition loadMatchingEvidence ::
  "delivery_db \<Rightarrow> evidence_fact \<Rightarrow> (delivery_error, delivery_evidence option) result" where
  "loadMatchingEvidence s i =
     bindR (sequenceR (map evidenceFromRow (filter
         (\<lambda>e. de_state e = de_state i \<and> de_provider e = de_provider i \<and> de_reference e = de_reference i
             \<and> de_occurredAt e = de_occurredAt i \<and> de_reason e = de_reason i \<and> de_digest e = de_digest i)
         (sort_key de_sequence (facts_of s (subject_id (de_subject i)))))))
       (\<lambda>rows. Inr (find (\<lambda>e. evidenceMatchesInput e i) rows))"

section \<open>Recording a fact\<close>

definition next_evidence :: "uuid \<Rightarrow> timestamp \<Rightarrow> evidence_fact \<Rightarrow> delivery_evidence option \<Rightarrow> delivery_evidence" where
  "next_evidence k t i previous =
     \<lparr>de_subject = de_subject i, de_state = de_state i, de_provider = de_provider i,
      de_reference = de_reference i, de_occurredAt = de_occurredAt i, de_proof = de_proof i,
      de_reason = de_reason i, de_digest = de_digest i, de_id = k,
      de_sequence = (case previous of None \<Rightarrow> 0 | Some p \<Rightarrow> de_sequence p) + 1,
      de_previous = map_option de_id previous, de_recordedAt = t\<rparr>"

definition insert_fact :: "delivery_evidence \<Rightarrow> (delivery_db, delivery_error, delivery_evidence) comp" where
  "insert_fact e s =
     (let s' = s\<lparr>uuidsDrawn := Suc (uuidsDrawn s), clockReads := Suc (clockReads s)\<rparr>
      in if \<not> DeliveryEvidenceSchema e then (Inl Row_invalid, s')
         else if de_id e \<in> de_id ` set (facts s) then (Inl Duplicate_key, s')
         else (Inr e, s'\<lparr>facts := facts s @ [e]\<rparr>))"

definition appendEvidence ::
  "(nat \<Rightarrow> uuid) \<Rightarrow> (nat \<Rightarrow> timestamp) \<Rightarrow> evidence_fact \<Rightarrow> delivery_evidence option
     \<Rightarrow> (delivery_db, delivery_error, delivery_evidence) comp" where
  "appendEvidence gen clock i previous s =
     insert_fact (next_evidence (gen (uuidsDrawn s)) (clock (clockReads s)) i previous) s"

definition write_request_ok :: "channel_attempt \<Rightarrow> evidence_fact \<Rightarrow> bool" where
  "write_request_ok att i =
     (ChannelAttemptSchema att \<and> RecordDeliveryEvidenceInputSchema i
      \<and> \<not> (subject_kind (de_subject i) \<noteq> Attempt_subject \<or> subject_id (de_subject i) \<noteq> a_id att
           \<or> de_state i \<in> set [D_accepted, D_recorded]))"

text \<open>A fact for an attempt that already has its row.\<close>

definition extend_attempt ::
  "(nat \<Rightarrow> uuid) \<Rightarrow> (nat \<Rightarrow> timestamp) \<Rightarrow> channel_attempt \<Rightarrow> evidence_fact
     \<Rightarrow> (delivery_db, delivery_error, delivery_evidence) comp" where
  "extend_attempt gen clock att i s =
     (if de_state i = D_attempted
      then (case loadFirstEvidence s (a_id att) of
              Inl e \<Rightarrow> (Inl e, s)
            | Inr None \<Rightarrow> (Inl DELIVERY_STATE_PERSISTENCE_INVALID, s)
            | Inr (Some first) \<Rightarrow>
                if de_sequence first \<noteq> 1 \<or> \<not> evidenceMatchesInput first i
                then (Inl DELIVERY_STATE_PERSISTENCE_INVALID, s) else (Inr first, s))
      else (case loadLatestEvidence s (a_id att) of
              Inl e \<Rightarrow> (Inl e, s)
            | Inr None \<Rightarrow> (Inl DELIVERY_STATE_PERSISTENCE_INVALID, s)
            | Inr (Some latest) \<Rightarrow>
                if evidenceMatchesInput latest i then (Inr latest, s)
                else (case strongerEvidenceDisposition latest i of
                        Some Subsumes \<Rightarrow> (Inr latest, s)
                      | Some Conflicts \<Rightarrow> (Inl INVALID_DELIVERY_TRANSITION, s)
                      | None \<Rightarrow>
                          (case loadMatchingEvidence s i of
                             Inl e \<Rightarrow> (Inl e, s)
                           | Inr (Some matching) \<Rightarrow> (Inr matching, s)
                           | Inr None \<Rightarrow>
                               if DeliveryTruthTransitionSchema Attempt_subject (de_state latest) (de_state i)
                               then appendEvidence gen clock i (Some latest) s
                               else (Inl INVALID_DELIVERY_TRANSITION, s)))))"

text \<open>
  \<open>recordAttemptEvidence\<close>. The database refuses the row of an attempt whose endpoint is not
  bound to its roster snapshot, which the parameter \<open>bound\<close> decides.
\<close>

definition record_in_transaction ::
  "(channel_attempt \<Rightarrow> bool) \<Rightarrow> (nat \<Rightarrow> uuid) \<Rightarrow> (nat \<Rightarrow> timestamp) \<Rightarrow> channel_attempt \<Rightarrow> evidence_fact
     \<Rightarrow> (delivery_db, delivery_error, delivery_evidence) comp" where
  "record_in_transaction bound gen clock att i s =
     (let byId = find (\<lambda>a. a_id a = a_id att) (attempts s);
          byNaturalKey = find (\<lambda>a. a_batchId a = a_batchId att \<and> a_endpointId a = a_endpointId att
                                \<and> a_attemptNumber a = a_attemptNumber att) (attempts s)
      in if (case byNaturalKey of None \<Rightarrow> False | Some k \<Rightarrow> a_id k \<noteq> a_id att)
         then (Inl ATTEMPT_CONFLICT, s)
         else (case byId of
             None \<Rightarrow>
               if de_state i \<noteq> D_attempted then (Inl INITIAL_ATTEMPT_EVIDENCE_REQUIRED, s)
               else if \<not> bound att then (Inl ATTEMPT_ENDPOINT_UNBOUND, s)
               else appendEvidence gen clock i None (s\<lparr>attempts := attempts s @ [att]\<rparr>)
           | Some row \<Rightarrow>
               (case attemptFromRow row of
                  Inl e \<Rightarrow> (Inl e, s)
                | Inr stored \<Rightarrow>
                    if \<not> sameAttempt stored att then (Inl ATTEMPT_CONFLICT, s)
                    else extend_attempt gen clock att i s)))"

definition recordAttemptEvidence ::
  "(channel_attempt \<Rightarrow> bool) \<Rightarrow> (nat \<Rightarrow> uuid) \<Rightarrow> (nat \<Rightarrow> timestamp) \<Rightarrow> channel_attempt \<Rightarrow> evidence_fact
     \<Rightarrow> (delivery_db, delivery_error, delivery_evidence) comp" where
  "recordAttemptEvidence bound gen clock att i s =
     (if \<not> write_request_ok att i then (Inl Invalid_request, s)
      else transactionC (record_in_transaction bound gen clock att i) s)"

section \<open>Reconciliation\<close>

definition RECONCILIATION_REASON_CODE :: string where
  "RECONCILIATION_REASON_CODE = ''RECONCILIATION_DEADLINE_EXCEEDED''"

definition parseStaleAfter :: "js_number option \<Rightarrow> (delivery_error, int) result" where
  "parseStaleAfter v =
     (case v of None \<Rightarrow> Inr (15 * 60000)
      | Some n \<Rightarrow> if \<not> js_integer n \<or> num n < 1000 \<or> num n > 7 * 24 * 60 * 60000
                 then Inl RECONCILIATION_CONFIGURATION_INVALID else Inr (js_int n))"

definition unknown_fact :: "delivery_evidence \<Rightarrow> evidence_fact" where
  "unknown_fact p =
     \<lparr>de_subject = de_subject p, de_state = D_unknown, de_provider = de_provider p,
      de_reference = de_reference p, de_occurredAt = de_occurredAt p, de_proof = None,
      de_reason = Some RECONCILIATION_REASON_CODE, de_digest = None\<rparr>"

definition buildReconciliationUnknownEvidence ::
  "delivery_evidence \<Rightarrow> timestamp \<Rightarrow> uuid \<Rightarrow> (delivery_error, delivery_evidence option) result" where
  "buildReconciliationUnknownEvidence previous recordedAt k =
     bindR (evidenceFromRow previous) (\<lambda>p.
       if subject_kind (de_subject p) \<noteq> Attempt_subject
          \<or> de_state p \<noteq> D_attempted \<and> de_state p \<noteq> D_provider_accepted
       then Inr None
       else if \<not> DeliveryTruthTransitionSchema Attempt_subject (de_state p) D_unknown
               \<or> recordedAt < de_recordedAt p
       then Inl RECONCILIATION_PERSISTENCE_INVALID
       else bindR (evidenceFromRow (next_evidence k recordedAt (unknown_fact p) (Some p)))
              (\<lambda>e. Inr (Some e)))"

definition isReconciliationCandidate :: "delivery_evidence \<Rightarrow> timestamp \<Rightarrow> bool" where
  "isReconciliationCandidate e cutoff =
     ((de_state e = D_attempted \<or> de_state e = D_provider_accepted) \<and> de_recordedAt e \<le> cutoff)"

definition appendUnknownEvidence ::
  "(nat \<Rightarrow> uuid) \<Rightarrow> (nat \<Rightarrow> timestamp) \<Rightarrow> delivery_evidence
     \<Rightarrow> (delivery_db, delivery_error, delivery_evidence) comp" where
  "appendUnknownEvidence gen clock previous s =
     (case buildReconciliationUnknownEvidence previous (clock (clockReads s)) (gen (uuidsDrawn s)) of
        Inl e \<Rightarrow> (Inl e, s)
      | Inr None \<Rightarrow> (Inl RECONCILIATION_PERSISTENCE_INVALID, s)
      | Inr (Some e) \<Rightarrow> insert_fact e s)"

text \<open>
  The stale attempts, oldest latest fact first, then by ID: the rows whose latest fact is not
  final, is old enough, and belongs to the intent if one is given.
\<close>

definition latest_row :: "delivery_db \<Rightarrow> uuid \<Rightarrow> delivery_evidence option" where
  "latest_row s a =
     (case rev (sort_key de_sequence (facts_of s a)) of [] \<Rightarrow> None | e # _ \<Rightarrow> Some e)"

definition listStaleAttemptIds :: "delivery_db \<Rightarrow> uuid option \<Rightarrow> nat \<Rightarrow> timestamp \<Rightarrow> uuid list" where
  "listStaleAttemptIds s intentId limit cutoff =
     take limit (map a_id
       (sort_key (\<lambda>a. de_recordedAt (the (latest_row s (a_id a))))
         (sort_key a_id
           (filter (\<lambda>a. (case intentId of None \<Rightarrow> True | Some i \<Rightarrow> a_intentId a = i)
                       \<and> (case latest_row s (a_id a) of None \<Rightarrow> False
                          | Some e \<Rightarrow> isReconciliationCandidate e cutoff))
             (attempts s)))))"

fun reconcile_each ::
  "(nat \<Rightarrow> uuid) \<Rightarrow> (nat \<Rightarrow> timestamp) \<Rightarrow> timestamp \<Rightarrow> uuid list
     \<Rightarrow> (delivery_db, delivery_error, delivery_evidence list) comp" where
  "reconcile_each gen clock cutoff [] s = (Inr [], s)"
| "reconcile_each gen clock cutoff (a # as) s =
     (case loadLatestEvidence s a of
        Inl e \<Rightarrow> (Inl e, s)
      | Inr latest \<Rightarrow>
          (case (case latest of
                   Some l \<Rightarrow> if isReconciliationCandidate l cutoff
                             then bindC (appendUnknownEvidence gen clock l) (\<lambda>e. retC [e]) s
                             else (Inr [], s)
                 | None \<Rightarrow> (Inr [], s)) of
             (Inl e, s') \<Rightarrow> (Inl e, s')
           | (Inr es, s') \<Rightarrow> bindC (reconcile_each gen clock cutoff as) (\<lambda>es'. retC (es @ es')) s'))"

definition reconcile ::
  "(nat \<Rightarrow> uuid) \<Rightarrow> (nat \<Rightarrow> timestamp) \<Rightarrow> int \<Rightarrow> uuid option \<Rightarrow> int
     \<Rightarrow> (delivery_db, delivery_error, nat \<times> delivery_evidence list) comp" where
  "reconcile gen clock staleAfter intentId limit s =
     (if \<not> pred_option uuid_ok intentId \<or> limit < 1 \<or> limit > 500 then (Inl Invalid_request, s)
      else transactionC (\<lambda>s0.
        let s1 = s0\<lparr>clockReads := Suc (clockReads s0)\<rparr>;
            cutoff = clock (clockReads s0) - staleAfter;
            ids = listStaleAttemptIds s1 intentId (nat limit) cutoff
        in bindC (reconcile_each gen clock cutoff ids)
             (\<lambda>es. if length es > length ids then throwC Invalid_request
                   else retC (length ids, es)) s1) s)"

end
