(* ===== verification/Delivery_Chain.thy ===== *)
theory Delivery_Chain
  imports Delivery_Evidence
begin

text \<open>
  What the evidence tables keep: the facts of every attempt form one linked chain of allowed
  truth transitions, whatever sequence of worker writes and reconciliations ran; delivered and
  failed are final; a repeated write returns the fact it returned before.
\<close>

section \<open>The transition policy\<close>

lemma attempt_transition_iff:
  "DeliveryTruthTransitionSchema Attempt_subject s s' \<longleftrightarrow>
     s = D_attempted \<and> s' \<in> {D_provider_accepted, D_delivered, D_failed, D_expired, D_unknown}
     \<or> s = D_provider_accepted \<and> s' \<in> {D_delivered, D_failed, D_expired, D_unknown}
     \<or> s = D_unknown \<and> s' \<in> {D_provider_accepted, D_delivered, D_failed}
     \<or> s = D_expired \<and> s' = D_delivered"
  by (auto simp: DeliveryTruthTransitionSchema_def allowedDeliveryTransitions_def)

definition truth_step :: "delivery_state \<Rightarrow> delivery_state \<Rightarrow> bool" where
  "truth_step s s' = DeliveryTruthTransitionSchema Attempt_subject s s'"

lemma truth_steps_delivered: "truth_step\<^sup>*\<^sup>* s s' \<Longrightarrow> s \<in> {D_delivered, D_failed} \<Longrightarrow> s' = s"
  by (induction rule: rtranclp_induct) (auto simp: truth_step_def attempt_transition_iff)

lemma truth_steps_expired: "truth_step\<^sup>*\<^sup>* s s' \<Longrightarrow> s = D_expired \<Longrightarrow> s' = D_expired \<or> s' = D_delivered"
  by (induction rule: rtranclp_induct) (auto simp: truth_step_def attempt_transition_iff)

text \<open>Under the transition policy delivered and failed are final, an
  expired attempt can only be found delivered, nothing leads back to attempted, and every attempt
  can still end delivered or failed; but provider-accepted and unknown can follow one another for
  ever.\<close>

theorem delivery_truth_policy:
  "(\<forall>s s'. truth_step\<^sup>*\<^sup>* s s' \<longrightarrow>
      (s \<in> {D_delivered, D_failed} \<longrightarrow> s' = s)
      \<and> (s = D_expired \<longrightarrow> s' = D_expired \<or> s' = D_delivered)
      \<and> (s' = D_attempted \<longrightarrow> s = D_attempted))
   \<and> (\<forall>s \<in> {D_attempted, D_provider_accepted, D_unknown}. truth_step s D_delivered \<and> truth_step s D_failed)
   \<and> truth_step D_provider_accepted D_unknown \<and> truth_step D_unknown D_provider_accepted"
proof -
  have "s = D_attempted" if "truth_step\<^sup>*\<^sup>* s s'" "s' = D_attempted" for s s'
    using that by (induction rule: rtranclp_induct) (auto simp: truth_step_def attempt_transition_iff)
  moreover have "truth_step s D_delivered \<and> truth_step s D_failed"
    if "s \<in> {D_attempted, D_provider_accepted, D_unknown}" for s
    using that by (auto simp: truth_step_def attempt_transition_iff)
  moreover have "truth_step D_provider_accepted D_unknown" "truth_step D_unknown D_provider_accepted"
    by (simp_all add: truth_step_def attempt_transition_iff)
  ultimately show ?thesis using truth_steps_delivered truth_steps_expired by blast
qed

theorem delivery_truth_policy_witness:
  "truth_step D_unknown D_provider_accepted \<and> \<not> truth_step\<^sup>*\<^sup>* D_delivered D_failed"
  using delivery_truth_policy by blast

section \<open>Chains\<close>

inductive delivery_chain :: "uuid \<Rightarrow> delivery_evidence list \<Rightarrow> bool" for a :: uuid where
  first: "DeliveryEvidenceSchema e \<Longrightarrow> de_subject e = Attempt_of a \<Longrightarrow> de_state e = D_attempted \<Longrightarrow>
    de_sequence e = 1 \<Longrightarrow> delivery_chain a [e]"
| next_fact: "delivery_chain a (es @ [l]) \<Longrightarrow> DeliveryEvidenceSchema e \<Longrightarrow> de_subject e = Attempt_of a \<Longrightarrow>
    de_sequence e = de_sequence l + 1 \<Longrightarrow> de_previous e = Some (de_id l) \<Longrightarrow>
    truth_step (de_state l) (de_state e) \<Longrightarrow> delivery_chain a (es @ [l, e])"

inductive_simps delivery_chain_Nil [simp]: "delivery_chain a []"

lemma chain_append:
  assumes "delivery_chain a es" "DeliveryEvidenceSchema e" "de_subject e = Attempt_of a"
    "de_sequence e = de_sequence (last es) + 1" "de_previous e = Some (de_id (last es))"
    "truth_step (de_state (last es)) (de_state e)"
  shows "delivery_chain a (es @ [e])"
proof (cases es rule: rev_cases)
  case Nil
  then show ?thesis using assms by simp
next
  case (snoc fs l)
  then show ?thesis using assms delivery_chain.next_fact [of a fs l e] by simp
qed

lemma chain_sequences: "delivery_chain a es \<Longrightarrow> map de_sequence es = map int [1 ..< Suc (length es)]"
  by (induction rule: delivery_chain.induct) auto

lemma chain_facts:
  assumes "delivery_chain a es" and "e \<in> set es"
  shows "DeliveryEvidenceSchema e" "de_subject e = Attempt_of a"
  using assms by (induction rule: delivery_chain.induct) auto

lemma chain_first: "delivery_chain a es \<Longrightarrow> de_state (hd es) = D_attempted \<and> de_sequence (hd es) = 1"
  by (induction rule: delivery_chain.induct) (auto simp: hd_append split: list.splits)

lemma chain_truth:
  "delivery_chain a es \<Longrightarrow> e \<in> set es \<Longrightarrow> truth_step\<^sup>*\<^sup>* (de_state e) (de_state (last es))"
  by (induction rule: delivery_chain.induct) (auto intro: rtranclp.rtrancl_into_rtrancl)

lemma chain_sorted:
  assumes "delivery_chain a es"
  shows "sort_key de_sequence es = es"
proof (rule sort_key_id_if_sorted)
  show "sorted (map de_sequence es)"
    unfolding chain_sequences [OF assms] by (simp add: sorted_map del: upt_Suc)
qed

section \<open>The invariant of the tables\<close>

definition delivery_inv :: "delivery_db \<Rightarrow> bool" where
  "delivery_inv s =
     (list_all ChannelAttemptSchema (attempts s)
      \<and> (\<forall>a. facts_of s a = [] \<and> a \<notin> a_id ` set (attempts s)
            \<or> delivery_chain a (facts_of s a) \<and> a \<in> a_id ` set (attempts s)))"

lemma delivery_invD:
  assumes "delivery_inv s" and "facts_of s a \<noteq> []"
  shows "delivery_chain a (facts_of s a)" "a \<in> a_id ` set (attempts s)"
  using assms by (auto simp: delivery_inv_def)

lemma inv_attempt:
  assumes "delivery_inv s" and "a \<in> a_id ` set (attempts s)"
  shows "delivery_chain a (facts_of s a)" "facts_of s a \<noteq> []"
  using assms by (auto simp: delivery_inv_def)

lemma loads:
  assumes "delivery_chain a (facts_of s a)"
  shows "loadLatestEvidence s a = Inr (Some (last (facts_of s a)))"
    and "loadFirstEvidence s a = Inr (Some (hd (facts_of s a)))"
proof -
  have ne: "facts_of s a \<noteq> []" using assms by auto
  have ok: "DeliveryEvidenceSchema (last (facts_of s a))" "DeliveryEvidenceSchema (hd (facts_of s a))"
    using chain_facts(1) [OF assms] ne by simp_all
  obtain x xs where x: "rev (facts_of s a) = x # xs" using ne by (cases "rev (facts_of s a)") auto
  then have "x = last (facts_of s a)" by (metis hd_rev list.sel(1))
  then show "loadLatestEvidence s a = Inr (Some (last (facts_of s a)))"
    using ok(1) unfolding loadLatestEvidence_def chain_sorted [OF assms] x
    by (simp add: evidenceFromRow_def)
  show "loadFirstEvidence s a = Inr (Some (hd (facts_of s a)))"
    using ne ok(2) unfolding loadFirstEvidence_def chain_sorted [OF assms]
    by (cases "facts_of s a") (simp_all add: evidenceFromRow_def)
qed

text \<open>The two ways in which the tables change.\<close>

definition adds_fact :: "delivery_db \<Rightarrow> delivery_evidence \<Rightarrow> delivery_db \<Rightarrow> bool" where
  "adds_fact s e s' =
     (facts s' = facts s @ [e] \<and> attempts s' = attempts s \<and> DeliveryEvidenceSchema e
      \<and> (\<exists>a. de_subject e = Attempt_of a \<and> delivery_chain a (facts_of s a)
           \<and> de_sequence e = de_sequence (last (facts_of s a)) + 1
           \<and> de_previous e = Some (de_id (last (facts_of s a)))
           \<and> truth_step (de_state (last (facts_of s a))) (de_state e)))"

definition starts_attempt :: "delivery_db \<Rightarrow> channel_attempt \<Rightarrow> delivery_evidence \<Rightarrow> delivery_db \<Rightarrow> bool" where
  "starts_attempt s att e s' =
     (facts s' = facts s @ [e] \<and> attempts s' = attempts s @ [att] \<and> DeliveryEvidenceSchema e
      \<and> ChannelAttemptSchema att \<and> de_subject e = Attempt_of (a_id att) \<and> de_state e = D_attempted
      \<and> de_sequence e = 1 \<and> facts_of s (a_id att) = [])"

lemma facts_of_append:
  "facts s' = facts s @ [e] \<Longrightarrow>
   facts_of s' a = facts_of s a @ (if de_subject e = Attempt_of a then [e] else [])"
  by (simp add: facts_of_def)

lemma inv_chain_known:
  assumes "delivery_inv s" "delivery_chain a (facts_of s a)"
  shows "a \<in> a_id ` set (attempts s)"
  using assms(1) by (rule delivery_invD(2)) (use assms(2) in auto)

lemma adds_fact_inv:
  assumes inv: "delivery_inv s" and add: "adds_fact s e s'"
  shows "delivery_inv s'"
proof -
  obtain a where a: "de_subject e = Attempt_of a" "delivery_chain a (facts_of s a)"
    "de_sequence e = de_sequence (last (facts_of s a)) + 1"
    "de_previous e = Some (de_id (last (facts_of s a)))"
    "truth_step (de_state (last (facts_of s a))) (de_state e)"
    and e: "facts s' = facts s @ [e]" "attempts s' = attempts s" "DeliveryEvidenceSchema e"
    using add by (auto simp: adds_fact_def)
  have chain: "delivery_chain a (facts_of s a @ [e])"
    using a(2) e(3) a(1,3,4,5) by (rule chain_append)
  have mem: "a \<in> a_id ` set (attempts s)" using inv a(2) by (rule inv_chain_known)
  show ?thesis
    unfolding delivery_inv_def
  proof (intro conjI allI)
    show "list_all ChannelAttemptSchema (attempts s')" using inv e(2) by (simp add: delivery_inv_def)
    fix b
    show "facts_of s' b = [] \<and> b \<notin> a_id ` set (attempts s')
        \<or> delivery_chain b (facts_of s' b) \<and> b \<in> a_id ` set (attempts s')"
      using inv chain mem a(1) unfolding facts_of_append [OF e(1)] e(2) delivery_inv_def
      by (cases "b = a") simp_all
  qed
qed

lemma starts_attempt_inv: "delivery_inv s \<Longrightarrow> starts_attempt s att e s' \<Longrightarrow> delivery_inv s'"
  unfolding delivery_inv_def starts_attempt_def
  by (auto simp: facts_of_append intro: delivery_chain.first)

lemma insert_fact_Inr:
  assumes "insert_fact e s = (Inr r, s')"
  shows "r = e" "facts s' = facts s @ [e]" "attempts s' = attempts s" "DeliveryEvidenceSchema e"
  using assms by (auto simp: insert_fact_def Let_def split: if_splits)

lemma next_evidence_simps [simp]:
  "de_subject (next_evidence k t i p) = de_subject i" "de_state (next_evidence k t i p) = de_state i"
  "de_id (next_evidence k t i p) = k" "de_recordedAt (next_evidence k t i p) = t"
  "de_sequence (next_evidence k t i None) = 1"
  "de_sequence (next_evidence k t i (Some q)) = de_sequence q + 1"
  "de_previous (next_evidence k t i p) = map_option de_id p"
  by (simp_all add: next_evidence_def)

lemma next_evidence_matches:
  "subject_kind (de_subject i) = Attempt_subject \<Longrightarrow> evidenceMatchesInput (next_evidence k t i p) i"
  by (simp add: evidenceMatchesInput_def next_evidence_def)

lemma find_SomeD: "find P xs = Some x \<Longrightarrow> x \<in> set xs \<and> P x"
  by (induction xs) (auto split: if_splits)

lemma find_NoneD: "find P xs = None \<Longrightarrow> x \<in> set xs \<Longrightarrow> \<not> P x"
  by (auto simp: find_None_iff)

section \<open>What a write does\<close>

text \<open>
  A successful write starts the attempt, or returns a fact of the attempt that is already there,
  or appends one that the policy allows.
\<close>

lemma sequenceR_rows:
  "sequenceR (map evidenceFromRow xs) = Inr ys \<Longrightarrow> ys = xs"
  by (induction xs arbitrary: ys) (auto simp: evidenceFromRow_def bindR_Inr_iff split: if_splits)

lemma loadMatching_member:
  assumes "loadMatchingEvidence s i = Inr (Some e)"
  shows "e \<in> set (facts_of s (subject_id (de_subject i)))" "evidenceMatchesInput e i"
  using assms by (auto simp: loadMatchingEvidence_def bindR_Inr_iff dest!: sequenceR_rows find_SomeD)

lemma extend_attempt_cases:
  assumes inv: "delivery_inv s" and a: "a_id att \<in> a_id ` set (attempts s)"
    and subj: "de_subject i = Attempt_of (a_id att)"
    and run: "extend_attempt gen clock att i s = (Inr e, s')"
  shows "s' = s \<and> e \<in> set (facts_of s (a_id att))
    \<or> adds_fact s e s' \<and> evidenceMatchesInput e i
      \<and> e = next_evidence (gen (uuidsDrawn s)) (clock (clockReads s)) i (Some (last (facts_of s (a_id att))))"
proof -
  have chain: "delivery_chain (a_id att) (facts_of s (a_id att))" and ne: "facts_of s (a_id att) \<noteq> []"
    using inv_attempt [OF inv a] by blast+
  note ld = loads [OF chain]
  show ?thesis
  proof (cases "de_state i = D_attempted")
    case True
    then show ?thesis using run ne by (auto simp: extend_attempt_def ld split: if_splits)
  next
    case False
    let ?l = "last (facts_of s (a_id att))"
    have l: "?l \<in> set (facts_of s (a_id att))" using ne by simp
    have latest: "extend_attempt gen clock att i s =
        (if evidenceMatchesInput ?l i then (Inr ?l, s)
         else (case strongerEvidenceDisposition ?l i of
                 Some Subsumes \<Rightarrow> (Inr ?l, s)
               | Some Conflicts \<Rightarrow> (Inl INVALID_DELIVERY_TRANSITION, s)
               | None \<Rightarrow>
                   (case loadMatchingEvidence s i of
                      Inl e \<Rightarrow> (Inl e, s)
                    | Inr (Some matching) \<Rightarrow> (Inr matching, s)
                    | Inr None \<Rightarrow>
                        if truth_step (de_state ?l) (de_state i)
                        then appendEvidence gen clock i (Some ?l) s
                        else (Inl INVALID_DELIVERY_TRANSITION, s))))"
      using False by (simp only: extend_attempt_def ld truth_step_def sum.case option.case if_False)
    note step = run [unfolded latest]
    show ?thesis
    proof (cases "evidenceMatchesInput ?l i \<or> strongerEvidenceDisposition ?l i = Some Subsumes")
      case True
      then have "extend_attempt gen clock att i s = (Inr ?l, s)" unfolding latest by auto
      with run have "(Inr ?l :: (delivery_error, delivery_evidence) result, s) = (Inr e, s')"
        by (simp only:)
      then show ?thesis using l by blast
    next
      case no_answer: False
      then have disp: "strongerEvidenceDisposition ?l i = None"
      proof (cases "strongerEvidenceDisposition ?l i")
        case (Some d)
        then show ?thesis using step no_answer by (cases d) simp_all
      qed simp
      show ?thesis
      proof (cases "loadMatchingEvidence s i")
        case (Inl err)
        then show ?thesis using step no_answer disp by simp
      next
        case (Inr found)
        show ?thesis
        proof (cases found)
          case (Some m)
          then show ?thesis
            using step no_answer disp Inr loadMatching_member(1) [of s i m] subj by simp
        next
          case None
          then have tr: "truth_step (de_state ?l) (de_state i)"
            and app: "appendEvidence gen clock i (Some ?l) s = (Inr e, s')"
            using step no_answer disp Inr by (simp_all split: if_splits)
          then have ins: "insert_fact (next_evidence (gen (uuidsDrawn s)) (clock (clockReads s)) i (Some ?l)) s
              = (Inr e, s')"
            by (simp add: appendEvidence_def)
          note eff = insert_fact_Inr [OF ins]
          have "adds_fact s e s'"
            unfolding adds_fact_def using eff tr subj chain by simp
          then show ?thesis using eff(1) subj by (simp add: next_evidence_matches)
        qed
      qed
    qed
  qed
qed

lemma record_cases:
  assumes inv: "delivery_inv s"
    and run: "recordAttemptEvidence bound gen clock att i s = (Inr e, s')"
  shows "starts_attempt s att e s' \<and> bound att \<and> evidenceMatchesInput e i
    \<or> a_id att \<in> a_id ` set (attempts s) \<and> s' = s \<and> e \<in> set (facts_of s (a_id att))
    \<or> a_id att \<in> a_id ` set (attempts s) \<and> adds_fact s e s' \<and> evidenceMatchesInput e i"
proof -
  have req: "write_request_ok att i" and
    tx: "record_in_transaction bound gen clock att i s = (Inr e, s')"
    using run by (auto simp: recordAttemptEvidence_def split: if_splits dest: transactionC_Inr)
  have subj: "de_subject i = Attempt_of (a_id att)" and att: "ChannelAttemptSchema att"
    using req by (cases "de_subject i"; simp add: write_request_ok_def)+
  show ?thesis
  proof (cases "find (\<lambda>a. a_id a = a_id att) (attempts s)")
    case None
    then have new: "a_id att \<notin> a_id ` set (attempts s)" by (auto simp: find_None_iff)
    let ?s0 = "s\<lparr>attempts := attempts s @ [att]\<rparr>"
    from tx None have st: "de_state i = D_attempted" "bound att"
      and ins: "insert_fact (next_evidence (gen (uuidsDrawn s)) (clock (clockReads s)) i None) ?s0 = (Inr e, s')"
      by (auto simp: record_in_transaction_def Let_def appendEvidence_def split: if_splits option.splits)
    note eff = insert_fact_Inr [OF ins]
    have "facts_of s (a_id att) = []" using inv new by (auto simp: delivery_inv_def)
    then have "starts_attempt s att e s'"
      unfolding starts_attempt_def using eff st subj att by simp
    then show ?thesis using eff(1) st subj by (simp add: next_evidence_matches)
  next
    case (Some row)
    then have row: "row \<in> set (attempts s)" "a_id row = a_id att" by (auto dest: find_SomeD)
    then have mem: "a_id att \<in> a_id ` set (attempts s)" by (metis imageI)
    from tx Some have "extend_attempt gen clock att i s = (Inr e, s')"
      by (auto simp: record_in_transaction_def Let_def attemptFromRow_def
          split: if_splits option.splits)
    from extend_attempt_cases [OF inv mem subj this] mem show ?thesis by blast
  qed
qed

lemma record_error_unchanged:
  "recordAttemptEvidence bound gen clock att i s = (Inl err, s') \<Longrightarrow> s' = s"
  by (auto simp: recordAttemptEvidence_def split: if_splits dest: transactionC_Inl)

lemma record_keeps_inv: "keeps delivery_inv (recordAttemptEvidence bound gen clock att i)"
proof (rule keepsI)
  fix s r s'
  assume inv: "delivery_inv s" and run: "recordAttemptEvidence bound gen clock att i s = (r, s')"
  show "delivery_inv s'"
  proof (cases r)
    case (Inl err)
    then show ?thesis using run inv record_error_unchanged by blast
  next
    case (Inr e)
    then show ?thesis
      using record_cases [OF inv, of bound gen clock att i e s'] run inv
        starts_attempt_inv adds_fact_inv by blast
  qed
qed

section \<open>What a reconciliation does\<close>

lemma appendUnknown_adds:
  assumes inv: "delivery_inv s" and latest: "loadLatestEvidence s a = Inr (Some l)"
    and run: "appendUnknownEvidence gen clock l s = (Inr e, s')"
  shows "adds_fact s e s'"
proof -
  have ne: "facts_of s a \<noteq> []" using latest by (auto simp: loadLatestEvidence_def)
  then have chain: "delivery_chain a (facts_of s a)" using delivery_invD [OF inv] by blast
  then have l: "l = last (facts_of s a)" using latest loads(1) by simp
  then have ls: "de_subject l = Attempt_of a" using chain_facts(2) [OF chain] ne by simp
  from run have e: "e = next_evidence (gen (uuidsDrawn s)) (clock (clockReads s)) (unknown_fact l) (Some l)"
    and st: "truth_step (de_state l) D_unknown" and ins: "insert_fact e s = (Inr e, s')"
    by (auto simp: appendUnknownEvidence_def buildReconciliationUnknownEvidence_def bindR_Inr_iff
        evidenceFromRow_def truth_step_def dest: insert_fact_Inr(1) split: sum.splits option.splits if_splits)
  note eff = insert_fact_Inr [OF ins]
  show ?thesis
    unfolding adds_fact_def using eff e st ls chain l by (simp add: unknown_fact_def)
qed

lemma reconcile_each_inv:
  assumes "delivery_inv s" and "reconcile_each gen clock cutoff as s = (r, s')" and "r = Inr es"
  shows "delivery_inv s' \<and> (\<exists>es. facts s' = facts s @ es)"
  using assms
proof (induction as arbitrary: s es r)
  case Nil
  then show ?case by simp
next
  case (Cons a as)
  obtain latest where latest: "loadLatestEvidence s a = Inr latest"
    using Cons.prems by (auto split: sum.splits)
  show ?case
  proof (cases "\<exists>l. latest = Some l \<and> isReconciliationCandidate l cutoff")
    case True
    then obtain l where l: "latest = Some l" "isReconciliationCandidate l cutoff" by blast
    obtain q s1 where q: "appendUnknownEvidence gen clock l s = (q, s1)" by fastforce
    obtain e where e: "q = Inr e"
      using Cons.prems latest l q by (cases q) (auto simp: bindC_def retC_def)
    have add: "adds_fact s e s1"
      using appendUnknown_adds [OF Cons.prems(1)] latest l q e by blast
    obtain p s2 where p: "reconcile_each gen clock cutoff as s1 = (p, s2)" by fastforce
    from Cons.prems latest l q e p obtain fs where "p = Inr fs" "s2 = s'" "es = e # fs"
      by (cases p) (auto simp: bindC_def retC_def)
    with Cons.IH [of s1 p fs] p adds_fact_inv [OF Cons.prems(1) add] add
    show ?thesis by (auto simp: adds_fact_def)
  next
    case False
    obtain p s2 where p: "reconcile_each gen clock cutoff as s = (p, s2)" by fastforce
    from Cons.prems latest False p have "p = Inr es" "s2 = s'"
      by (cases p; auto simp: bindC_def retC_def split: option.splits)+
    with Cons.IH [of s p es] p Cons.prems(1) show ?thesis by simp
  qed
qed

text \<open>Facts are only ever added.\<close>

definition extends_facts :: "delivery_db \<Rightarrow> delivery_db \<Rightarrow> bool" where
  "extends_facts s s' = (\<exists>es. facts s' = facts s @ es)"

lemma extends_facts_refl [simp, intro]: "extends_facts s s"
  by (simp add: extends_facts_def)

lemma extends_facts_trans: "extends_facts s s1 \<Longrightarrow> extends_facts s1 s2 \<Longrightarrow> extends_facts s s2"
  by (auto simp: extends_facts_def)

lemma extends_facts_of: "extends_facts s s' \<Longrightarrow> \<exists>es. facts_of s' a = facts_of s a @ es"
  by (auto simp: extends_facts_def facts_of_def)

lemma adds_fact_extends: "adds_fact s e s' \<Longrightarrow> extends_facts s s'"
  by (auto simp: adds_fact_def extends_facts_def)

lemma record_extends:
  assumes "delivery_inv s" and "recordAttemptEvidence bound gen clock att i s = (r, s')"
  shows "extends_facts s s'"
proof (cases r)
  case (Inl err)
  then show ?thesis using assms(2) record_error_unchanged by blast
next
  case (Inr e)
  then show ?thesis
    using record_cases [OF assms(1), of bound gen clock att i e s'] assms(2) adds_fact_extends
    by (auto simp: starts_attempt_def extends_facts_def)
qed

lemma reconcile_inv:
  assumes inv: "delivery_inv s" and run: "reconcile gen clock stale intentId limit s = (r, s')"
  shows "delivery_inv s' \<and> extends_facts s s'"
proof (cases r)
  case (Inl err)
  then have "s' = s"
    using run by (auto simp: reconcile_def split: if_splits dest: transactionC_Inl)
  then show ?thesis using inv by simp
next
  case (Inr res)
  let ?s1 = "s\<lparr>clockReads := Suc (clockReads s)\<rparr>"
  let ?cutoff = "clock (clockReads s) - stale"
  let ?ids = "listStaleAttemptIds ?s1 intentId (nat limit) ?cutoff"
  have run': "bindC (reconcile_each gen clock ?cutoff ?ids)
      (\<lambda>es. if length es > length ?ids then throwC Invalid_request else retC (length ?ids, es)) ?s1
      = (Inr res, s')"
    using run Inr by (auto simp: reconcile_def Let_def split: if_splits dest: transactionC_Inr)
  then obtain es s2 where es: "reconcile_each gen clock ?cutoff ?ids ?s1 = (Inr es, s2)" "s2 = s'"
    by (elim bindC_InrE) (auto simp: throwC_def retC_def split: if_splits)
  have inv1: "delivery_inv ?s1" using inv by (simp add: delivery_inv_def facts_of_def)
  show ?thesis
    using reconcile_each_inv [OF inv1 es(1) refl] es(2) by (simp add: extends_facts_def)
qed

section \<open>Reachable tables\<close>

definition empty_tables :: delivery_db where
  "empty_tables = \<lparr>attempts = [], facts = [], uuidsDrawn = 0, clockReads = 0\<rparr>"

inductive delivery_step ::
  "(channel_attempt \<Rightarrow> bool) \<Rightarrow> (nat \<Rightarrow> uuid) \<Rightarrow> (nat \<Rightarrow> timestamp) \<Rightarrow> delivery_db \<Rightarrow> delivery_db \<Rightarrow> bool"
  for bound :: "channel_attempt \<Rightarrow> bool" and gen :: "nat \<Rightarrow> uuid" and clock :: "nat \<Rightarrow> timestamp" where
  writes: "recordAttemptEvidence bound gen clock att i s = (r, s') \<Longrightarrow> delivery_step bound gen clock s s'"
| reconciles: "reconcile gen clock stale intentId limit s = (q, s') \<Longrightarrow> delivery_step bound gen clock s s'"

inductive delivery_reach ::
  "(channel_attempt \<Rightarrow> bool) \<Rightarrow> (nat \<Rightarrow> uuid) \<Rightarrow> (nat \<Rightarrow> timestamp) \<Rightarrow> delivery_db \<Rightarrow> bool"
  for bound :: "channel_attempt \<Rightarrow> bool" and gen :: "nat \<Rightarrow> uuid" and clock :: "nat \<Rightarrow> timestamp" where
  empty: "delivery_reach bound gen clock empty_tables"
| more: "delivery_reach bound gen clock s \<Longrightarrow> delivery_step bound gen clock s s' \<Longrightarrow>
    delivery_reach bound gen clock s'"

lemma delivery_step_inv:
  assumes "delivery_inv s" and "delivery_step bound gen clock s s'"
  shows "delivery_inv s' \<and> extends_facts s s'"
  using assms(2)
proof cases
  case (writes att i r)
  then show ?thesis using assms(1) record_extends record_keeps_inv keepsD by metis
next
  case (reconciles stale intentId limit q)
  then show ?thesis using assms(1) reconcile_inv by blast
qed

lemma delivery_reach_inv: "delivery_reach bound gen clock s \<Longrightarrow> delivery_inv s"
proof (induction rule: delivery_reach.induct)
  case empty
  show ?case by (simp add: delivery_inv_def empty_tables_def facts_of_def)
qed (use delivery_step_inv in blast)

lemma chain_links:
  "delivery_chain a es \<Longrightarrow> Suc k < length es \<Longrightarrow>
   de_previous (es ! Suc k) = Some (de_id (es ! k))
   \<and> DeliveryTruthTransitionSchema Attempt_subject (de_state (es ! k)) (de_state (es ! Suc k))"
proof (induction rule: delivery_chain.induct)
  case (first e)
  then show ?case by simp
next
  case (next_fact es l e)
  show ?case
  proof (cases "Suc k = length (es @ [l])")
    case True
    then show ?thesis using next_fact by (simp add: nth_append truth_step_def)
  next
    case False
    then have "Suc k < length (es @ [l])" using next_fact.prems by simp
    with next_fact.IH show ?thesis by (auto simp: nth_append less_Suc_eq)
  qed
qed

lemma chain_nth:
  assumes "delivery_chain a es" and "k < length es"
  shows "de_sequence (es ! k) = int k + 1" "DeliveryEvidenceSchema (es ! k)"
proof -
  have "map de_sequence es ! k = map int [1 ..< Suc (length es)] ! k"
    using chain_sequences [OF assms(1)] by simp
  then show "de_sequence (es ! k) = int k + 1" using assms(2) by (simp del: upt_Suc)
  show "DeliveryEvidenceSchema (es ! k)" using chain_facts(1) [OF assms(1)] assms(2) by simp
qed

text \<open>C22: in every state that worker writes and reconciliations reach
  from empty tables, the facts of each attempt are one chain: they start with an attempted fact,
  are numbered from one, satisfy the evidence schema, and each one after the first points to the
  one before it and follows it by an allowed transition; and an attempt has facts exactly when it
  has its immutable row.\<close>

theorem delivery_tables_linked:
  assumes "delivery_reach bound gen clock s"
  shows "(facts_of s a \<noteq> [] \<longleftrightarrow> a \<in> a_id ` set (attempts s))
    \<and> (facts_of s a \<noteq> [] \<longrightarrow> de_state (hd (facts_of s a)) = D_attempted)
    \<and> (\<forall>k < length (facts_of s a).
          DeliveryEvidenceSchema (facts_of s a ! k) \<and> de_sequence (facts_of s a ! k) = int k + 1)
    \<and> (\<forall>k. Suc k < length (facts_of s a) \<longrightarrow>
          de_previous (facts_of s a ! Suc k) = Some (de_id (facts_of s a ! k))
          \<and> DeliveryTruthTransitionSchema Attempt_subject
              (de_state (facts_of s a ! k)) (de_state (facts_of s a ! Suc k)))"
proof (cases "facts_of s a = []")
  case True
  then show ?thesis using delivery_reach_inv [OF assms] by (auto simp: delivery_inv_def)
next
  case False
  note chain = delivery_invD [OF delivery_reach_inv [OF assms] False]
  show ?thesis
    using False chain(2) chain_first [OF chain(1)] chain_links [OF chain(1)] chain_nth [OF chain(1)]
    by simp
qed

text \<open>C10: no write and no reconciliation removes or rewrites a fact. Once
  the latest fact of an attempt is delivered or failed no step adds another one, and once it is
  expired the only fact that can follow is delivered.\<close>

theorem delivery_truth_is_final:
  assumes "delivery_reach bound gen clock s" and "delivery_step bound gen clock s s'"
    and "facts_of s a \<noteq> []"
  shows "\<exists>es. facts_of s' a = facts_of s a @ es
    \<and> (de_state (last (facts_of s a)) \<in> {D_delivered, D_failed} \<longrightarrow> es = [])
    \<and> (de_state (last (facts_of s a)) = D_expired \<longrightarrow> es = [] \<or> de_state (hd es) = D_delivered)"
proof -
  note step = delivery_step_inv [OF delivery_reach_inv [OF assms(1)] assms(2)]
  obtain es where es: "facts_of s' a = facts_of s a @ es"
    using extends_facts_of step by blast
  then have chain: "delivery_chain a (facts_of s a @ es)"
    using delivery_invD(1) [of s' a] step assms(3) by simp
  have "truth_step (de_state (last (facts_of s a))) (de_state (hd es))" if "es \<noteq> []"
  proof -
    obtain k where k: "length (facts_of s a) = Suc k" using assms(3) by (cases "facts_of s a") auto
    have "Suc k < length (facts_of s a @ es)" using k that by simp
    from chain_links [OF chain this] show ?thesis
      using k that assms(3)
      by (simp add: nth_append truth_step_def last_conv_nth hd_conv_nth)
  qed
  then have "es \<noteq> [] \<longrightarrow> de_state (last (facts_of s a)) \<notin> {D_delivered, D_failed}
      \<and> (de_state (last (facts_of s a)) = D_expired \<longrightarrow> de_state (hd es) = D_delivered)"
    by (auto simp: truth_step_def attempt_transition_iff)
  then show ?thesis using es by blast
qed

lemma sameAttempt_refl [simp]: "sameAttempt x x"
  by (simp add: sameAttempt_def)

lemma find_snoc: "find P (xs @ [x]) = (case find P xs of Some y \<Rightarrow> Some y | None \<Rightarrow> if P x then Some x else None)"
  by (induction xs) auto

text \<open>What a write left is what the same write finds.\<close>

lemma started_answers:
  assumes "delivery_inv s" and "delivery_inv s'" and "starts_attempt s att e s'" and "evidenceMatchesInput e i"
  shows "extend_attempt gen clock att i s' = (Inr e, s')"
    and "find (\<lambda>a. a_id a = a_id att) (attempts s) = None" and "attempts s' = attempts s @ [att]"
proof -
  have new: "facts_of s (a_id att) = []" and e: "de_subject e = Attempt_of (a_id att)" "de_sequence e = 1"
      "facts s' = facts s @ [e]" "de_state e = D_attempted"
    using assms(3) by (simp_all add: starts_attempt_def)
  show "attempts s' = attempts s @ [att]" using assms(3) by (simp add: starts_attempt_def)
  have "a_id att \<notin> a_id ` set (attempts s)" using assms(1) new by (auto simp: delivery_inv_def)
  then show "find (\<lambda>a. a_id a = a_id att) (attempts s) = None"
    unfolding find_None_iff by (metis imageI)
  have "facts_of s' (a_id att) = [e]" using facts_of_append [OF e(3), of "a_id att"] new e(1) by simp
  then have "loadFirstEvidence s' (a_id att) = Inr (Some e)"
    using loads(2) [of "a_id att" s'] delivery_invD(1) [OF assms(2), of "a_id att"] by simp
  moreover have "de_state i = D_attempted" using assms(4) e(4) by (simp add: evidenceMatchesInput_def)
  ultimately show "extend_attempt gen clock att i s' = (Inr e, s')"
    using e(2) assms(4) by (simp add: extend_attempt_def)
qed

lemma extended_answers:
  assumes "delivery_inv s'" and "de_subject i = Attempt_of (a_id att)" and "adds_fact s e s'" and "evidenceMatchesInput e i"
  shows "extend_attempt gen clock att i s' = (Inr e, s')" and "attempts s' = attempts s"
proof -
  show "attempts s' = attempts s" using assms(3) by (simp add: adds_fact_def)
  have e: "facts s' = facts s @ [e]" using assms(3) by (simp add: adds_fact_def)
  obtain b where b: "de_subject e = Attempt_of b" "truth_step (de_state (last (facts_of s b))) (de_state e)"
    using assms(3) by (auto simp: adds_fact_def)
  have "b = a_id att" using assms(2,4) b(1) by (simp add: evidenceMatchesInput_def)
  then have "facts_of s' (a_id att) = facts_of s (a_id att) @ [e]"
    using facts_of_append [OF e, of "a_id att"] b(1) by simp
  then have "loadLatestEvidence s' (a_id att) = Inr (Some e)"
    using loads(1) [of "a_id att" s'] delivery_invD(1) [OF assms(1), of "a_id att"] by simp
  moreover have "de_state i \<noteq> D_attempted"
    using assms(4) b(2) by (auto simp: evidenceMatchesInput_def truth_step_def attempt_transition_iff)
  ultimately show "extend_attempt gen clock att i s' = (Inr e, s')"
    using assms(4) by (simp add: extend_attempt_def)
qed

text \<open>Writing is idempotent. A write that succeeded, repeated at once,
  returns the very same fact and changes nothing, whether it started the attempt, appended a fact
  or was answered from the facts already there.\<close>

theorem delivery_write_replays:
  assumes "delivery_reach bound gen clock s"
    and run: "recordAttemptEvidence bound gen clock att i s = (Inr e, s')"
  shows "recordAttemptEvidence bound gen clock att i s' = (Inr e, s')"
proof -
  have inv: "delivery_inv s" using assms(1) by (rule delivery_reach_inv)
  have inv': "delivery_inv s'" using keepsD [OF record_keeps_inv inv run] .
  have req: "write_request_ok att i"
    and tx: "record_in_transaction bound gen clock att i s = (Inr e, s')"
    using run by (auto simp: recordAttemptEvidence_def split: if_splits dest: transactionC_Inr)
  have again: "recordAttemptEvidence bound gen clock att i s' = (Inr e, s')"
    if "record_in_transaction bound gen clock att i s' = (Inr e, s')"
    using that req by (simp add: recordAttemptEvidence_def transactionC_def)
  have att: "ChannelAttemptSchema att" using req by (simp add: write_request_ok_def)
  have key: "\<not> (case find (\<lambda>a. a_batchId a = a_batchId att \<and> a_endpointId a = a_endpointId att
      \<and> a_attemptNumber a = a_attemptNumber att) (attempts s) of None \<Rightarrow> False | Some k \<Rightarrow> a_id k \<noteq> a_id att)"
    using tx by (auto simp: record_in_transaction_def Let_def)
  from record_cases [OF inv run]
  consider "starts_attempt s att e s'" "evidenceMatchesInput e i"
    | "s' = s"
    | "a_id att \<in> a_id ` set (attempts s)" "adds_fact s e s'" "evidenceMatchesInput e i"
    by blast
  then show ?thesis
  proof cases
    case 1
    then show ?thesis
      using started_answers [OF inv inv' 1] key att
      by (intro again) (auto simp: record_in_transaction_def Let_def find_snoc attemptFromRow_def
          split: option.splits)
  next
    case 2
    then show ?thesis using run by simp
  next
    case 3
    obtain row where row: "find (\<lambda>a. a_id a = a_id att) (attempts s) = Some row"
      using 3(1) by (cases "find (\<lambda>a. a_id a = a_id att) (attempts s)") (auto simp: find_None_iff)
    have "attemptFromRow row = Inr row" "sameAttempt row att"
      using tx key row by (auto simp: record_in_transaction_def Let_def attemptFromRow_def split: if_splits)
    moreover have "de_subject i = Attempt_of (a_id att)"
      using req by (cases "de_subject i") (simp_all add: write_request_ok_def)
    ultimately show ?thesis
      using key row extended_answers [OF inv' _ 3(2,3)]
      by (intro again) (simp add: record_in_transaction_def Let_def)
  qed
qed

section \<open>A sample attempt\<close>

definition sample_attempt :: channel_attempt where
  "sample_attempt = \<lparr>n_eventId = nil_uuid, n_kind = Test_event, n_mode = Drill_mode,
     n_purpose = Activation, n_typeVersion = \<lparr>tv_id = nil_uuid, tv_mode = Drill_mode\<rparr>,
     n_rosterSnapshotId = nil_uuid, n_population = Synthetic, a_id = nil_uuid, a_batchId = nil_uuid,
     a_intentId = nil_uuid, a_recipientId = nil_uuid, a_endpointId = nil_uuid, a_channel = Push,
     a_attemptNumber = 1, a_attemptedAt = 0\<rparr>"

definition sample_fact :: "delivery_state \<Rightarrow> string option \<Rightarrow> evidence_fact" where
  "sample_fact st why = \<lparr>de_subject = Attempt_of nil_uuid, de_state = st, de_provider = None,
     de_reference = None, de_occurredAt = None, de_proof = None, de_reason = why, de_digest = None\<rparr>"

definition sample_ids :: "nat \<Rightarrow> uuid" where
  "sample_ids n = (if n = 0 then nil_uuid else max_uuid)"

definition sample_row :: "nat \<Rightarrow> delivery_state \<Rightarrow> string option \<Rightarrow> delivery_evidence" where
  "sample_row n st why = \<lparr>de_subject = Attempt_of nil_uuid, de_state = st, de_provider = None,
     de_reference = None, de_occurredAt = None, de_proof = None, de_reason = why, de_digest = None,
     de_id = sample_ids n, de_sequence = int n + 1,
     de_previous = (if n = 0 then None else Some nil_uuid), de_recordedAt = int n\<rparr>"

definition tables1 :: delivery_db where
  "tables1 = \<lparr>attempts = [sample_attempt], facts = [sample_row 0 D_attempted None],
     uuidsDrawn = 1, clockReads = 1\<rparr>"

definition tables2 :: delivery_db where
  "tables2 = \<lparr>attempts = [sample_attempt],
     facts = [sample_row 0 D_attempted None, sample_row 1 D_failed (Some ''REFUSED'')],
     uuidsDrawn = 2, clockReads = 2\<rparr>"

lemma reason_refused [simp]: "reason_code_ok ''REFUSED''"
  by code_simp

lemmas evidence_simps = RecordDeliveryEvidenceInputSchema_def DeliveryEvidenceSchema_def
  evidence_shape_def apns_unregistered_def

lemma sample_request_ok:
  "write_request_ok sample_attempt (sample_fact D_attempted None)"
  "write_request_ok sample_attempt (sample_fact D_failed (Some ''REFUSED''))"
  by (simp_all add: write_request_ok_def ChannelAttemptSchema_def sample_attempt_def sample_fact_def
      notification_shape_def EventTypeVersionRefSchema_def notification_targeting_ok_def
      NotificationTargetingSchema_def EventTargetingSchema_def n_targeting_def evidence_simps)

lemma sample_attempt_row [simp]: "attemptFromRow sample_attempt = Inr sample_attempt"
  using sample_request_ok(1) by (simp add: write_request_ok_def attemptFromRow_def)

lemma sample_write1:
  "recordAttemptEvidence (\<lambda>_. True) sample_ids int sample_attempt (sample_fact D_attempted None) empty_tables
     = (Inr (sample_row 0 D_attempted None), tables1)"
  using sample_request_ok(1)
  by (simp add: recordAttemptEvidence_def transactionC_def record_in_transaction_def empty_tables_def
      appendEvidence_def insert_fact_def Let_def next_evidence_def tables1_def)
     (simp add: sample_fact_def sample_row_def sample_ids_def evidence_simps)

lemma sample_rows_ok:
  "evidenceFromRow (sample_row 0 D_attempted None) = Inr (sample_row 0 D_attempted None)"
  "DeliveryEvidenceSchema (sample_row (Suc 0) D_failed (Some ''REFUSED''))"
  by (simp_all add: evidenceFromRow_def sample_row_def sample_ids_def evidence_simps)

lemma sample_write2:
  "recordAttemptEvidence (\<lambda>_. True) sample_ids int sample_attempt
     (sample_fact D_failed (Some ''REFUSED'')) tables1
     = (Inr (sample_row 1 D_failed (Some ''REFUSED'')), tables2)"
proof -
  let ?i = "sample_fact D_failed (Some ''REFUSED'')"
  have facts: "facts_of tables1 nil_uuid = [sample_row 0 D_attempted None]"
    by (simp add: facts_of_def tables1_def sample_row_def)
  have ids: "a_id sample_attempt = nil_uuid" by (simp add: sample_attempt_def)
  have latest: "loadLatestEvidence tables1 nil_uuid = Inr (Some (sample_row 0 D_attempted None))"
    by (simp add: loadLatestEvidence_def facts sample_rows_ok)
  have subj: "subject_id (de_subject ?i) = nil_uuid" by (simp add: sample_fact_def)
  have matching: "loadMatchingEvidence tables1 ?i = Inr None"
    by (simp add: loadMatchingEvidence_def subj facts sample_fact_def sample_row_def)
  have fact: "next_evidence (sample_ids (Suc 0)) 1 ?i (Some (sample_row 0 D_attempted None))
      = sample_row (Suc 0) D_failed (Some ''REFUSED'')"
    by (simp add: next_evidence_def sample_fact_def sample_row_def sample_ids_def)
  have st: "de_state ?i = D_failed"
    "DeliveryTruthTransitionSchema Attempt_subject (de_state (sample_row 0 D_attempted None)) D_failed"
    by (simp_all add: sample_fact_def sample_row_def attempt_transition_iff)
  have no_match: "\<not> evidenceMatchesInput (sample_row 0 D_attempted None) ?i"
    by (simp add: evidenceMatchesInput_def sample_fact_def sample_row_def)
  have no_answer: "strongerEvidenceDisposition (sample_row 0 D_attempted None) ?i = None"
    by (simp add: strongerEvidenceDisposition_def sample_fact_def sample_row_def
        isTerminalDeliveryTruthState_def TERMINAL_DELIVERY_TRUTH_STATES_def)
  have "extend_attempt sample_ids int sample_attempt ?i tables1
      = appendEvidence sample_ids int ?i (Some (sample_row 0 D_attempted None)) tables1"
    by (simp add: extend_attempt_def ids latest matching st no_match no_answer)
  also have "\<dots> = (Inr (sample_row 1 D_failed (Some ''REFUSED'')), tables2)"
    by (simp add: appendEvidence_def insert_fact_def Let_def tables1_def tables2_def fact sample_rows_ok(2))
       (simp add: sample_row_def sample_ids_def)
  finally show ?thesis
    using sample_request_ok(2)
    by (simp add: recordAttemptEvidence_def transactionC_def record_in_transaction_def Let_def)
       (simp add: tables1_def)
qed

lemma sample_reach:
  "delivery_reach (\<lambda>_. True) sample_ids int tables1" "delivery_reach (\<lambda>_. True) sample_ids int tables2"
proof -
  show r1: "delivery_reach (\<lambda>_. True) sample_ids int tables1"
    using delivery_reach.more [OF delivery_reach.empty delivery_step.writes [OF sample_write1]] .
  show "delivery_reach (\<lambda>_. True) sample_ids int tables2"
    using delivery_reach.more [OF r1 delivery_step.writes [OF sample_write2]] .
qed

lemma sample_facts2:
  "facts_of tables2 nil_uuid = [sample_row 0 D_attempted None, sample_row 1 D_failed (Some ''REFUSED'')]"
  by (simp add: facts_of_def tables2_def sample_row_def)

theorem delivery_tables_linked_witness:
  "de_previous (facts_of tables2 nil_uuid ! 1) = Some (de_id (facts_of tables2 nil_uuid ! 0))
   \<and> length (facts_of tables2 nil_uuid) = 2"
  using delivery_tables_linked [OF sample_reach(2), of nil_uuid] by (simp add: sample_facts2)

theorem delivery_truth_is_final_witness:
  "facts_of (snd (recordAttemptEvidence (\<lambda>_. True) sample_ids int sample_attempt
     (sample_fact D_delivered None) tables2)) nil_uuid
     = [sample_row 0 D_attempted None, sample_row 1 D_failed (Some ''REFUSED'')]"
  using delivery_truth_is_final [OF sample_reach(2)
      delivery_step.writes [OF surjective_pairing], of nil_uuid sample_attempt "sample_fact D_delivered None"]
  by (auto simp: sample_facts2 sample_row_def)

theorem delivery_write_replays_witness:
  "recordAttemptEvidence (\<lambda>_. True) sample_ids int sample_attempt
     (sample_fact D_failed (Some ''REFUSED'')) tables2
     = (Inr (sample_row 1 D_failed (Some ''REFUSED'')), tables2)"
  by (rule delivery_write_replays [OF sample_reach(1) sample_write2])

end
