(* ===== verification/Worker_Attempt.thy ===== *)
theory Worker_Attempt
  imports Notification "HOL-Library.Multiset" "HOL-Library.List_Lexorder" "HOL-Library.Char_ord"
begin

text \<open>
  \<open>workers/shared/attempt.ts\<close> and \<open>workers/shared/batch-message.ts\<close> with the
  endpoint schemas of \<open>contracts/src/roster.ts\<close>: what a notification worker checks before it
  talks to a provider, and the fingerprint that binds an attempt to its work. The text of a
  queue message is read and written by functions that are arguments (\<open>JSON.parse\<close> and
  \<open>JSON.stringify\<close> on a batch), as are the e-mail pattern of the schema library and SHA-256.
\<close>

section \<open>Endpoints\<close>

datatype endpoint_status = Endpoint_active | Endpoint_invalid | Endpoint_disabled
datatype push_platform = Ios | Android
datatype push_provider = Expo | Apns | Fcm
datatype service_environment = Development | Production

definition pushProviderMatchesPlatform :: "push_provider \<Rightarrow> push_platform \<Rightarrow> bool" where
  "pushProviderMatchesPlatform provider platform =
     (provider = Expo \<or> provider = Apns \<and> platform = Ios \<or> provider = Fcm \<and> platform = Android)"

datatype address =
  Push_address push_platform push_provider service_environment string
| Email_address string
| Sms_address string

record endpoint =
  ep_id :: uuid
  ep_status :: endpoint_status
  ep_capturedAt :: timestamp
  ep_address :: address

fun address_channel :: "address \<Rightarrow> channel" where
  "address_channel (Push_address _ _ _ _) = Push"
| "address_channel (Email_address _) = Email"
| "address_channel (Sms_address _) = Sms"

definition ep_channel :: "endpoint \<Rightarrow> channel" where
  "ep_channel e = address_channel (ep_address e)"

definition e164 :: "string \<Rightarrow> bool" where
  "e164 s = (case s of c # d # ds \<Rightarrow> c = CHR ''+'' \<and> ascii_digit d \<and> d \<noteq> CHR ''0''
                \<and> 7 \<le> length ds \<and> length ds \<le> 14 \<and> list_all ascii_digit ds
             | _ \<Rightarrow> False)"

fun address_ok :: "(string \<Rightarrow> bool) \<Rightarrow> address \<Rightarrow> bool" where
  "address_ok email_ok (Push_address platform provider env token) =
     (js_trim token = token \<and> 16 \<le> length token \<and> length token \<le> 4096
      \<and> pushProviderMatchesPlatform provider platform)"
| "address_ok email_ok (Email_address email) =
     (js_trim email = email \<and> email_ok email \<and> length email \<le> 320)"
| "address_ok email_ok (Sms_address phoneNumber) = e164 phoneNumber"

definition EndpointSchema :: "(string \<Rightarrow> bool) \<Rightarrow> endpoint \<Rightarrow> bool" where
  "EndpointSchema email_ok e = (uuid_ok (ep_id e) \<and> address_ok email_ok (ep_address e))"

section \<open>Queue messages\<close>

datatype batch_message_error = MESSAGE_TOO_LARGE | INVALID_JSON | INVALID_BATCH_MESSAGE

definition MAX_WORKER_MESSAGE_BYTES :: nat where
  "MAX_WORKER_MESSAGE_BYTES = 256 * 1024"

text \<open>
  A value of type \<open>string | unknown\<close> where a batch is expected: a body, a batch, or
  something of neither shape.
\<close>

datatype raw_batch = Body string | Candidate dispatch_batch | Other_value

definition parseJson :: "(string \<Rightarrow> raw_batch option) \<Rightarrow> string \<Rightarrow> (batch_message_error, raw_batch) result" where
  "parseJson json_parse s =
     (if length s > MAX_WORKER_MESSAGE_BYTES then Inl MESSAGE_TOO_LARGE
      else case json_parse s of None \<Rightarrow> Inl INVALID_JSON | Some v \<Rightarrow> Inr v)"

fun batch_value :: "raw_batch \<Rightarrow> dispatch_batch option" where
  "batch_value (Candidate b) = (if DispatchBatchSchema b then Some b else None)"
| "batch_value _ = None"

definition parseWorkerBatchMessage ::
  "(string \<Rightarrow> raw_batch option) \<Rightarrow> raw_batch \<Rightarrow> (batch_message_error, dispatch_batch) result" where
  "parseWorkerBatchMessage json_parse value =
     bindR (case value of Body s \<Rightarrow> parseJson json_parse s | v \<Rightarrow> Inr v) (\<lambda>candidate.
       case batch_value candidate of None \<Rightarrow> Inl INVALID_BATCH_MESSAGE | Some b \<Rightarrow> Inr b)"

definition serializeWorkerBatchMessage ::
  "(string \<Rightarrow> raw_batch option) \<Rightarrow> (dispatch_batch \<Rightarrow> string) \<Rightarrow> raw_batch
     \<Rightarrow> (batch_message_error, string) result" where
  "serializeWorkerBatchMessage json_parse json_text v =
     bindR (parseWorkerBatchMessage json_parse v) (\<lambda>b.
       if length (json_text b) > MAX_WORKER_MESSAGE_BYTES then Inl MESSAGE_TOO_LARGE
       else Inr (json_text b))"

definition workerBatchDeduplicationKey ::
  "(string \<Rightarrow> raw_batch option) \<Rightarrow> raw_batch \<Rightarrow> (batch_message_error, uuid) result" where
  "workerBatchDeduplicationKey json_parse v =
     bindR (parseWorkerBatchMessage json_parse v) (\<lambda>b. Inr (b_id b))"

lemma parseWorkerBatchMessage_Inr:
  "parseWorkerBatchMessage json_parse v = Inr b \<longleftrightarrow>
     DispatchBatchSchema b
     \<and> (v = Candidate b \<or> (\<exists>s. v = Body s \<and> length s \<le> MAX_WORKER_MESSAGE_BYTES
                                 \<and> json_parse s = Some (Candidate b)))"
proof -
  have bv: "batch_value c = Some b \<longleftrightarrow> c = Candidate b \<and> DispatchBatchSchema b" for c
    by (cases c) auto
  show ?thesis
    by (cases v)
       (auto simp: parseWorkerBatchMessage_def parseJson_def bindR_Inr_iff bv
          split: option.splits)
qed

text \<open>A body that a dispatcher serializes is read back by a worker
  as the same batch, whose deduplication key is the ID of the batch, provided that
  \<open>JSON.parse\<close> reads what \<open>JSON.stringify\<close> wrote for it.\<close>

theorem batch_message_roundtrip:
  assumes "json_parse (json_text b) = Some (Candidate b)"
    and "parseWorkerBatchMessage json_parse v = Inr b"
    and "serializeWorkerBatchMessage json_parse json_text v = Inr s"
  shows "parseWorkerBatchMessage json_parse (Body s) = Inr b
    \<and> workerBatchDeduplicationKey json_parse (Body s) = Inr (b_id b)"
  using assms
  by (auto simp: serializeWorkerBatchMessage_def workerBatchDeduplicationKey_def bindR_Inr_iff
      parseWorkerBatchMessage_Inr split: if_splits)

section \<open>Work items\<close>

datatype worker_attempt_error =
  INVALID_ATTEMPT_WORK_ITEM | ATTEMPT_BATCH_MISMATCH | ATTEMPT_ENDPOINT_MISMATCH
| INACTIVE_ENDPOINT | ROUTABLE_SYNTHETIC_ENDPOINT

record work_item =
  w_batch :: dispatch_batch
  w_attempt :: channel_attempt
  w_endpoint :: endpoint

text \<open>
  An unknown value: not a plain object with exactly the keys \<open>batch\<close>, \<open>attempt\<close> and
  \<open>endpoint\<close>, or one whose last two parts may lack the shape of their schema.
\<close>

datatype raw_work =
  Not_plain_record
| Raw_work raw_batch "channel_attempt option" "endpoint option"

definition starts_with :: "string \<Rightarrow> string \<Rightarrow> bool" where
  "starts_with s p = (take (length p) s = p)"

definition ends_with :: "string \<Rightarrow> string \<Rightarrow> bool" where
  "ends_with s p = starts_with (rev s) (rev p)"

definition to_lower :: "char \<Rightarrow> char" where
  "to_lower c = (if ascii_upper c then char_of ((of_char c :: nat) + 32) else c)"

definition lastIndexOf_at :: "string \<Rightarrow> nat option" where
  "lastIndexOf_at s =
     (let tail = takeWhile (\<lambda>c. c \<noteq> CHR ''@'') (rev s)
      in if length tail = length s then None else Some (length s - length tail - 1))"

definition syntheticEndpointIsUnroutable :: "endpoint \<Rightarrow> bool" where
  "syntheticEndpointIsUnroutable e =
     (case ep_address e of
        Push_address _ _ _ token \<Rightarrow> starts_with token ''synthetic-unroutable:''
      | Email_address email \<Rightarrow>
          (case lastIndexOf_at email of None \<Rightarrow> False
           | Some separator \<Rightarrow> separator > 0
               \<and> ends_with (map to_lower (drop (separator + 1) email)) ''.invalid'')
      | Sms_address p \<Rightarrow>
          (starts_with p ''+120255501'' \<and> length p = 12 \<and> list_all ascii_digit (drop 10 p))
          \<or> (starts_with p ''+999'' \<and> length p = 16 \<and> list_all ascii_digit (drop 4 p)))"

definition attemptMatchesBatch :: "channel_attempt \<Rightarrow> dispatch_batch \<Rightarrow> bool" where
  "attemptMatchesBatch a b =
     (a_batchId a = b_id b \<and> a_intentId a = b_intentId b \<and> n_eventId a = n_eventId b
      \<and> n_kind a = n_kind b \<and> n_mode a = n_mode b \<and> n_purpose a = n_purpose b
      \<and> tv_id (n_typeVersion a) = tv_id (n_typeVersion b)
      \<and> tv_mode (n_typeVersion a) = tv_mode (n_typeVersion b)
      \<and> n_rosterSnapshotId a = n_rosterSnapshotId b
      \<and> n_population a = n_population b \<and> a_channel a = b_channel b
      \<and> a_attemptedAt a \<ge> b_createdAt b)"

text \<open>The parsers of the outside: \<open>JSON.parse\<close> on a batch, and the e-mail pattern.\<close>

record outside =
  json_parse :: "string \<Rightarrow> raw_batch option"
  email_ok :: "string \<Rightarrow> bool"

definition parseWorkerAttemptWorkItem :: "outside \<Rightarrow> raw_work \<Rightarrow> (worker_attempt_error, work_item) result" where
  "parseWorkerAttemptWorkItem env value =
     (case value of
        Not_plain_record \<Rightarrow> Inl INVALID_ATTEMPT_WORK_ITEM
      | Raw_work rb ra re \<Rightarrow>
          (case parseWorkerBatchMessage (json_parse env) rb of
             Inl _ \<Rightarrow> Inl INVALID_ATTEMPT_WORK_ITEM
           | Inr batch \<Rightarrow>
               (case (ra, re) of
                  (Some attempt, Some endpoint) \<Rightarrow>
                    if \<not> ChannelAttemptSchema attempt \<or> \<not> EndpointSchema (email_ok env) endpoint
                    then Inl INVALID_ATTEMPT_WORK_ITEM
                    else if \<not> attemptMatchesBatch attempt batch then Inl ATTEMPT_BATCH_MISMATCH
                    else if a_endpointId attempt \<noteq> ep_id endpoint \<or> a_channel attempt \<noteq> ep_channel endpoint
                    then Inl ATTEMPT_ENDPOINT_MISMATCH
                    else if ep_status endpoint \<noteq> Endpoint_active then Inl INACTIVE_ENDPOINT
                    else if n_population attempt = Synthetic \<and> \<not> syntheticEndpointIsUnroutable endpoint
                    then Inl ROUTABLE_SYNTHETIC_ENDPOINT
                    else Inr \<lparr>w_batch = batch, w_attempt = attempt, w_endpoint = endpoint\<rparr>
                | _ \<Rightarrow> Inl INVALID_ATTEMPT_WORK_ITEM)))"

text \<open>What a worker knows of an item that it accepted.\<close>

definition work_ok :: "outside \<Rightarrow> work_item \<Rightarrow> bool" where
  "work_ok env x =
     (DispatchBatchSchema (w_batch x) \<and> ChannelAttemptSchema (w_attempt x)
      \<and> EndpointSchema (email_ok env) (w_endpoint x)
      \<and> attemptMatchesBatch (w_attempt x) (w_batch x)
      \<and> a_endpointId (w_attempt x) = ep_id (w_endpoint x)
      \<and> a_channel (w_attempt x) = ep_channel (w_endpoint x)
      \<and> ep_status (w_endpoint x) = Endpoint_active
      \<and> (n_population (w_attempt x) = Synthetic \<longrightarrow> syntheticEndpointIsUnroutable (w_endpoint x)))"

lemma parse_work_ok:
  assumes "parseWorkerAttemptWorkItem env v = Inr x"
  shows "work_ok env x"
    and "parseWorkerAttemptWorkItem env (Raw_work (Candidate (w_batch x)) (Some (w_attempt x)) (Some (w_endpoint x)))
      = Inr x"
proof -
  obtain rb ra re where v: "v = Raw_work rb (Some ra) (Some re)"
    using assms by (auto simp: parseWorkerAttemptWorkItem_def split: raw_work.splits sum.splits option.splits)
  obtain b where b: "parseWorkerBatchMessage (json_parse env) rb = Inr b"
    using assms v by (auto simp: parseWorkerAttemptWorkItem_def split: sum.splits)
  then have sb: "DispatchBatchSchema b" by (simp add: parseWorkerBatchMessage_Inr)
  then have again: "parseWorkerBatchMessage (json_parse env) (Candidate b) = Inr b"
    by (simp add: parseWorkerBatchMessage_Inr)
  show "work_ok env x"
    using assms sb by (auto simp: v b work_ok_def parseWorkerAttemptWorkItem_def split: if_splits)
  show "parseWorkerAttemptWorkItem env (Raw_work (Candidate (w_batch x)) (Some (w_attempt x)) (Some (w_endpoint x)))
      = Inr x"
    using assms again by (auto simp: v b parseWorkerAttemptWorkItem_def split: if_splits)
qed

lemma lastIndexOf_at_split:
  assumes "lastIndexOf_at email = Some i" and "i > 0"
  shows "\<exists>user. email = user @ ''@'' @ drop (i + 1) email \<and> user \<noteq> [] \<and> CHR ''@'' \<notin> set (drop (i + 1) email)"
proof -
  let ?P = "\<lambda>c. c \<noteq> CHR ''@''"
  define tl where "tl = takeWhile ?P (rev email)"
  have ne: "length tl \<noteq> length email" and i: "i = length email - length tl - 1"
    using assms(1) by (auto simp: lastIndexOf_at_def Let_def tl_def split: if_splits)
  have split: "rev email = tl @ dropWhile ?P (rev email)"
    unfolding tl_def by (rule takeWhile_dropWhile_id [symmetric])
  have "dropWhile ?P (rev email) \<noteq> []"
  proof
    assume "dropWhile ?P (rev email) = []"
    then have "tl = rev email" using split by (metis append_Nil2)
    then show False using ne by simp
  qed
  then obtain c u where d: "dropWhile ?P (rev email) = c # u"
    by (cases "dropWhile ?P (rev email)") auto
  have c: "c = CHR ''@''" using hd_dropWhile [of ?P "rev email"] d by simp
  have "rev (rev email) = rev (tl @ c # u)" using split d by simp
  then have e: "email = rev u @ ''@'' @ rev tl" using c by simp
  have iu: "i = length u" using i by (simp add: e)
  have "CHR ''@'' \<notin> set (rev tl)" by (auto simp: tl_def dest: set_takeWhileD)
  moreover have "drop (i + 1) email = rev tl" using iu by (simp add: e)
  ultimately show ?thesis
    using e iu assms(2) by (intro exI [of _ "rev u"]) auto
qed

lemma starts_with_split: "starts_with s p \<Longrightarrow> s = p @ drop (length p) s"
  unfolding starts_with_def by (metis append_take_drop_id)

lemma starts_with_at: "starts_with s p \<Longrightarrow> k = length p \<Longrightarrow> s = p @ drop k s"
  by (simp only: starts_with_split)

lemma ends_with_split: "ends_with s p \<Longrightarrow> \<exists>h. s = h @ p"
  unfolding ends_with_def by (metis starts_with_split rev_append rev_rev_ident)

text \<open>The addresses that no provider delivers to.\<close>

definition unroutable :: "address \<Rightarrow> bool" where
  "unroutable a =
     (case a of
        Push_address _ _ _ token \<Rightarrow> \<exists>t. token = ''synthetic-unroutable:'' @ t
      | Email_address email \<Rightarrow> \<exists>user host. email = user @ ''@'' @ host \<and> user \<noteq> []
          \<and> CHR ''@'' \<notin> set host \<and> (\<exists>h. map to_lower host = h @ ''.invalid'')
      | Sms_address number \<Rightarrow> \<exists>ds. number = ''+120255501'' @ ds \<and> length ds = 2
          \<or> number = ''+999'' @ ds \<and> length ds = 12)"

lemma unroutable_addresses:
  assumes "syntheticEndpointIsUnroutable e"
  shows "unroutable (ep_address e)"
proof (cases "ep_address e")
  case (Push_address p v n token)
  then have "starts_with token ''synthetic-unroutable:''"
    using assms by (simp only: syntheticEndpointIsUnroutable_def address.case)
  then show ?thesis
    unfolding Push_address unroutable_def address.case by (blast dest: starts_with_split)
next
  case (Email_address email)
  then obtain i where i: "lastIndexOf_at email = Some i" "i > 0"
    and e: "ends_with (map to_lower (drop (i + 1) email)) ''.invalid''"
    using assms by (auto simp only: syntheticEndpointIsUnroutable_def address.case split: option.splits)
  show ?thesis
    using lastIndexOf_at_split [OF i] ends_with_split [OF e]
    unfolding Email_address unroutable_def address.case by blast
next
  case (Sms_address n)
  then consider "starts_with n ''+120255501''" "length n = 12" | "starts_with n ''+999''" "length n = 16"
    using assms by (auto simp only: syntheticEndpointIsUnroutable_def address.case)
  then have "n = ''+120255501'' @ drop 10 n \<and> length (drop 10 n) = 2
      \<or> n = ''+999'' @ drop 4 n \<and> length (drop 4 n) = 12"
  proof cases
    case 1
    from starts_with_at [OF this(1), of 10] have "n = ''+120255501'' @ drop 10 n" by simp
    then show ?thesis using 1(2) by simp
  next
    case 2
    from starts_with_at [OF this(1), of 4] have "n = ''+999'' @ drop 4 n" by simp
    then show ?thesis using 2(2) by simp
  qed
  then show ?thesis unfolding Sms_address unroutable_def address.case by blast
qed

text \<open>C28: a worker accepts an item only when the attempt is one of its
  batch, and both describe one notification: the same intent, event, kind, mode, purpose, event type
  version, roster snapshot, population and channel, the attempt not before the batch. The endpoint is
  the active one that the attempt names, of that channel. An attempt on a synthetic roster is
  accepted only for an address that no provider can route, so a rehearsal cannot reach a person, and
  a message for staff or partners is never accepted for an event of another population.\<close>

theorem exercises_reach_nobody:
  assumes "parseWorkerAttemptWorkItem env v = Inr x"
  shows "a_batchId (w_attempt x) = b_id (w_batch x) \<and> a_intentId (w_attempt x) = b_intentId (w_batch x)
    \<and> n_eventId (w_attempt x) = n_eventId (w_batch x) \<and> n_purpose (w_attempt x) = n_purpose (w_batch x)
    \<and> n_typeVersion (w_attempt x) = n_typeVersion (w_batch x)
    \<and> n_rosterSnapshotId (w_attempt x) = n_rosterSnapshotId (w_batch x)
    \<and> b_createdAt (w_batch x) \<le> a_attemptedAt (w_attempt x)
    \<and> a_endpointId (w_attempt x) = ep_id (w_endpoint x)
    \<and> n_population (w_batch x) = n_population (w_attempt x)
    \<and> n_kind (w_batch x) = n_kind (w_attempt x) \<and> n_mode (w_batch x) = n_mode (w_attempt x)
    \<and> b_channel (w_batch x) = ep_channel (w_endpoint x)
    \<and> ep_status (w_endpoint x) = Endpoint_active
    \<and> (n_population (w_batch x) = Synthetic \<longrightarrow>
        unroutable (ep_address (w_endpoint x)))"
proof -
  have ok: "work_ok env x" using assms by (rule parse_work_ok(1))
  then show ?thesis
    using unroutable_addresses [of "w_endpoint x"]
    by (auto simp: work_ok_def attemptMatchesBatch_def)
qed

section \<open>Fingerprints\<close>

text \<open>\<open>JSON.stringify\<close> of a string: quotes, with quotes, backslashes and control characters escaped.\<close>

definition hex_digit :: "nat \<Rightarrow> char" where
  "hex_digit n = char_of (if n < 10 then 48 + n else 87 + n)"

definition json_escape :: "char \<Rightarrow> string" where
  "json_escape c =
     (let n = (of_char c :: nat); bs = CHR 0x5C in
      if n = 34 \<or> n = 92 then [bs, c]
      else if n = 8 then [bs, CHR ''b''] else if n = 9 then [bs, CHR ''t'']
      else if n = 10 then [bs, CHR ''n''] else if n = 12 then [bs, CHR ''f'']
      else if n = 13 then [bs, CHR ''r'']
      else if n < 32 then [bs, CHR ''u'', CHR ''0'', CHR ''0'', hex_digit (n div 16), hex_digit (n mod 16)]
      else [c])"

definition json_quote :: "string \<Rightarrow> string" where
  "json_quote s = [CHR 0x22] @ concat (map json_escape s) @ [CHR 0x22]"

fun join_comma :: "string list \<Rightarrow> string" where
  "join_comma [] = []"
| "join_comma [s] = s"
| "join_comma (s # t # ts) = s @ '','' @ join_comma (t # ts)"

text \<open>
  \<open>stableJson\<close>: \<open>show_number\<close> is \<open>JSON.stringify\<close> on numbers. The pairs of an object are
  sorted by key after their values were written, which gives the text of the source.
\<close>

primrec stableJson :: "(js_number \<Rightarrow> string) \<Rightarrow> js_value \<Rightarrow> string" where
  "stableJson show_number JUndefined = ''undefined''"
| "stableJson show_number JNull = ''null''"
| "stableJson show_number (JBool b) = (if b then ''true'' else ''false'')"
| "stableJson show_number (JNum n) = show_number n"
| "stableJson show_number (JStr s) = json_quote s"
| "stableJson show_number (JArr vs) = ''['' @ join_comma (map (stableJson show_number) vs) @ '']''"
| "stableJson show_number (JObj fs) =
     ''{'' @ join_comma (map (\<lambda>(k, t). json_quote k @ '':'' @ t)
       (sort_key fst (map (map_prod id (stableJson show_number)) fs))) @ ''}''"

definition workerAttemptFingerprint ::
  "outside \<Rightarrow> (js_number \<Rightarrow> string) \<Rightarrow> (string \<Rightarrow> string) \<Rightarrow> (work_item \<Rightarrow> js_value) \<Rightarrow> raw_work
     \<Rightarrow> (worker_attempt_error, string) result" where
  "workerAttemptFingerprint env show_number sha256_hex json_of value =
     bindR (parseWorkerAttemptWorkItem env value) (\<lambda>x. Inr (sha256_hex (stableJson show_number (json_of x))))"

lemma distinct_singleton: "set xs = {k} \<Longrightarrow> distinct xs \<Longrightarrow> xs = [k]"
  by (cases xs; cases "tl xs") auto

lemma sort_key_distinct_mset:
  assumes "mset xs = mset ys" and "distinct (map f xs)"
  shows "sort_key f xs = sort_key f ys"
proof (rule properties_for_sort_key)
  show "mset (sort_key f ys) = mset xs" using assms(1) by simp
  show "sorted (map f (sort_key f ys))" by simp
  fix k assume "k \<in> set (sort_key f ys)"
  have inj: "inj_on f (set xs)" using assms(2) by (simp add: distinct_map)
  have sets: "set ys = set xs" using assms(1) by (metis set_mset_mset)
  have "filter (\<lambda>x. f k = f x) zs = [k]" if "mset zs = mset xs" for zs
  proof -
    have sz: "set zs = set xs" using that by (metis set_mset_mset)
    have "distinct zs"
      using assms(2) mset_eq_imp_distinct_iff [OF that] by (simp add: distinct_map)
    then have d: "distinct (filter (\<lambda>x. f k = f x) zs)" by simp
    have "set (filter (\<lambda>x. f k = f x) zs) = {k}"
      using inj \<open>k \<in> set (sort_key f ys)\<close> sets sz by (auto simp: inj_on_def)
    then show ?thesis using d by (rule distinct_singleton)
  qed
  then show "filter (\<lambda>x. f k = f x) (sort_key f ys) = filter (\<lambda>x. f k = f x) xs"
    using assms(1) by simp
qed

text \<open>Two values that differ in the order of properties only, at any depth.\<close>

inductive same_json :: "js_value \<Rightarrow> js_value \<Rightarrow> bool" where
  same: "same_json v v"
| same_list: "list_all2 same_json vs ws \<Longrightarrow> same_json (JArr vs) (JArr ws)"
| same_object: "list_all2 (rel_prod (=) same_json) fs gs \<Longrightarrow> distinct (map fst fs) \<Longrightarrow>
    mset hs = mset gs \<Longrightarrow> same_json (JObj fs) (JObj hs)"

lemma same_keys: "list_all2 (rel_prod (=) R) fs gs \<Longrightarrow> map fst fs = map fst gs"
  by (induction rule: list_all2_induct) auto

lemma mapped_pairs:
  "list_all2 (rel_prod (=) (\<lambda>x y. R x y \<and> f x = f y)) fs gs \<Longrightarrow>
     map (map_prod id f) fs = map (map_prod id f) gs"
  by (induction rule: list_all2_induct) auto

text \<open>The text that is hashed does not depend on the order in which
  objects list their properties, at any depth.\<close>

theorem stable_json_key_order:
  assumes "same_json v w"
  shows "stableJson show_number v = stableJson show_number w"
  using assms
proof (induction rule: same_json.induct)
  case (same_list vs ws)
  then have "map (stableJson show_number) vs = map (stableJson show_number) ws"
    by (simp add: list_all2_conv_all_nth list_eq_iff_nth_eq)
  then show ?case by simp
next
  case (same_object fs gs hs)
  let ?m = "map (map_prod id (stableJson show_number))"
  have keys: "map fst fs = map fst gs" using same_object(1) by (rule same_keys)
  have "?m fs = ?m gs" using same_object(1) by (rule mapped_pairs)
  moreover have "sort_key fst (?m gs) = sort_key fst (?m hs)"
  proof (rule sort_key_distinct_mset)
    show "mset (?m gs) = mset (?m hs)" using same_object(3) by simp
    show "distinct (map fst (?m gs))" using same_object(2) keys by (simp add: comp_def)
  qed
  ultimately show ?case by simp
qed simp

theorem stable_json_key_order_witness:
  "stableJson (\<lambda>_. ''1'') (JArr [JObj [(''b'', JNull), (''a'', JNum (Finite 1))]])
     = stableJson (\<lambda>_. ''1'') (JArr [JObj [(''a'', JNum (Finite 1)), (''b'', JNull)]])"
proof (rule stable_json_key_order, rule same_json.same_list)
  have "same_json (JObj [(''b'', JNull), (''a'', JNum (Finite 1))])
      (JObj [(''a'', JNum (Finite 1)), (''b'', JNull)])"
    by (rule same_json.same_object [of _ "[(''b'', JNull), (''a'', JNum (Finite 1))]"])
       (auto intro: same_json.same)
  then show "list_all2 same_json [JObj [(''b'', JNull), (''a'', JNum (Finite 1))]]
      [JObj [(''a'', JNum (Finite 1)), (''b'', JNull)]]"
    by simp
qed

section \<open>A rehearsal on synthetic data\<close>

definition rehearsal_batch :: dispatch_batch where
  "rehearsal_batch = sample_batch\<lparr>n_population := Synthetic,
     n_authorization := For_activation (Synthetic_training nil_uuid zero_digest nil_uuid)\<rparr>"

definition rehearsal_attempt :: channel_attempt where
  "rehearsal_attempt = \<lparr>n_eventId = nil_uuid, n_kind = Drill, n_mode = Drill_mode,
     n_purpose = Activation, n_typeVersion = \<lparr>tv_id = nil_uuid, tv_mode = Drill_mode\<rparr>,
     n_rosterSnapshotId = nil_uuid, n_population = Synthetic, a_id = nil_uuid, a_batchId = nil_uuid,
     a_intentId = nil_uuid, a_recipientId = nil_uuid, a_endpointId = nil_uuid, a_channel = Email,
     a_attemptNumber = 1, a_attemptedAt = 5\<rparr>"

definition rehearsal_endpoint :: endpoint where
  "rehearsal_endpoint = \<lparr>ep_id = nil_uuid, ep_status = Endpoint_active, ep_capturedAt = 0,
     ep_address = Email_address ''a@b.invalid''\<rparr>"

definition rehearsal_item :: work_item where
  "rehearsal_item = \<lparr>w_batch = rehearsal_batch, w_attempt = rehearsal_attempt, w_endpoint = rehearsal_endpoint\<rparr>"

definition rehearsal_work :: raw_work where
  "rehearsal_work = Raw_work (Candidate rehearsal_batch) (Some rehearsal_attempt) (Some rehearsal_endpoint)"

definition sample_outside :: outside where
  "sample_outside = \<lparr>json_parse = (\<lambda>_. None), email_ok = (\<lambda>_. True)\<rparr>"

lemma rehearsal_batch_ok: "DispatchBatchSchema rehearsal_batch"
proof -
  have row: "\<lparr>cp_channel = b_channel rehearsal_batch, cp_endpointCount = b_endpointCount rehearsal_batch,
      cp_message = b_message rehearsal_batch, cp_integrationId = b_integrationId rehearsal_batch\<rparr> = sample_email"
    by (simp add: rehearsal_batch_def sample_batch_def sample_email_def)
  have "RenderedMessageSchema (b_message rehearsal_batch)" "IntegrationIdSchema (b_integrationId rehearsal_batch)"
    using sample_previews_ok(2)
    by (simp_all add: ChannelConsequencePreviewSchema_def rehearsal_batch_def sample_batch_def sample_email_def)
  then show ?thesis
    using sample_previews_ok(2) unfolding DispatchBatchSchema_def row
    by (simp add: rehearsal_batch_def sample_batch_def notification_simps)
       (simp add: sample_email_def sample_message_def)
qed

lemma rehearsal_unroutable: "syntheticEndpointIsUnroutable rehearsal_endpoint"
  by code_simp

lemma rehearsal_address: "js_trim ''a@b.invalid'' = ''a@b.invalid''"
  by code_simp

lemma rehearsal_accepted: "parseWorkerAttemptWorkItem sample_outside rehearsal_work = Inr rehearsal_item"
proof -
  have "ChannelAttemptSchema rehearsal_attempt"
    by (simp add: ChannelAttemptSchema_def rehearsal_attempt_def notification_simps)
  moreover have "EndpointSchema (email_ok sample_outside) rehearsal_endpoint"
    by (simp add: EndpointSchema_def rehearsal_endpoint_def sample_outside_def rehearsal_address)
  moreover have "attemptMatchesBatch rehearsal_attempt rehearsal_batch"
    by (simp add: attemptMatchesBatch_def rehearsal_attempt_def rehearsal_batch_def sample_batch_def)
  moreover have "parseWorkerBatchMessage p (Candidate rehearsal_batch) = Inr rehearsal_batch" for p
    by (simp add: parseWorkerBatchMessage_Inr rehearsal_batch_ok)
  ultimately show ?thesis
    using rehearsal_unroutable
    by (simp add: parseWorkerAttemptWorkItem_def rehearsal_work_def rehearsal_item_def)
       (simp add: rehearsal_attempt_def rehearsal_endpoint_def ep_channel_def)
qed

theorem exercises_reach_nobody_witness:
  "n_population (w_batch rehearsal_item) = Synthetic \<and> unroutable (ep_address (w_endpoint rehearsal_item))"
  using exercises_reach_nobody [OF rehearsal_accepted]
  by (simp add: rehearsal_item_def rehearsal_batch_def)

theorem batch_message_roundtrip_witness:
  "workerBatchDeduplicationKey (\<lambda>_. Some (Candidate sample_batch)) (Body ''{}'') = Inr nil_uuid"
proof -
  have "parseWorkerBatchMessage (\<lambda>_. Some (Candidate sample_batch)) (Candidate sample_batch) = Inr sample_batch"
    by (simp add: parseWorkerBatchMessage_Inr sample_batch_ok)
  moreover from this have "serializeWorkerBatchMessage (\<lambda>_. Some (Candidate sample_batch)) (\<lambda>_. ''{}'')
      (Candidate sample_batch) = Inr ''{}''"
    by (simp add: serializeWorkerBatchMessage_def MAX_WORKER_MESSAGE_BYTES_def)
  ultimately have "workerBatchDeduplicationKey (\<lambda>_. Some (Candidate sample_batch)) (Body ''{}'')
      = Inr (b_id sample_batch)"
    using batch_message_roundtrip [where json_text = "\<lambda>_. ''{}''" and b = sample_batch
        and json_parse = "\<lambda>_. Some (Candidate sample_batch)" and v = "Candidate sample_batch" and s = "''{}''"]
    by simp
  then show ?thesis by (simp add: sample_batch_def)
qed

end
