(* ===== verification/Processor_Codec.thy ===== *)
theory Processor_Codec
  imports Worker_Attempt Attempt_Store Retry Delivery_Evidence
begin

text \<open>
  \<open>workers/shared/processor.ts\<close>: the durable processing of one channel attempt for a queue
  that may deliver it any number of times. A processor is a record of what its constructor was
  given. The provider, the send authorizer, the random source and the other workers that use
  the same store are functions of the calls made so far, so every behaviour of theirs is one
  choice of these functions; the store and the evidence writer act on the two components of
  the world. The world also logs the calls, newest first. An instant in a stored or provider
  value is text; \<open>read_instant\<close> and \<open>show_instant\<close> are the ISO 8601 reader and writer.
\<close>

section \<open>Provider outcomes\<close>

record send_outcome =
  so_state :: delivery_state
  so_provider :: "string option"
  so_reference :: "string option"
  so_occurredAt :: "timestamp option"
  so_proof :: "delivery_proof option"
  so_reason :: "string option"
  so_digest :: "digest option"

definition with_subject :: "uuid \<Rightarrow> send_outcome \<Rightarrow> evidence_fact" where
  "with_subject a s =
     \<lparr>de_subject = Attempt_of a, de_state = so_state s, de_provider = so_provider s,
      de_reference = so_reference s, de_occurredAt = so_occurredAt s, de_proof = so_proof s,
      de_reason = so_reason s, de_digest = so_digest s\<rparr>"

definition outcome_of :: "evidence_fact \<Rightarrow> send_outcome" where
  "outcome_of i =
     \<lparr>so_state = de_state i, so_provider = de_provider i, so_reference = de_reference i,
      so_occurredAt = de_occurredAt i, so_proof = de_proof i, so_reason = de_reason i,
      so_digest = de_digest i\<rparr>"

lemma outcome_with_subject [simp]: "outcome_of (with_subject a s) = s"
  by (simp add: outcome_of_def with_subject_def)

section \<open>Reading evidence from an unknown value\<close>

text \<open>
  \<open>RecordDeliveryEvidenceInputSchema.safeParse\<close> on an object: strict objects, trimmed
  strings, and then the refinement on the typed fact.
\<close>

fun state_name :: "delivery_state \<Rightarrow> string" where
  "state_name D_accepted = ''accepted''"
| "state_name D_recorded = ''recorded''"
| "state_name D_attempted = ''attempted''"
| "state_name D_provider_accepted = ''provider-accepted''"
| "state_name D_delivered = ''delivered''"
| "state_name D_failed = ''failed''"
| "state_name D_expired = ''expired''"
| "state_name D_unknown = ''unknown''"

definition all_states :: "delivery_state list" where
  "all_states = [D_accepted, D_recorded, D_attempted, D_provider_accepted, D_delivered, D_failed,
     D_expired, D_unknown]"

fun read_state :: "js_value \<Rightarrow> delivery_state option" where
  "read_state (JStr s) = find (\<lambda>d. state_name d = s) all_states"
| "read_state _ = None"

definition strict_keys :: "(string \<times> js_value) list \<Rightarrow> string list \<Rightarrow> bool" where
  "strict_keys fs ks = list_all (\<lambda>f. fst f \<in> set ks) fs"

fun read_uuid :: "js_value \<Rightarrow> uuid option" where
  "read_uuid (JStr s) = (if uuid_ok s then Some s else None)"
| "read_uuid _ = None"

fun read_subject :: "js_value \<Rightarrow> delivery_subject option" where
  "read_subject (JObj fs) =
     (if js_field fs ''kind'' = JStr ''intent'' \<and> strict_keys fs [''kind'', ''intentId'']
      then map_option Intent_of (read_uuid (js_field fs ''intentId''))
      else if js_field fs ''kind'' = JStr ''attempt'' \<and> strict_keys fs [''kind'', ''attemptId'']
      then map_option Attempt_of (read_uuid (js_field fs ''attemptId''))
      else None)"
| "read_subject _ = None"

fun read_text :: "nat \<Rightarrow> js_value \<Rightarrow> string option" where
  "read_text n (JStr s) =
     (let t = js_trim s in if 1 \<le> length t \<and> length t \<le> n then Some t else None)"
| "read_text n _ = None"

fun nullable :: "(js_value \<Rightarrow> 'a option) \<Rightarrow> js_value \<Rightarrow> 'a option option" where
  "nullable r JNull = Some None"
| "nullable r v = map_option Some (r v)"

fun optional_field :: "(js_value \<Rightarrow> 'a option) \<Rightarrow> js_value \<Rightarrow> 'a option option" where
  "optional_field r JUndefined = Some None"
| "optional_field r v = map_option Some (r v)"

fun read_time :: "(string \<Rightarrow> timestamp option) \<Rightarrow> js_value \<Rightarrow> timestamp option" where
  "read_time read_instant (JStr s) = read_instant s"
| "read_time read_instant _ = None"

definition read_reason :: "js_value \<Rightarrow> string option" where
  "read_reason v =
     (case read_text 100 v of None \<Rightarrow> None | Some t \<Rightarrow> if reason_code_ok t then Some t else None)"

fun read_digest :: "js_value \<Rightarrow> digest option" where
  "read_digest (JStr s) = (if digest_ok s then Some s else None)"
| "read_digest _ = None"

fun read_proof :: "(string \<Rightarrow> timestamp option) \<Rightarrow> js_value \<Rightarrow> delivery_proof option" where
  "read_proof read_instant (JObj fs) =
     (if js_field fs ''kind'' = JStr ''provider-delivery-receipt''
         \<and> strict_keys fs [''kind'', ''provider'', ''receiptId'', ''deliveredAt'']
      then (case (read_text 100 (js_field fs ''provider''), read_text 500 (js_field fs ''receiptId''),
                  read_time read_instant (js_field fs ''deliveredAt'')) of
              (Some p, Some r, Some t) \<Rightarrow> Some \<lparr>dp_provider = p, dp_receiptId = r, dp_deliveredAt = t\<rparr>
            | _ \<Rightarrow> None)
      else None)"
| "read_proof read_instant _ = None"

definition fact_keys :: "string list" where
  "fact_keys = [''subject'', ''state'', ''provider'', ''providerReference'', ''providerOccurredAt'',
     ''proof'', ''reasonCode'', ''diagnosticDigest'']"

definition read_evidence_input ::
  "(string \<Rightarrow> timestamp option) \<Rightarrow> (string \<times> js_value) list \<Rightarrow> evidence_fact option" where
  "read_evidence_input read_instant fs =
     (if \<not> strict_keys fs fact_keys then None
      else case (read_subject (js_field fs ''subject''), read_state (js_field fs ''state''),
                 nullable (read_text 100) (js_field fs ''provider''),
                 nullable (read_text 500) (js_field fs ''providerReference''),
                 optional_field (read_time read_instant) (js_field fs ''providerOccurredAt''),
                 nullable (read_proof read_instant) (js_field fs ''proof''),
                 nullable read_reason (js_field fs ''reasonCode''),
                 nullable read_digest (js_field fs ''diagnosticDigest'')) of
        (Some sb, Some st, Some pr, Some rf, Some oc, Some pf, Some rs, Some dg) \<Rightarrow>
          (let i = \<lparr>de_subject = sb, de_state = st, de_provider = pr, de_reference = rf,
                    de_occurredAt = oc, de_proof = pf, de_reason = rs, de_digest = dg\<rparr>
           in if RecordDeliveryEvidenceInputSchema i then Some i else None)
      | _ \<Rightarrow> None)"

section \<open>Errors and parsers\<close>

datatype processing_code =
  INVALID_ADAPTER | ADAPTER_MISMATCH | PROVIDER_SEND_DISABLED | RETRY_BUDGET_EXCEEDED
| INVALID_IDEMPOTENCY_CLAIM | IDEMPOTENCY_STORE_FAILED | INVALID_PROVIDER_OUTCOME

text \<open>What \<open>process\<close> may throw: its own errors and those of the parts it does not guard.\<close>

datatype 'x process_error =
  Processing processing_code
| Work_refused worker_attempt_error
| Retry_refused retry_error
| Writer_failed 'x

definition parseLease :: "js_number option \<Rightarrow> (processing_code, js_number) result" where
  "parseLease value =
     (let lease = (case value of None \<Rightarrow> Finite (2 * 60000) | Some n \<Rightarrow> n)
      in if \<not> js_integer lease \<or> num lease < 1000 \<or> num lease > 15 * 60000
         then Inl INVALID_IDEMPOTENCY_CLAIM else Inr lease)"

definition provider_char :: "char \<Rightarrow> bool" where
  "provider_char c = (ascii_lower c \<or> ascii_digit c)"

definition safe_provider :: "string \<Rightarrow> bool" where
  "safe_provider s =
     (s \<noteq> [] \<and> provider_char (hd s) \<and> provider_char (last s)
      \<and> list_all (\<lambda>c. provider_char c \<or> c \<in> set ''._-'') s)"

definition provider_states :: "delivery_state list" where
  "provider_states = [D_provider_accepted, D_delivered, D_failed, D_expired, D_unknown]"

text \<open>The subject is spread first, so a \<open>subject\<close> of the value itself replaces it.\<close>

definition parseProviderOutcome ::
  "(string \<Rightarrow> timestamp option) \<Rightarrow> js_value \<Rightarrow> uuid \<Rightarrow> string \<Rightarrow> (processing_code, send_outcome) result" where
  "parseProviderOutcome read_instant value attemptId expectedProvider =
     (case value of
        JObj fs \<Rightarrow>
          (case read_evidence_input read_instant
                  (fs @ [(''subject'', JObj [(''kind'', JStr ''attempt''), (''attemptId'', JStr attemptId)])]) of
             None \<Rightarrow> Inl INVALID_PROVIDER_OUTCOME
           | Some i \<Rightarrow>
               if de_state i \<notin> set provider_states
                  \<or> (case de_provider i of None \<Rightarrow> False | Some p \<Rightarrow> p \<noteq> expectedProvider)
               then Inl INVALID_PROVIDER_OUTCOME else Inr (outcome_of i))
      | _ \<Rightarrow> Inl INVALID_PROVIDER_OUTCOME)"

definition attemptedInput :: "uuid \<Rightarrow> evidence_fact" where
  "attemptedInput a =
     \<lparr>de_subject = Attempt_of a, de_state = D_attempted, de_provider = None, de_reference = None,
      de_occurredAt = None, de_proof = None, de_reason = None, de_digest = None\<rparr>"

definition finalInput :: "uuid \<Rightarrow> send_outcome \<Rightarrow> evidence_fact" where
  "finalInput a s = with_subject a s"

fun truth_of :: "truth_state \<Rightarrow> delivery_state" where
  "truth_of Truth_failed = D_failed"
| "truth_of Truth_unknown = D_unknown"

definition failureOutcome :: "delivery_state \<Rightarrow> string \<Rightarrow> string \<Rightarrow> digest option \<Rightarrow> send_outcome" where
  "failureOutcome st provider reason dg =
     \<lparr>so_state = st, so_provider = Some provider, so_reference = None, so_occurredAt = None,
      so_proof = None, so_reason = Some reason, so_digest = dg\<rparr>"

datatype final_kind = Final_completed | Final_dlq

definition finalKind :: "send_outcome \<Rightarrow> final_kind" where
  "finalKind s = (if so_state s \<in> set [D_failed, D_expired, D_unknown] then Final_dlq else Final_completed)"

datatype attempt_completion =
  Final_completion (completion_outcome: send_outcome)
| Retry_completion (completion_outcome: send_outcome) (completion_delay: int) (completion_next: int)
    (completion_reason: string)

text \<open>The object that is handed to the store.\<close>

fun text_json :: "string option \<Rightarrow> js_value" where
  "text_json None = JNull"
| "text_json (Some s) = JStr s"

fun proof_json :: "(timestamp \<Rightarrow> string) \<Rightarrow> delivery_proof option \<Rightarrow> js_value" where
  "proof_json show_instant None = JNull"
| "proof_json show_instant (Some p) =
     JObj [(''kind'', JStr ''provider-delivery-receipt''), (''provider'', JStr (dp_provider p)),
           (''receiptId'', JStr (dp_receiptId p)), (''deliveredAt'', JStr (show_instant (dp_deliveredAt p)))]"

definition outcome_json :: "(timestamp \<Rightarrow> string) \<Rightarrow> send_outcome \<Rightarrow> js_value" where
  "outcome_json show_instant s =
     JObj ([(''state'', JStr (state_name (so_state s))), (''provider'', text_json (so_provider s)),
            (''providerReference'', text_json (so_reference s)), (''proof'', proof_json show_instant (so_proof s)),
            (''reasonCode'', text_json (so_reason s)), (''diagnosticDigest'', text_json (so_digest s))]
           @ (case so_occurredAt s of None \<Rightarrow> [] | Some t \<Rightarrow> [(''providerOccurredAt'', JStr (show_instant t))]))"

fun completion_json :: "(timestamp \<Rightarrow> string) \<Rightarrow> attempt_completion \<Rightarrow> (string \<times> js_value) list" where
  "completion_json show_instant (Final_completion s) =
     [(''kind'', JStr ''final''), (''outcome'', outcome_json show_instant s)]"
| "completion_json show_instant (Retry_completion s d n r) =
     [(''kind'', JStr ''retry''), (''outcome'', outcome_json show_instant s),
      (''delayMilliseconds'', JNum (Finite (of_int d))), (''nextAttemptNumber'', JNum (Finite (of_int n))),
      (''reasonCode'', JStr r)]"

fun integer_from :: "int \<Rightarrow> js_value \<Rightarrow> int option" where
  "integer_from k (JNum n) = (if js_integer n \<and> k \<le> js_int n then Some (js_int n) else None)"
| "integer_from k _ = None"

fun read_code :: "js_value \<Rightarrow> string option" where
  "read_code (JStr s) = (if safe_code s then Some s else None)"
| "read_code _ = None"

definition parseCompletion ::
  "(string \<Rightarrow> timestamp option) \<Rightarrow> js_value \<Rightarrow> uuid \<Rightarrow> string \<Rightarrow> (processing_code, attempt_completion) result" where
  "parseCompletion read_instant value attemptId provider =
     (case value of
        JObj fs \<Rightarrow>
          bindR (parseProviderOutcome read_instant (js_field fs ''outcome'') attemptId provider) (\<lambda>s.
            if js_field fs ''kind'' = JStr ''final'' then Inr (Final_completion s)
            else if js_field fs ''kind'' \<noteq> JStr ''retry'' \<or> so_state s \<noteq> D_failed
            then Inl INVALID_IDEMPOTENCY_CLAIM
            else case (integer_from 1 (js_field fs ''delayMilliseconds''),
                       integer_from 2 (js_field fs ''nextAttemptNumber''),
                       read_code (js_field fs ''reasonCode'')) of
                   (Some d, Some n, Some r) \<Rightarrow> Inr (Retry_completion s d n r)
                 | _ \<Rightarrow> Inl INVALID_IDEMPOTENCY_CLAIM)
      | _ \<Rightarrow> Inl INVALID_IDEMPOTENCY_CLAIM)"

text \<open>
  A claim and a lookup whose completion was read. The store of the model answers with one of
  the kinds of the interface, so the branch for another kind does not arise.
\<close>

datatype parsed_claim = Claim_acquired uuid | Claim_settled attempt_completion | Claim_busy

datatype parsed_lookup = Found_missing | Found_reclaimable | Found_settled attempt_completion | Found_busy

fun parseClaim ::
  "(string \<Rightarrow> timestamp option) \<Rightarrow> attempt_claim \<Rightarrow> uuid \<Rightarrow> string \<Rightarrow> (processing_code, parsed_claim) result" where
  "parseClaim read_instant (Acquired k) attemptId provider =
     (if length k < 1 \<or> length k > 512 then Inl INVALID_IDEMPOTENCY_CLAIM else Inr (Claim_acquired k))"
| "parseClaim read_instant (Claim_completed v) attemptId provider =
     bindR (parseCompletion read_instant v attemptId provider) (\<lambda>c. Inr (Claim_settled c))"
| "parseClaim read_instant Claim_in_progress attemptId provider = Inr Claim_busy"

fun parseLookup ::
  "(string \<Rightarrow> timestamp option) \<Rightarrow> attempt_lookup \<Rightarrow> uuid \<Rightarrow> string \<Rightarrow> (processing_code, parsed_lookup) result" where
  "parseLookup read_instant Missing attemptId provider = Inr Found_missing"
| "parseLookup read_instant Reclaimable attemptId provider = Inr Found_reclaimable"
| "parseLookup read_instant (Lookup_completed v) attemptId provider =
     bindR (parseCompletion read_instant v attemptId provider) (\<lambda>c. Inr (Found_settled c))"
| "parseLookup read_instant Lookup_in_progress attemptId provider = Inr Found_busy"

section \<open>What is stored can be read back\<close>

definition outcome_ok :: "uuid \<Rightarrow> string \<Rightarrow> send_outcome \<Rightarrow> bool" where
  "outcome_ok a provider s =
     (RecordDeliveryEvidenceInputSchema (with_subject a s) \<and> so_state s \<in> set provider_states
      \<and> (so_provider s = None \<or> so_provider s = Some provider))"

fun completion_ok :: "uuid \<Rightarrow> string \<Rightarrow> attempt_completion \<Rightarrow> bool" where
  "completion_ok a provider (Final_completion s) = outcome_ok a provider s"
| "completion_ok a provider (Retry_completion s d n r) =
     (outcome_ok a provider s \<and> so_state s = D_failed \<and> 1 \<le> d \<and> 2 \<le> n \<and> safe_code r)"

lemma read_text_ok [simp]: "bounded_text n s \<Longrightarrow> read_text n (JStr s) = Some s"
  by (simp add: bounded_text_def Let_def)

lemma read_text_json: "pred_option (bounded_text n) v \<Longrightarrow> nullable (read_text n) (text_json v) = Some v"
  by (cases v) (simp_all del: read_text.simps)

lemma read_reason_json: "pred_option reason_code_ok v \<Longrightarrow> nullable read_reason (text_json v) = Some v"
  by (cases v) (simp_all add: read_reason_def reason_code_ok_def del: read_text.simps)

lemma read_digest_json: "pred_option digest_ok v \<Longrightarrow> nullable read_digest (text_json v) = Some v"
  by (cases v) simp_all

lemma read_state_name [simp]: "read_state (JStr (state_name d)) = Some d"
  by (cases d) (simp_all add: all_states_def)

lemma js_field_simps:
  "js_field ((k, v) # fs) k = v"
  "k \<noteq> k' \<Longrightarrow> js_field ((k, v) # fs) k' = js_field fs k'"
  "js_field [] k = JUndefined"
  by (simp_all add: js_field_def)

lemma read_proof_json:
  assumes "\<And>t. read_instant (show_instant t) = Some t" and "pred_option DeliveryProofSchema v"
  shows "nullable (read_proof read_instant) (proof_json show_instant v) = Some v"
  using assms
  by (cases v) (simp_all add: DeliveryProofSchema_def strict_keys_def js_field_simps del: read_text.simps)

lemma read_subject_json:
  "uuid_ok a \<Longrightarrow> read_subject (JObj [(''kind'', JStr ''attempt''), (''attemptId'', JStr a)]) = Some (Attempt_of a)"
  by (simp add: js_field_simps strict_keys_def)

lemma read_outcome_json:
  assumes iso: "\<And>t. read_instant (show_instant t) = Some t"
    and ok: "outcome_ok a provider s" and p: "outcome_json show_instant s = JObj fs"
  shows "read_evidence_input read_instant
      (fs @ [(''subject'', JObj [(''kind'', JStr ''attempt''), (''attemptId'', JStr a)])])
    = Some (with_subject a s)"
proof -
  let ?fs = "fs @ [(''subject'', JObj [(''kind'', JStr ''attempt''), (''attemptId'', JStr a)])]"
  have shape: "uuid_ok a" "pred_option (bounded_text 100) (so_provider s)"
    "pred_option (bounded_text 500) (so_reference s)" "pred_option DeliveryProofSchema (so_proof s)"
    "pred_option reason_code_ok (so_reason s)" "pred_option digest_ok (so_digest s)"
    and rec: "RecordDeliveryEvidenceInputSchema (with_subject a s)"
    using ok by (simp_all add: outcome_ok_def RecordDeliveryEvidenceInputSchema_def evidence_shape_def with_subject_def)
  have fields: "js_field ?fs ''subject'' = JObj [(''kind'', JStr ''attempt''), (''attemptId'', JStr a)]"
    "js_field ?fs ''state'' = JStr (state_name (so_state s))"
    "js_field ?fs ''provider'' = text_json (so_provider s)"
    "js_field ?fs ''providerReference'' = text_json (so_reference s)"
    "js_field ?fs ''proof'' = proof_json show_instant (so_proof s)"
    "js_field ?fs ''reasonCode'' = text_json (so_reason s)"
    "js_field ?fs ''diagnosticDigest'' = text_json (so_digest s)"
    "js_field ?fs ''providerOccurredAt''
       = (case so_occurredAt s of None \<Rightarrow> JUndefined | Some t \<Rightarrow> JStr (show_instant t))"
    "strict_keys ?fs fact_keys"
    using p by (auto simp: outcome_json_def js_field_simps strict_keys_def fact_keys_def split: option.splits)
  have at: "optional_field (read_time read_instant) (js_field ?fs ''providerOccurredAt'') = Some (so_occurredAt s)"
    using iso by (simp add: fields(8) split: option.split)
  show ?thesis
    using rec
    by (simp add: read_evidence_input_def at fields(1-7) fields(9) read_subject_json shape read_text_json
        read_reason_json read_digest_json read_proof_json [OF iso] with_subject_def
        del: read_subject.simps read_state.simps)
qed

lemma parse_outcome_json:
  assumes "\<And>t. read_instant (show_instant t) = Some t" and "outcome_ok a provider s"
  shows "parseProviderOutcome read_instant (outcome_json show_instant s) a provider = Inr s"
proof -
  obtain fs where fs: "outcome_json show_instant s = JObj fs" by (simp add: outcome_json_def)
  show ?thesis
    using read_outcome_json [OF assms fs] assms(2)
    by (auto simp: parseProviderOutcome_def fs outcome_ok_def with_subject_def outcome_of_def)
qed

lemma parse_completion_json:
  assumes "\<And>t. read_instant (show_instant t) = Some t" and "completion_ok a provider c"
  shows "parseCompletion read_instant (JObj (completion_json show_instant c)) a provider = Inr c"
  using assms(2) parse_outcome_json [OF assms(1)]
  by (cases c) (simp_all add: parseCompletion_def js_field_simps)

text \<open>C34: a completion that a processor may write is read back as itself
  from the object that the store keeps, and that object passes the store's own schema.\<close>

theorem completion_roundtrip:
  assumes "\<And>t. read_instant (show_instant t) = Some t" and "completion_ok a provider c"
  shows "parseCompletion read_instant (JObj (completion_json show_instant c)) a provider = Inr c
    \<and> StoredCompletionSchema (JObj (completion_json show_instant c))"
proof -
  have "StoredCompletionSchema (JObj (completion_json show_instant c))"
    using assms(2) by (cases c) (simp_all add: js_field_simps outcome_json_def safe_code_def)
  then show ?thesis using parse_completion_json [OF assms] by simp
qed

text \<open>Every outcome that was read from a provider may be written.\<close>

lemma other_attempt_ok:
  assumes "RecordDeliveryEvidenceInputSchema i" "de_subject i = Attempt_of b" "uuid_ok a"
  shows "RecordDeliveryEvidenceInputSchema (i\<lparr>de_subject := Attempt_of a\<rparr>)"
proof -
  have "apns_unregistered (i\<lparr>de_subject := Attempt_of a\<rparr>) = apns_unregistered i"
    by (simp add: apns_unregistered_def)
  then show ?thesis
    using assms unfolding RecordDeliveryEvidenceInputSchema_def evidence_shape_def
    by (cases "de_proof i") auto
qed

lemma parsed_outcome_ok:
  assumes "parseProviderOutcome read_instant v a provider = Inr s" and "uuid_ok a"
  shows "outcome_ok a provider s"
proof -
  obtain fs i where v: "v = JObj fs"
    and i: "read_evidence_input read_instant
        (fs @ [(''subject'', JObj [(''kind'', JStr ''attempt''), (''attemptId'', JStr a)])]) = Some i"
    and st: "de_state i \<in> set provider_states"
    and pr: "de_provider i = None \<or> de_provider i = Some provider" and s: "s = outcome_of i"
    using assms(1) by (auto simp: parseProviderOutcome_def split: js_value.splits option.splits if_splits)
  have rec: "RecordDeliveryEvidenceInputSchema i"
    using i by (auto simp: read_evidence_input_def Let_def split: if_splits option.splits)
  obtain b where b: "de_subject i = Attempt_of b"
    using rec st by (cases "de_subject i") (auto simp: RecordDeliveryEvidenceInputSchema_def provider_states_def)
  have "with_subject a s = i\<lparr>de_subject := Attempt_of a\<rparr>"
    by (simp add: with_subject_def outcome_of_def s)
  then have "RecordDeliveryEvidenceInputSchema (with_subject a s)"
    using rec b assms(2) by (simp add: other_attempt_ok)
  then show ?thesis using st pr by (simp add: outcome_ok_def s outcome_of_def)
qed

text \<open>The outcome made for a failure may be written unless it claims that Apple reported the
  device as unregistered, which needs the time of that report.\<close>

lemma safe_code_reason: "safe_code r \<Longrightarrow> reason_code_ok r"
proof -
  assume r: "safe_code r"
  have "\<not> js_space c" if "safe_code_char c" for c
    using that by (auto simp: safe_code_char_def ascii_upper_def ascii_digit_def js_space_def)
  then have "js_trim r = r"
    using r by (intro js_trim_id) (auto simp: safe_code_def list_all_iff)
  then show ?thesis
    using r by (simp add: reason_code_ok_def bounded_text_def safe_code_def safe_code_char_def list_all_iff)
qed

lemma failure_outcome_ok:
  assumes "uuid_ok a" "bounded_text 100 provider" "st = D_failed \<or> st = D_unknown" "safe_code r"
    and "pred_option digest_ok dg"
  shows "outcome_ok a provider (failureOutcome st provider r dg) \<longleftrightarrow> r \<noteq> ''APNS_UNREGISTERED''"
proof -
  have r: "reason_code_ok r" using assms(4) by (rule safe_code_reason)
  show ?thesis
    using assms r
    by (auto simp: outcome_ok_def failureOutcome_def with_subject_def RecordDeliveryEvidenceInputSchema_def
        evidence_shape_def apns_unregistered_def provider_states_def simp del: list.inject)
qed

section \<open>Concrete completions\<close>

definition sample_outcome :: send_outcome where
  "sample_outcome = failureOutcome D_failed ''ses-email'' ''THROTTLED'' None"

lemma sample_outcome_ok: "outcome_ok nil_uuid ''ses-email'' sample_outcome"
proof -
  have "bounded_text 100 ''ses-email''" "safe_code ''THROTTLED''" by code_simp+
  then show ?thesis unfolding sample_outcome_def by (subst failure_outcome_ok) simp_all
qed

text \<open>A writer of instants that can be read back: one stroke for each unit, and a sign.\<close>

definition stroke_show :: "timestamp \<Rightarrow> string" where
  "stroke_show t = (if t < 0 then CHR ''-'' # replicate (nat (- t)) (CHR ''I'') else replicate (nat t) (CHR ''I''))"

definition stroke_read :: "string \<Rightarrow> timestamp option" where
  "stroke_read s = (case s of c # cs \<Rightarrow> if c = CHR ''-'' then Some (- int (length cs)) else Some (int (length s))
     | [] \<Rightarrow> Some 0)"

lemma stroke_round [simp]: "stroke_read (stroke_show t) = Some t"
  by (cases "nat t") (auto simp: stroke_read_def stroke_show_def)

theorem completion_roundtrip_witness:
  "parseCompletion stroke_read
     (JObj (completion_json stroke_show (Retry_completion sample_outcome 1000 2 ''THROTTLED''))) nil_uuid ''ses-email''
     = Inr (Retry_completion sample_outcome 1000 2 ''THROTTLED'')"
proof -
  have "safe_code ''THROTTLED''" by code_simp
  then have "completion_ok nil_uuid ''ses-email'' (Retry_completion sample_outcome 1000 2 ''THROTTLED'')"
    using sample_outcome_ok by simp (simp add: sample_outcome_def failureOutcome_def)
  from completion_roundtrip [OF stroke_round this] show ?thesis by blast
qed

end
