(* ===== verification/Processor.thy ===== *)
theory Processor
  imports Processor_Codec
begin

text \<open>
  \<open>WorkerAttemptProcessor\<close> of \<open>workers/shared/processor.ts\<close>: its constructor and
  \<open>process\<close>, cut at the places where the method decides how to go on. A call is logged when
  it is made, with what the caller learns from it; for a write, a completion and a release that is
  whether it succeeded.
\<close>

section \<open>Calls and the world\<close>

datatype call =
  Looked_up
| Recovered
| Claimed "uuid option"
| Authorized bool
| Wrote delivery_state bool
| Sent
| Completing uuid "(string \<times> js_value) list" bool
| Releasing uuid bool

record ('s, 'w) world =
  shop :: 's
  ledger :: 'w
  calls :: "call list"

datatype recovery =
  Recovery_missing | Recovery_in_progress | Recovery_outcome js_value | Recovery_error thrown
| Recovery_other

text \<open>
  The adapter: \<open>recover\<close> is optional and it may throw; \<open>send\<close> throws a provider error or
  returns a value of unknown shape.
\<close>

record adapter =
  ad_channel :: channel
  ad_integrationId :: string
  ad_provider :: string
  ad_semantics :: string
  ad_recover :: "(call list \<Rightarrow> (unit, recovery) result) option"
  ad_send :: "call list \<Rightarrow> (thrown, js_value) result"

text \<open>
  The four operations of the store, and what other workers do to it between two calls of this
  one.
\<close>

record ('s, 'e) execution_store =
  es_lookup :: "uuid \<Rightarrow> string \<Rightarrow> ('s, 'e, attempt_lookup) comp"
  es_claim :: "uuid \<Rightarrow> string \<Rightarrow> js_number \<Rightarrow> ('s, 'e, attempt_claim) comp"
  es_complete :: "uuid \<Rightarrow> string \<Rightarrow> uuid \<Rightarrow> (string \<times> js_value) list \<Rightarrow> ('s, 'e, unit) comp"
  es_release :: "uuid \<Rightarrow> string \<Rightarrow> uuid \<Rightarrow> ('s, 'e, unit) comp"
  es_others :: "call list \<Rightarrow> 's \<Rightarrow> 's"

record ('s, 'e, 'w, 'x) processor =
  p_adapter :: adapter
  p_store :: "('s, 'e) execution_store"
  p_writer :: "channel_attempt \<Rightarrow> evidence_fact \<Rightarrow> ('w, 'x, delivery_evidence) comp"
  p_policy :: RetryPolicy
  p_lease :: js_number
  p_random :: "call list \<Rightarrow> js_number"
  p_authorize :: "(call list \<Rightarrow> (unit, bool) result) option"
  p_enabled :: bool

text \<open>The functions from outside that parse, print and hash.\<close>

record environment = outside +
  env_read :: "string \<Rightarrow> timestamp option"
  env_show :: "timestamp \<Rightarrow> string"
  env_fingerprint :: "work_item \<Rightarrow> string"

section \<open>The constructor\<close>

definition validateAdapter :: "adapter \<Rightarrow> ('x process_error, unit) result" where
  "validateAdapter ad =
     (if \<not> IntegrationIdSchema (ad_integrationId ad)
         \<or> length (ad_provider ad) < 1 \<or> length (ad_provider ad) > 100
         \<or> js_trim (ad_provider ad) \<noteq> ad_provider ad \<or> \<not> safe_provider (ad_provider ad)
         \<or> ad_semantics ad \<noteq> ''attempt-id-idempotent''
      then Inl (Processing INVALID_ADAPTER) else Inr ())"

fun as_retry :: "(retry_error, 'a) result \<Rightarrow> ('x process_error, 'a) result" where
  "as_retry (Inl e) = Inl (Retry_refused e)"
| "as_retry (Inr a) = Inr a"

fun as_processing :: "(processing_code, 'a) result \<Rightarrow> ('x process_error, 'a) result" where
  "as_processing (Inl e) = Inl (Processing e)"
| "as_processing (Inr a) = Inr a"

definition new_processor ::
  "adapter \<Rightarrow> ('s, 'e) execution_store
     \<Rightarrow> (channel_attempt \<Rightarrow> evidence_fact \<Rightarrow> ('w, 'x, delivery_evidence) comp)
     \<Rightarrow> RetryPolicy option \<Rightarrow> js_number option \<Rightarrow> (call list \<Rightarrow> js_number)
     \<Rightarrow> (call list \<Rightarrow> (unit, bool) result) option \<Rightarrow> bool option
     \<Rightarrow> ('x process_error, ('s, 'e, 'w, 'x) processor) result" where
  "new_processor ad st wr retryPolicy leaseMilliseconds random authorize sendEnabled =
     bindR (validateAdapter ad) (\<lambda>_.
     bindR (as_retry (parseRetryPolicy (case retryPolicy of None \<Rightarrow> DEFAULT_RETRY_POLICY | Some p \<Rightarrow> p))) (\<lambda>policy.
     bindR (as_processing (parseLease leaseMilliseconds)) (\<lambda>lease.
       Inr \<lparr>p_adapter = ad, p_store = st, p_writer = wr, p_policy = policy, p_lease = lease,
            p_random = random, p_authorize = authorize, p_enabled = (sendEnabled \<noteq> Some False)\<rparr>)))"

section \<open>Calls\<close>

definition log_call :: "call \<Rightarrow> (('s, 'w) world, 'f, unit) comp" where
  "log_call c w = (Inr (), w\<lparr>calls := c # calls w\<rparr>)"

text \<open>A store call sees the store as the other workers left it; its error is a store failure.\<close>

definition store_call ::
  "('s, 'e, 'w, 'x) processor \<Rightarrow> ('s, 'e, 'a) comp \<Rightarrow> ('a option \<Rightarrow> call)
     \<Rightarrow> (('s, 'w) world, 'x process_error, 'a) comp" where
  "store_call p m entry w =
     (case m (es_others (p_store p) (calls w) (shop w)) of
        (Inl e, s) \<Rightarrow> (Inl (Processing IDEMPOTENCY_STORE_FAILED), w\<lparr>shop := s, calls := entry None # calls w\<rparr>)
      | (Inr a, s) \<Rightarrow> (Inr a, w\<lparr>shop := s, calls := entry (Some a) # calls w\<rparr>))"

definition call_lookup where
  "call_lookup p a fp = store_call p (es_lookup (p_store p) a fp) (\<lambda>_. Looked_up)"

definition call_claim where
  "call_claim p a fp =
     store_call p (es_claim (p_store p) a fp (p_lease p))
       (\<lambda>c. Claimed (case c of Some (Acquired k) \<Rightarrow> Some k | _ \<Rightarrow> None))"

definition call_complete where
  "call_complete p a fp k obj =
     store_call p (es_complete (p_store p) a fp k obj) (\<lambda>x. Completing k obj (x \<noteq> None))"

definition call_release where
  "call_release p a fp k = store_call p (es_release (p_store p) a fp k) (\<lambda>x. Releasing k (x \<noteq> None))"

definition call_write ::
  "('s, 'e, 'w, 'x) processor \<Rightarrow> channel_attempt \<Rightarrow> evidence_fact
     \<Rightarrow> (('s, 'w) world, 'x process_error, delivery_evidence) comp" where
  "call_write p att i w =
     (case p_writer p att i (ledger w) of
        (Inl e, l) \<Rightarrow> (Inl (Writer_failed e), w\<lparr>ledger := l, calls := Wrote (de_state i) False # calls w\<rparr>)
      | (Inr ev, l) \<Rightarrow> (Inr ev, w\<lparr>ledger := l, calls := Wrote (de_state i) True # calls w\<rparr>))"

text \<open>\<open>#providerSendIsAuthorized\<close>: an authorizer that throws denies, none at all allows.\<close>

definition providerSendIsAuthorized ::
  "('s, 'e, 'w, 'x) processor \<Rightarrow> (('s, 'w) world, 'x process_error, bool) comp" where
  "providerSendIsAuthorized p w =
     (let ok = (case p_authorize p of None \<Rightarrow> True
                | Some f \<Rightarrow> (case f (calls w) of Inl _ \<Rightarrow> False | Inr b \<Rightarrow> b))
      in (Inr ok, w\<lparr>calls := Authorized ok # calls w\<rparr>))"

definition retry_delay ::
  "('s, 'e, 'w, 'x) processor \<Rightarrow> channel_attempt \<Rightarrow> (('s, 'w) world, 'x process_error, int) comp" where
  "retry_delay p att w =
     (as_retry (calculateRetryDelayMilliseconds (Finite (of_int (a_attemptNumber att))) (p_policy p)
        (p_random p (calls w))), w)"

definition retry_decision ::
  "('s, 'e, 'w, 'x) processor \<Rightarrow> channel_attempt \<Rightarrow> thrown
     \<Rightarrow> (('s, 'w) world, 'x process_error, RetryDecision) comp" where
  "retry_decision p att e w =
     (as_retry (decideProviderRetry e (Finite (of_int (a_attemptNumber att))) (p_policy p)
        (p_random p (calls w))), w)"

section \<open>Results\<close>

datatype process_result =
  Finished final_kind (replayed: bool) (result_outcome: send_outcome)
    (attempted_evidence: delivery_evidence) (outcome_evidence: delivery_evidence)
| Retry_later (replayed: bool) (result_delay: int) (result_next: int) (result_reason: string)
    (result_outcome: send_outcome) (attempted_evidence: delivery_evidence) (outcome_evidence: delivery_evidence)
| In_progress (retryAfterMilliseconds: int)

definition in_progress ::
  "('s, 'e, 'w, 'x) processor \<Rightarrow> channel_attempt \<Rightarrow> (('s, 'w) world, 'x process_error, process_result) comp" where
  "in_progress p att = bindC (retry_delay p att) (\<lambda>d. retC (In_progress d))"

fun result_of :: "attempt_completion \<Rightarrow> bool \<Rightarrow> delivery_evidence \<Rightarrow> delivery_evidence \<Rightarrow> process_result" where
  "result_of (Final_completion s) again e e' = Finished (finalKind s) again s e e'"
| "result_of (Retry_completion s d n r) again e e' = Retry_later again d n r s e e'"

definition writeCompletion ::
  "('s, 'e, 'w, 'x) processor \<Rightarrow> channel_attempt \<Rightarrow> attempt_completion \<Rightarrow> bool
     \<Rightarrow> (('s, 'w) world, 'x process_error, process_result) comp" where
  "writeCompletion p att c again =
     bindC (call_write p att (attemptedInput (a_id att))) (\<lambda>e.
     bindC (call_write p att (finalInput (a_id att) (completion_outcome c))) (\<lambda>e'.
       retC (result_of c again e e')))"

section \<open>Recovery from the adapter\<close>

fun dlq_completion :: "string \<Rightarrow> string \<Rightarrow> truth_state \<Rightarrow> ProviderFailure \<Rightarrow> attempt_completion" where
  "dlq_completion provider why truth f =
     Final_completion (failureOutcome (truth_of truth) provider why (diagnosticDigest f))"

fun retry_completion :: "string \<Rightarrow> int \<Rightarrow> int \<Rightarrow> ProviderFailure \<Rightarrow> attempt_completion" where
  "retry_completion provider d n f =
     Retry_completion (failureOutcome D_failed provider (code f) (diagnosticDigest f)) d n (code f)"

definition invalid_outcome :: "string \<Rightarrow> send_outcome" where
  "invalid_outcome provider = failureOutcome D_unknown provider ''PROVIDER_OUTCOME_INVALID'' None"

definition outcome_or_unknown :: "environment \<Rightarrow> js_value \<Rightarrow> uuid \<Rightarrow> string \<Rightarrow> send_outcome" where
  "outcome_or_unknown env v a provider =
     (case parseProviderOutcome (env_read env) v a provider of
        Inl _ \<Rightarrow> invalid_outcome provider | Inr s \<Rightarrow> s)"

definition recoveredAdapterCompletion ::
  "environment \<Rightarrow> ('s, 'e, 'w, 'x) processor \<Rightarrow> channel_attempt \<Rightarrow> thrown + js_value
     \<Rightarrow> (('s, 'w) world, 'x process_error, attempt_completion) comp" where
  "recoveredAdapterCompletion env p att rc =
     (case rc of
        Inl e \<Rightarrow>
          bindC (retry_decision p att e) (\<lambda>d. case d of
            Retry_decision ms n f \<Rightarrow> retC (retry_completion (ad_provider (p_adapter p)) ms n f)
          | Dlq why truth ex f \<Rightarrow> retC (dlq_completion (ad_provider (p_adapter p)) why truth f))
      | Inr v \<Rightarrow> retC (Final_completion (outcome_or_unknown env v (a_id att) (ad_provider (p_adapter p)))))"

definition claim_parsed ::
  "environment \<Rightarrow> ('s, 'e, 'w, 'x) processor \<Rightarrow> channel_attempt \<Rightarrow> string
     \<Rightarrow> (('s, 'w) world, 'x process_error, parsed_claim) comp" where
  "claim_parsed env p att fp =
     bindC (call_claim p (a_id att) fp) (\<lambda>c.
       liftR (as_processing (parseClaim (env_read env) c (a_id att) (ad_provider (p_adapter p)))))"

text \<open>\<open>None\<close> is the answer \<open>in-progress\<close>.\<close>

definition claimRecoveredAdapterCompletion ::
  "environment \<Rightarrow> ('s, 'e, 'w, 'x) processor \<Rightarrow> channel_attempt \<Rightarrow> string \<Rightarrow> attempt_completion
     \<Rightarrow> (('s, 'w) world, 'x process_error, attempt_completion option) comp" where
  "claimRecoveredAdapterCompletion env p att fp c =
     bindC (claim_parsed env p att fp) (\<lambda>q. case q of
       Claim_busy \<Rightarrow> retC None
     | Claim_settled c' \<Rightarrow> retC (Some c')
     | Claim_acquired k \<Rightarrow>
         bindC (call_complete p (a_id att) fp k (completion_json (env_show env) c)) (\<lambda>_. retC (Some c)))"

section \<open>Sending\<close>

definition releaseProviderSendDenied ::
  "('s, 'e, 'w, 'x) processor \<Rightarrow> channel_attempt \<Rightarrow> string \<Rightarrow> uuid
     \<Rightarrow> (('s, 'w) world, 'x process_error, 'a) comp" where
  "releaseProviderSendDenied p att fp k =
     bindC (call_release p (a_id att) fp k) (\<lambda>_. throwC (Processing PROVIDER_SEND_DISABLED))"

text \<open>The evidence that a send is about to happen; a failure gives the lease back.\<close>

definition record_attempted ::
  "('s, 'e, 'w, 'x) processor \<Rightarrow> channel_attempt \<Rightarrow> string \<Rightarrow> uuid
     \<Rightarrow> (('s, 'w) world, 'x process_error, delivery_evidence) comp" where
  "record_attempted p att fp k =
     catchC (call_write p att (attemptedInput (a_id att)))
       (\<lambda>e. bindC (call_release p (a_id att) fp k) (\<lambda>_. throwC e))"

text \<open>After the provider answered: what is stored for the attempt.\<close>

definition answer_completion ::
  "environment \<Rightarrow> ('s, 'e, 'w, 'x) processor \<Rightarrow> channel_attempt \<Rightarrow> (thrown, js_value) result
     \<Rightarrow> (('s, 'w) world, 'x process_error, attempt_completion) comp" where
  "answer_completion env p att answer =
     (let provider = ad_provider (p_adapter p) in
      case answer of
        Inr v \<Rightarrow> retC (Final_completion (outcome_or_unknown env v (a_id att) provider))
      | Inl e \<Rightarrow>
          bindC (retry_decision p att e) (\<lambda>d. case d of
            Retry_decision ms n f \<Rightarrow> retC (retry_completion provider ms n f)
          | Dlq why truth ex f \<Rightarrow>
              retC (Final_completion (outcome_or_unknown env
                (outcome_json (env_show env) (completion_outcome (dlq_completion provider why truth f)))
                (a_id att) provider))))"

definition call_send ::
  "('s, 'e, 'w, 'x) processor \<Rightarrow> (('s, 'w) world, 'x process_error, (thrown, js_value) result) comp" where
  "call_send p w = (Inr (ad_send (p_adapter p) (calls w)), w\<lparr>calls := Sent # calls w\<rparr>)"

definition send_and_settle ::
  "environment \<Rightarrow> ('s, 'e, 'w, 'x) processor \<Rightarrow> channel_attempt \<Rightarrow> string \<Rightarrow> uuid \<Rightarrow> delivery_evidence
     \<Rightarrow> (('s, 'w) world, 'x process_error, process_result) comp" where
  "send_and_settle env p att fp k attempted =
     bindC (call_send p) (\<lambda>answer.
     bindC (answer_completion env p att answer) (\<lambda>c.
     bindC (call_complete p (a_id att) fp k (completion_json (env_show env) c)) (\<lambda>_.
     bindC (call_write p att (finalInput (a_id att) (completion_outcome c))) (\<lambda>e'.
       retC (result_of c False attempted e')))))"

definition send_under_lease ::
  "environment \<Rightarrow> ('s, 'e, 'w, 'x) processor \<Rightarrow> channel_attempt \<Rightarrow> string \<Rightarrow> uuid
     \<Rightarrow> (('s, 'w) world, 'x process_error, process_result) comp" where
  "send_under_lease env p att fp k =
     bindC (providerSendIsAuthorized p) (\<lambda>ok.
       if \<not> ok then releaseProviderSendDenied p att fp k
       else bindC (record_attempted p att fp k) (\<lambda>attempted.
            bindC (providerSendIsAuthorized p) (\<lambda>ok'.
              if \<not> ok' then releaseProviderSendDenied p att fp k
              else send_and_settle env p att fp k attempted)))"

definition claim_and_send ::
  "environment \<Rightarrow> ('s, 'e, 'w, 'x) processor \<Rightarrow> channel_attempt \<Rightarrow> string
     \<Rightarrow> (('s, 'w) world, 'x process_error, process_result) comp" where
  "claim_and_send env p att fp =
     (if \<not> p_enabled p then throwC (Processing PROVIDER_SEND_DISABLED)
      else if (of_int (a_attemptNumber att) :: rat) > num (maxAttempts (p_policy p))
      then throwC (Processing RETRY_BUDGET_EXCEEDED)
      else bindC (claim_parsed env p att fp) (\<lambda>q. case q of
             Claim_busy \<Rightarrow> in_progress p att
           | Claim_settled c \<Rightarrow> writeCompletion p att c True
           | Claim_acquired k \<Rightarrow> send_under_lease env p att fp k))"

section \<open>The method \<open>process\<close>\<close>

definition call_recover ::
  "(call list \<Rightarrow> (unit, recovery) result) \<Rightarrow> (('s, 'w) world, 'x process_error, recovery) comp" where
  "call_recover f w =
     ((case f (calls w) of Inl _ \<Rightarrow> Inl (Processing IDEMPOTENCY_STORE_FAILED) | Inr r \<Rightarrow> Inr r),
      w\<lparr>calls := Recovered # calls w\<rparr>)"

definition settle_recovered ::
  "environment \<Rightarrow> ('s, 'e, 'w, 'x) processor \<Rightarrow> channel_attempt \<Rightarrow> string \<Rightarrow> thrown + js_value
     \<Rightarrow> (('s, 'w) world, 'x process_error, process_result) comp" where
  "settle_recovered env p att fp rc =
     bindC (recoveredAdapterCompletion env p att rc) (\<lambda>c.
     bindC (claimRecoveredAdapterCompletion env p att fp c) (\<lambda>q. case q of
       None \<Rightarrow> in_progress p att
     | Some c' \<Rightarrow> writeCompletion p att c' True))"

definition recover_or_send ::
  "environment \<Rightarrow> ('s, 'e, 'w, 'x) processor \<Rightarrow> channel_attempt \<Rightarrow> string
     \<Rightarrow> (('s, 'w) world, 'x process_error, process_result) comp" where
  "recover_or_send env p att fp =
     (case ad_recover (p_adapter p) of
        None \<Rightarrow> claim_and_send env p att fp
      | Some f \<Rightarrow>
          bindC (call_recover f) (\<lambda>r. case r of
            Recovery_in_progress \<Rightarrow> in_progress p att
          | Recovery_outcome v \<Rightarrow> settle_recovered env p att fp (Inr v)
          | Recovery_error e \<Rightarrow> settle_recovered env p att fp (Inl e)
          | Recovery_missing \<Rightarrow> claim_and_send env p att fp
          | Recovery_other \<Rightarrow> throwC (Processing IDEMPOTENCY_STORE_FAILED)))"

definition lookup_parsed ::
  "environment \<Rightarrow> ('s, 'e, 'w, 'x) processor \<Rightarrow> channel_attempt \<Rightarrow> string
     \<Rightarrow> (('s, 'w) world, 'x process_error, parsed_lookup) comp" where
  "lookup_parsed env p att fp =
     bindC (call_lookup p (a_id att) fp) (\<lambda>q.
       liftR (as_processing (parseLookup (env_read env) q (a_id att) (ad_provider (p_adapter p)))))"

fun as_work :: "(worker_attempt_error, 'a) result \<Rightarrow> ('x process_error, 'a) result" where
  "as_work (Inl e) = Inl (Work_refused e)"
| "as_work (Inr a) = Inr a"

text \<open>What follows once the item is parsed and the adapter is the one for its batch.\<close>

definition process_item ::
  "environment \<Rightarrow> ('s, 'e, 'w, 'x) processor \<Rightarrow> work_item
     \<Rightarrow> (('s, 'w) world, 'x process_error, process_result) comp" where
  "process_item env p item =
     (let att = w_attempt item; fp = env_fingerprint env item
      in bindC (lookup_parsed env p att fp) (\<lambda>q. case q of
           Found_busy \<Rightarrow> in_progress p att
         | Found_settled c \<Rightarrow> writeCompletion p att c True
         | _ \<Rightarrow> recover_or_send env p att fp))"

definition process ::
  "environment \<Rightarrow> ('s, 'e, 'w, 'x) processor \<Rightarrow> raw_work
     \<Rightarrow> (('s, 'w) world, 'x process_error, process_result) comp" where
  "process env p workValue =
     bindC (liftR (as_work (parseWorkerAttemptWorkItem (outside.truncate env) workValue))) (\<lambda>item.
       if ad_channel (p_adapter p) \<noteq> b_channel (w_batch item)
          \<or> ad_integrationId (p_adapter p) \<noteq> b_integrationId (w_batch item)
       then throwC (Processing ADAPTER_MISMATCH)
       else process_item env p item)"

lemma process_parsed:
  assumes "parseWorkerAttemptWorkItem (outside.truncate env) v = Inr item"
  shows "process env p v w = (if ad_channel (p_adapter p) \<noteq> b_channel (w_batch item)
          \<or> ad_integrationId (p_adapter p) \<noteq> b_integrationId (w_batch item)
       then (Inl (Processing ADAPTER_MISMATCH), w) else process_item env p item w)"
  using assms by (simp add: process_def liftR_def bindC_def throwC_def)

end
