(* ===== verification/Processor_Safety.thy ===== *)
theory Processor_Safety
  imports Processor
begin

text \<open>
  What the attempt processor guarantees: in which order it makes its calls, what it does with a
  lease, and that an attempt whose completion the store keeps is answered from it.
\<close>

section \<open>A logic for the log of calls\<close>

text \<open>
  \<open>emits m P\<close>: in every world \<open>m\<close> adds calls to the log that satisfy \<open>P\<close> together
  with its result.
\<close>

definition emits ::
  "(('s, 'w) world, 'f, 'a) comp \<Rightarrow> (('f, 'a) result \<Rightarrow> call list \<Rightarrow> bool) \<Rightarrow> bool" where
  "emits m P = (\<forall>w. \<exists>new. calls (snd (m w)) = new @ calls w \<and> P (fst (m w)) new)"

lemma emitsI: "(\<And>w. \<exists>new. calls (snd (m w)) = new @ calls w \<and> P (fst (m w)) new) \<Longrightarrow> emits m P"
  by (simp add: emits_def)

lemma emitsE:
  assumes "emits m P" and "m w = (r, w')"
  obtains new where "calls w' = new @ calls w" "P r new"
  using assms unfolding emits_def by (metis fst_conv snd_conv)

lemma emits_mono: "emits m P \<Longrightarrow> (\<And>r n. P r n \<Longrightarrow> Q r n) \<Longrightarrow> emits m Q"
  unfolding emits_def by blast

lemma emits_retC: "P (Inr a) [] \<Longrightarrow> emits (retC a) P"
  and emits_throwC: "P (Inl e) [] \<Longrightarrow> emits (throwC e) P"
  and emits_liftR: "P r [] \<Longrightarrow> emits (liftR r) P"
  by (simp_all add: emits_def retC_def throwC_def liftR_def)

lemma emits_bindC:
  assumes m: "emits m P" and f: "\<And>a. emits (f a) (Q a)"
    and err: "\<And>e n. P (Inl e) n \<Longrightarrow> R (Inl e) n"
    and ok: "\<And>a n r n'. P (Inr a) n \<Longrightarrow> Q a r n' \<Longrightarrow> R r (n' @ n)"
  shows "emits (bindC m f) R"
proof (rule emitsI)
  fix w
  obtain x w1 where mw: "m w = (x, w1)" by (cases "m w")
  obtain n where n: "calls w1 = n @ calls w" "P x n" using m mw by (rule emitsE)
  show "\<exists>new. calls (snd (bindC m f w)) = new @ calls w \<and> R (fst (bindC m f w)) new"
  proof (cases x)
    case (Inl e)
    then show ?thesis using n err by (simp add: bindC_def mw)
  next
    case (Inr a)
    obtain r w2 where fw: "f a w1 = (r, w2)" by (cases "f a w1")
    obtain n' where "calls w2 = n' @ calls w1" "Q a r n'" using f fw by (rule emitsE)
    then show ?thesis
      using n ok Inr by (intro exI [of _ "n' @ n"]) (simp add: bindC_def mw fw)
  qed
qed

lemma emits_catchC:
  assumes m: "emits m P" and h: "\<And>e. emits (h e) (Q e)"
    and ok: "\<And>a n. P (Inr a) n \<Longrightarrow> R (Inr a) n"
    and err: "\<And>e n r n'. P (Inl e) n \<Longrightarrow> Q e r n' \<Longrightarrow> R r (n' @ n)"
  shows "emits (catchC m h) R"
proof (rule emitsI)
  fix w
  obtain x w1 where mw: "m w = (x, w1)" by (cases "m w")
  obtain n where n: "calls w1 = n @ calls w" "P x n" using m mw by (rule emitsE)
  show "\<exists>new. calls (snd (catchC m h w)) = new @ calls w \<and> R (fst (catchC m h w)) new"
  proof (cases x)
    case (Inr a)
    then show ?thesis using n ok by (simp add: catchC_def mw)
  next
    case (Inl e)
    obtain r w2 where hw: "h e w1 = (r, w2)" by (cases "h e w1")
    obtain n' where "calls w2 = n' @ calls w1" "Q e r n'" using h hw by (rule emitsE)
    then show ?thesis
      using n err Inl by (intro exI [of _ "n' @ n"]) (simp add: catchC_def mw hw)
  qed
qed

section \<open>Single calls\<close>

lemma emits_store_call:
  "emits (store_call p m entry) (\<lambda>r n. case r of Inl e \<Rightarrow> e = Processing IDEMPOTENCY_STORE_FAILED \<and> n = [entry None]
     | Inr a \<Rightarrow> n = [entry (Some a)])"
  by (rule emitsI) (auto simp: store_call_def split: prod.split sum.split)

text \<open>A release or a completion that fails ends the run with the error of the store.\<close>

definition store_answer :: "('x process_error, 'a) result \<Rightarrow> bool \<Rightarrow> bool" where
  "store_answer r ok = (ok \<or> r = Inl (Processing IDEMPOTENCY_STORE_FAILED))"

lemma store_answer_simps [simp]: "store_answer r True" "store_answer (Inr a) ok = ok"
  "store_answer (Inl e) ok = (ok \<or> e = Processing IDEMPOTENCY_STORE_FAILED)"
  by (simp_all add: store_answer_def)

lemma emits_release:
    "emits (call_release p a fp k) (\<lambda>r n. n = [Releasing k (is_ok r)] \<and> store_answer r (is_ok r))"
  unfolding call_release_def by (rule emits_mono [OF emits_store_call]) (auto split: sum.splits)

lemma emits_complete:
    "emits (call_complete p a fp k obj) (\<lambda>r n. n = [Completing k obj (is_ok r)] \<and> store_answer r (is_ok r))"
  unfolding call_complete_def by (rule emits_mono [OF emits_store_call]) (auto split: sum.splits)

lemma emits_write:
  "emits (call_write p att i) (\<lambda>r n. n = [Wrote (de_state i) (is_ok r)])"
  by (rule emitsI) (auto simp: call_write_def split: prod.split sum.split)

lemma emits_authorized:
  "emits (providerSendIsAuthorized p) (\<lambda>r n. \<exists>b. r = Inr b \<and> n = [Authorized b])"
  by (rule emitsI) (simp add: providerSendIsAuthorized_def Let_def)

lemma emits_retry_delay: "emits (retry_delay p att) (\<lambda>r n. n = [])"
  and emits_retry_decision: "emits (retry_decision p att e) (\<lambda>r n. n = [])"
  by (rule emitsI; simp add: retry_delay_def retry_decision_def)+

lemma emits_in_progress: "emits (in_progress p att) (\<lambda>r n. n = [])"
  unfolding in_progress_def by (rule emits_bindC [OF emits_retry_delay emits_retC]) simp_all

text \<open>A token that \<open>parseClaim\<close> accepts.\<close>

definition token_ok :: "uuid \<Rightarrow> bool" where
  "token_ok k = (1 \<le> length k \<and> length k \<le> 512)"

fun claim_log :: "('x process_error, parsed_claim) result \<Rightarrow> call list \<Rightarrow> bool" where
  "claim_log (Inr (Claim_acquired k)) n = (n = [Claimed (Some k)])"
| "claim_log (Inr _) n = (n = [Claimed None])"
| "claim_log (Inl _) n = (n = [Claimed None] \<or> (\<exists>k. n = [Claimed (Some k)] \<and> \<not> token_ok k))"

lemma parse_claim_log:
  "claim_log (as_processing (parseClaim rd c a pr))
     [Claimed (case c of Acquired k \<Rightarrow> Some k | _ \<Rightarrow> None)]"
proof (cases c)
  case (Claim_completed v)
  then show ?thesis by (cases "parseCompletion rd v a pr") simp_all
qed (auto simp: token_ok_def not_less)

lemma emits_claim: "emits (claim_parsed env p att fp) claim_log"
  unfolding claim_parsed_def call_claim_def
proof (rule emits_bindC [OF emits_store_call])
  fix c :: attempt_claim
  show "emits (liftR (as_processing (parseClaim (env_read env) c (a_id att) (ad_provider (p_adapter p)))))
      (\<lambda>r n. r = as_processing (parseClaim (env_read env) c (a_id att) (ad_provider (p_adapter p))) \<and> n = [])"
    by (rule emits_liftR) simp
qed (auto simp: parse_claim_log)

section \<open>The stages of a send\<close>

text \<open>After a send: nothing, or the completion under the same lease and then its evidence.\<close>

definition aftermath :: "uuid \<Rightarrow> call list \<Rightarrow> bool" where
  "aftermath k post =
     (post = [] \<or> (\<exists>obj. post = [Completing k obj False] \<or> (\<exists>st ok. post = [Wrote st ok, Completing k obj True])))"

definition settled_by :: "uuid \<Rightarrow> ('x process_error, process_result) result \<Rightarrow> call list \<Rightarrow> bool" where
  "settled_by k r post =
     (aftermath k post \<and> (post = [] \<longrightarrow> (\<exists>e. r = Inl (Retry_refused e)))
      \<and> (\<forall>obj ok. Completing k obj ok \<in> set post \<longrightarrow> store_answer r ok))"

definition settle_log :: "uuid \<Rightarrow> ('x process_error, process_result) result \<Rightarrow> call list \<Rightarrow> bool" where
  "settle_log k r n = (\<exists>post. n = post @ [Sent] \<and> settled_by k r post)"

lemma emits_answer:
  "emits (answer_completion env p att answer) (\<lambda>r n. n = [] \<and> (\<forall>e. r = Inl e \<longrightarrow> (\<exists>e'. e = Retry_refused e')))"
proof (rule emitsI)
  fix w :: "('a, 'b) world"
  show "\<exists>new. calls (snd (answer_completion env p att answer w)) = new @ calls w \<and>
     new = [] \<and> (\<forall>e. fst (answer_completion env p att answer w) = Inl e \<longrightarrow> (\<exists>e'. e = Retry_refused e'))"
  proof (cases answer)
    case (Inl e)
    then show ?thesis
      by (cases "decideProviderRetry e (Finite (of_int (a_attemptNumber att))) (p_policy p) (p_random p (calls w))")
        (auto simp: answer_completion_def Let_def bindC_def retry_decision_def retC_def split: RetryDecision.split)
  qed (simp add: answer_completion_def Let_def retC_def)
qed

lemma emits_settle: "emits (send_and_settle env p att fp k attempted) (settle_log k)"
  unfolding send_and_settle_def
proof (rule emits_bindC [where P = "\<lambda>r n. (\<exists>x. r = Inr x) \<and> n = [Sent]"
      and Q = "\<lambda>a r n. settled_by k r n"])
  show "emits (call_send p) (\<lambda>r n. (\<exists>x. r = Inr x) \<and> n = [Sent])"
    by (rule emitsI) (simp add: call_send_def)
  fix answer
  show "emits (bindC (answer_completion env p att answer) (\<lambda>c.
      bindC (call_complete p (a_id att) fp k (completion_json (env_show env) c)) (\<lambda>_.
      bindC (call_write p att (finalInput (a_id att) (completion_outcome c))) (\<lambda>e'.
        retC (result_of c False attempted e')))))
      (\<lambda>r n. settled_by k r n)"
  proof (rule emits_bindC [OF emits_answer])
    fix c
    show "emits (bindC (call_complete p (a_id att) fp k (completion_json (env_show env) c)) (\<lambda>_.
      bindC (call_write p att (finalInput (a_id att) (completion_outcome c))) (\<lambda>e'.
        retC (result_of c False attempted e')))) (\<lambda>r n. settled_by k r n \<and> n \<noteq> [])"
    proof (rule emits_bindC [OF emits_complete])
      show "emits (bindC (call_write p att (finalInput (a_id att) (completion_outcome c))) (\<lambda>e'.
          retC (result_of c False attempted e'))) (\<lambda>r n. \<exists>st ok. n = [Wrote st ok])"
        by (rule emits_bindC [OF emits_write emits_retC [where P = "\<lambda>r n. n = []"]]) auto
    qed (auto simp: settled_by_def aftermath_def)
  qed (auto simp: settled_by_def aftermath_def)
qed (auto simp: settle_log_def)

definition lease_log :: "uuid \<Rightarrow> ('x process_error, process_result) result \<Rightarrow> call list \<Rightarrow> bool" where
  "lease_log k r n =
     ((\<exists>n'. n = n' @ [Authorized True, Wrote D_attempted True, Authorized True] \<and> settle_log k r n')
      \<or> (\<exists>ok. store_answer r ok
          \<and> n \<in> {[Releasing k ok, Authorized False], [Releasing k ok, Wrote D_attempted False, Authorized True],
                 [Releasing k ok, Authorized False, Wrote D_attempted True, Authorized True]}))"

lemma emits_denied:
    "emits (releaseProviderSendDenied p att fp k) (\<lambda>r n. \<exists>ok. n = [Releasing k ok] \<and> store_answer r ok)"
  unfolding releaseProviderSendDenied_def
proof (rule emits_bindC [OF emits_release, where Q = "\<lambda>_ r n. n = [] \<and> \<not> is_ok r"])
  show "emits (throwC (Processing PROVIDER_SEND_DISABLED)) (\<lambda>r n. n = [] \<and> \<not> is_ok r)"
    by (rule emits_throwC) simp
qed (simp_all add: ex_bool_eq)

lemma emits_attempted:
  "emits (record_attempted p att fp k) (\<lambda>r n. case r of
      Inr _ \<Rightarrow> n = [Wrote D_attempted True]
    | Inl e \<Rightarrow> \<exists>ok. n = [Releasing k ok, Wrote D_attempted False]
        \<and> (ok \<or> e = Processing IDEMPOTENCY_STORE_FAILED))"
  unfolding record_attempted_def
proof (rule emits_catchC [OF emits_write,
      where Q = "\<lambda>e r n. \<exists>ok. n = [Releasing k ok] \<and> \<not> is_ok r \<and> store_answer r ok"])
  fix e
  show "emits (bindC (call_release p (a_id att) fp k) (\<lambda>_. throwC e))
      (\<lambda>r n. \<exists>ok. n = [Releasing k ok] \<and> \<not> is_ok r \<and> store_answer r ok)"
  proof (rule emits_bindC [OF emits_release, where Q = "\<lambda>_ r n. n = [] \<and> \<not> is_ok r"])
    show "emits (throwC e) (\<lambda>r n. n = [] \<and> \<not> is_ok r)" by (rule emits_throwC) simp
  qed (simp_all add: ex_bool_eq)
qed (auto simp: attemptedInput_def is_ok_def split: sum.splits)

lemma emits_under_lease: "emits (send_under_lease env p att fp k) (lease_log k)"
  unfolding send_under_lease_def
proof (rule emits_bindC [OF emits_authorized])
  fix ok
  show "emits (if \<not> ok then releaseProviderSendDenied p att fp k
       else bindC (record_attempted p att fp k) (\<lambda>attempted.
            bindC (providerSendIsAuthorized p) (\<lambda>ok'.
              if \<not> ok' then releaseProviderSendDenied p att fp k
              else send_and_settle env p att fp k attempted)))
     (\<lambda>r n. if ok then lease_log k r (n @ [Authorized True])
        else \<exists>b. n = [Releasing k b] \<and> store_answer r b)"
  proof (cases ok)
    case True
    have inner: "emits (bindC (providerSendIsAuthorized p) (\<lambda>ok'.
              if \<not> ok' then releaseProviderSendDenied p att fp k
              else send_and_settle env p att fp k attempted))
        (\<lambda>r n. (\<exists>b. n = [Releasing k b, Authorized False] \<and> store_answer r b)
           \<or> (\<exists>n'. n = n' @ [Authorized True] \<and> settle_log k r n'))"
      for attempted
    proof (rule emits_bindC [OF emits_authorized])
      fix ok'
      show "emits (if \<not> ok' then releaseProviderSendDenied p att fp k else send_and_settle env p att fp k attempted)
          (\<lambda>r n. if ok' then settle_log k r n else \<exists>b. n = [Releasing k b] \<and> store_answer r b)"
        by (cases ok') (simp_all add: emits_settle emits_denied)
    qed (auto split: if_splits)
    show ?thesis
      using True by simp (rule emits_bindC [OF emits_attempted inner], auto simp: lease_log_def)
  next
    case False
    then show ?thesis by (simp add: emits_denied)
  qed
qed (auto simp: lease_log_def split: if_splits)

section \<open>The whole method\<close>

definition only_writes :: "call list \<Rightarrow> bool" where
  "only_writes n = list_all (\<lambda>c. case c of Wrote _ _ \<Rightarrow> True | _ \<Rightarrow> False) n"

definition claim_send_log ::
  "bool \<Rightarrow> ('x process_error, process_result) result \<Rightarrow> call list \<Rightarrow> bool" where
  "claim_send_log enabled r n =
     (n = []
      \<or> (\<exists>k n'. n = n' @ [Claimed (Some k)] \<and> enabled \<and> lease_log k r n')
      \<or> (\<exists>k. n = [Claimed (Some k)] \<and> \<not> token_ok k)
      \<or> (\<exists>n'. n = n' @ [Claimed None] \<and> only_writes n'))"

definition recovered_log :: "('x process_error, process_result) result \<Rightarrow> call list \<Rightarrow> bool" where
  "recovered_log r n =
     (n = []
      \<or> (\<exists>k n' obj ok. n = n' @ [Completing k obj ok, Claimed (Some k)] \<and> only_writes n' \<and> store_answer r ok)
      \<or> (\<exists>k. n = [Claimed (Some k)] \<and> \<not> token_ok k)
      \<or> (\<exists>n'. n = n' @ [Claimed None] \<and> only_writes n'))"

lemma only_writes_simps [simp]:
  "only_writes []" "only_writes (Wrote s b # n) = only_writes n"
  "only_writes (m @ n) = (only_writes m \<and> only_writes n)"
  by (simp_all add: only_writes_def)

lemma only_writesD:
  "only_writes l \<Longrightarrow> Claimed k \<notin> set l \<and> Releasing t ok \<notin> set l \<and> Completing t obj ok \<notin> set l \<and> Sent \<notin> set l"
  by (auto simp: only_writes_def list_all_iff)

lemma emits_writeCompletion: "emits (writeCompletion p att c again) (\<lambda>r n. only_writes n)"
  unfolding writeCompletion_def
proof (rule emits_bindC [OF emits_write])
  fix e
  show "emits (bindC (call_write p att (finalInput (a_id att) (completion_outcome c)))
      (\<lambda>e'. retC (result_of c again e e'))) (\<lambda>r n. only_writes n)"
    by (rule emits_bindC [OF emits_write emits_retC [where P = "\<lambda>r n. n = []"]]) auto
qed auto

lemma throw_claim_send_log: "emits (throwC e) (claim_send_log b)"
  by (rule emits_throwC) (simp add: claim_send_log_def)

lemma emits_claim_and_send: "emits (claim_and_send env p att fp) (claim_send_log (p_enabled p))"
proof -
  let ?k = "\<lambda>q. case q of
             Claim_busy \<Rightarrow> in_progress p att
           | Claim_settled c \<Rightarrow> writeCompletion p att c True
           | Claim_acquired k \<Rightarrow> send_under_lease env p att fp k"
  have "emits (bindC (claim_parsed env p att fp) ?k) (claim_send_log True)"
  proof (rule emits_bindC [OF emits_claim])
    fix q
    show "emits (?k q) (\<lambda>r n. case q of Claim_acquired k \<Rightarrow> lease_log k r n | _ \<Rightarrow> only_writes n)"
      by (cases q)
        (simp_all add: emits_under_lease emits_writeCompletion emits_mono [OF emits_in_progress])
  qed (auto simp: claim_send_log_def split: parsed_claim.splits)
  then show ?thesis by (simp add: claim_and_send_def throw_claim_send_log)
qed

lemma emits_recovered_completion: "emits (recoveredAdapterCompletion env p att rc) (\<lambda>r n. n = [])"
proof (cases rc)
  case (Inl e)
  have "emits (bindC (retry_decision p att e) (\<lambda>d. case d of
      Retry_decision ms m f \<Rightarrow> retC (retry_completion (ad_provider (p_adapter p)) ms m f)
    | Dlq why truth ex f \<Rightarrow> retC (dlq_completion (ad_provider (p_adapter p)) why truth f))) (\<lambda>r n. n = [])"
    by (rule emits_bindC [OF emits_retry_decision, where Q = "\<lambda>_ _ n. n = []"])
      (auto split: RetryDecision.split intro: emits_retC)
  then show ?thesis unfolding recoveredAdapterCompletion_def Inl sum.case .
next
  case (Inr v)
  then show ?thesis by (simp add: recoveredAdapterCompletion_def emits_retC)
qed

lemma emits_settle_recovered: "emits (settle_recovered env p att fp rc) recovered_log"
  unfolding settle_recovered_def
proof (rule emits_bindC [OF emits_recovered_completion, where Q = "\<lambda>_. recovered_log"])
  fix c
  let ?then = "\<lambda>q. case q of None \<Rightarrow> in_progress p att | Some c' \<Rightarrow> writeCompletion p att c' True"
  let ?log = "\<lambda>r n. (\<exists>k obj ok. n = [Completing k obj ok, Claimed (Some k)] \<and> store_answer r ok)
      \<or> (\<exists>k. n = [Claimed (Some k)] \<and> \<not> token_ok k \<and> \<not> is_ok r) \<or> n = [Claimed None]"
  have "emits (claimRecoveredAdapterCompletion env p att fp c) ?log"
    unfolding claimRecoveredAdapterCompletion_def
  proof (rule emits_bindC [OF emits_claim])
    fix q
    show "emits (case q of Claim_acquired k \<Rightarrow>
         bindC (call_complete p (a_id att) fp k (completion_json (env_show env) c)) (\<lambda>_. retC (Some c))
       | Claim_settled c' \<Rightarrow> retC (Some c') | Claim_busy \<Rightarrow> retC None)
      (\<lambda>r n. case q of Claim_acquired k \<Rightarrow> \<exists>obj ok. n = [Completing k obj ok] \<and> store_answer r ok | _ \<Rightarrow> n = [])"
    proof (cases q)
      case (Claim_acquired k)
      have "emits (bindC (call_complete p (a_id att) fp k (completion_json (env_show env) c)) (\<lambda>_. retC (Some c)))
          (\<lambda>r n. \<exists>obj ok. n = [Completing k obj ok] \<and> store_answer r ok)"
      proof (rule emits_bindC [OF emits_complete, where Q = "\<lambda>_ r n. n = [] \<and> is_ok r"])
        show "emits (retC (Some c)) (\<lambda>r n. n = [] \<and> is_ok r)" by (rule emits_retC) simp
      qed (simp_all add: ex_bool_eq)
      then show ?thesis by (simp add: Claim_acquired)
    qed (simp_all add: emits_retC)
  qed (auto split: parsed_claim.splits)
  moreover have "emits (?then q) (\<lambda>r n. only_writes n)" for q
    by (cases q) (simp_all add: emits_writeCompletion emits_mono [OF emits_in_progress])
  ultimately show "emits (bindC (claimRecoveredAdapterCompletion env p att fp c) ?then) recovered_log"
    by (rule emits_bindC) (auto simp: recovered_log_def)
qed (auto simp: recovered_log_def)

definition quiet :: "call list \<Rightarrow> bool" where
  "quiet n = (set n \<subseteq> {Looked_up, Recovered})"

definition process_log ::
  "bool \<Rightarrow> ('x process_error, process_result) result \<Rightarrow> call list \<Rightarrow> bool" where
  "process_log enabled r n =
     (\<exists>m pre. n = m @ pre \<and> quiet pre
        \<and> (claim_send_log enabled r m \<or> recovered_log r m \<or> only_writes m))"

lemma process_logI:
  "claim_send_log b r n \<Longrightarrow> quiet pre \<Longrightarrow> process_log b r (n @ pre)"
  "recovered_log r n \<Longrightarrow> quiet pre \<Longrightarrow> process_log b r (n @ pre)"
  "only_writes n \<Longrightarrow> quiet pre \<Longrightarrow> process_log b r (n @ pre)"
  by (auto simp: process_log_def)

lemma process_log_append: "process_log b r n \<Longrightarrow> quiet pre \<Longrightarrow> process_log b r (n @ pre)"
  unfolding process_log_def quiet_def by (metis append_assoc le_sup_iff set_append)

lemma quiet_simps [simp]: "quiet []" "quiet [Looked_up]" "quiet [Recovered]"
  by (simp_all add: quiet_def)

lemma throw_process_log: "emits (throwC e) (process_log b)"
  using process_logI(3) [of "[]" "[]"] by (auto intro: emits_throwC)

lemma emits_recover_or_send: "emits (recover_or_send env p att fp) (process_log (p_enabled p))"
proof (cases "ad_recover (p_adapter p)")
  case None
  then show ?thesis
    using process_logI(1) [of _ _ _ "[]"]
    by (auto simp: recover_or_send_def intro: emits_mono [OF emits_claim_and_send])
next
  case (Some f)
  have call: "emits (call_recover f) (\<lambda>r n. n = [Recovered])"
    by (rule emitsI) (simp add: call_recover_def)
  have "emits (case r of
            Recovery_in_progress \<Rightarrow> in_progress p att
          | Recovery_outcome v \<Rightarrow> settle_recovered env p att fp (Inr v)
          | Recovery_error e \<Rightarrow> settle_recovered env p att fp (Inl e)
          | Recovery_missing \<Rightarrow> claim_and_send env p att fp
          | Recovery_other \<Rightarrow> throwC (Processing IDEMPOTENCY_STORE_FAILED))
     (\<lambda>q n. claim_send_log (p_enabled p) q n \<or> recovered_log q n)" for r
    by (cases r) (auto simp: recovered_log_def intro: emits_throwC emits_mono [OF emits_in_progress]
        emits_mono [OF emits_claim_and_send] emits_mono [OF emits_settle_recovered, unfolded recovered_log_def])
  with call show ?thesis
    unfolding recover_or_send_def Some option.case
    by (rule emits_bindC) (auto intro: process_logI process_logI(3) [of "[]", simplified])
qed

lemma emits_process_item: "emits (process_item env p item) (process_log (p_enabled p))"
proof -
  let ?att = "w_attempt item" and ?fp = "env_fingerprint env item"
  let ?then = "\<lambda>q. case q of Found_busy \<Rightarrow> in_progress p ?att
      | Found_settled c \<Rightarrow> writeCompletion p ?att c True | _ \<Rightarrow> recover_or_send env p ?att ?fp"
  have lk: "emits (lookup_parsed env p ?att ?fp) (\<lambda>r n. n = [Looked_up])"
    unfolding lookup_parsed_def call_lookup_def
    by (rule emits_bindC [OF emits_store_call emits_liftR [where P = "\<lambda>r n. n = []"]])
      (auto split: sum.splits)
  have "emits (?then q) (process_log (p_enabled p))" for q
    using process_logI(3) [of _ "[]"]
    by (cases q) (auto intro: emits_recover_or_send emits_mono [OF emits_writeCompletion]
        emits_mono [OF emits_in_progress])
  with lk have "emits (bindC (lookup_parsed env p ?att ?fp) ?then) (process_log (p_enabled p))"
    by (rule emits_bindC) (auto intro: process_log_append process_logI(3) [of "[]", simplified])
  then show ?thesis by (simp add: process_item_def Let_def)
qed

lemma emits_process: "emits (process env p v) (process_log (p_enabled p))"
  unfolding process_def
  by (rule emits_bindC [OF emits_liftR [where P = "\<lambda>r n. n = []"], where Q = "\<lambda>_. process_log (p_enabled p)"])
    (use process_logI(3) [of "[]" "[]"] in \<open>auto simp: emits_process_item throw_process_log\<close>)

text \<open>C1: one run of \<open>process\<close> calls the provider at most once, and only
  with sending enabled, right after a fresh authorization that followed the accepted evidence of
  the attempt, itself behind an earlier authorization and a lease acquired in this run. After
  the call it does nothing but complete the attempt under that lease and record the outcome; in
  particular it never releases the lease.\<close>

theorem provider_send_protocol:
  assumes "process env p v w = (r, w')"
  shows "\<exists>new. calls w' = new @ calls w
    \<and> (Sent \<in> set new \<longrightarrow> p_enabled p \<and>
        (\<exists>k pre post. new = post @ [Sent, Authorized True, Wrote D_attempted True, Authorized True,
                                    Claimed (Some k)] @ pre
           \<and> set pre \<subseteq> {Looked_up, Recovered} \<and> aftermath k post))"
proof -
  obtain new where new: "calls w' = new @ calls w" and "process_log (p_enabled p) r new"
    using emits_process assms by (rule emitsE)
  then obtain m pre where n: "new = m @ pre" "quiet pre"
    and m: "claim_send_log (p_enabled p) r m \<or> recovered_log r m \<or> only_writes m"
    by (auto simp: process_log_def)
  have "p_enabled p \<and> (\<exists>k post. m = post @ [Sent, Authorized True, Wrote D_attempted True, Authorized True,
      Claimed (Some k)] \<and> aftermath k post)" if "Sent \<in> set new"
  proof -
    have "Sent \<in> set m" using that n by (auto simp: quiet_def)
    then obtain k n' where "m = n' @ [Claimed (Some k)]" "p_enabled p" "lease_log k r n'" "Sent \<in> set n'"
      using m by (auto simp: claim_send_log_def recovered_log_def dest: only_writesD)
    then show ?thesis by (auto simp: lease_log_def settle_log_def settled_by_def)
  qed
  then show ?thesis using new n by (fastforce simp: quiet_def)
qed

text \<open>C27: every lease that \<open>process\<close> acquires under a token that
  \<open>parseClaim\<close> takes meets one of three ends. The run gives it back, and then it did not call the
  provider; or it completes the attempt under it; or it called the provider and could not decide the
  failure, because the retry policy or the random source was refused, and then it returns that error
  and leaves the lease to expire. A release or completion that the store refuses is not silent: the
  run then fails with \<open>IDEMPOTENCY_STORE_FAILED\<close>, and on every other result it succeeded. Nothing is
  released or completed under a token that was not acquired in the run.\<close>

theorem acquired_lease_accounted:
  assumes "process env p v w = (r, w')"
  shows "\<exists>new. calls w' = new @ calls w
    \<and> (\<forall>k. Claimed (Some k) \<in> set new \<and> token_ok k \<longrightarrow>
          (let released = (\<exists>ok. Releasing k ok \<in> set new); completed = (\<exists>obj ok. Completing k obj ok \<in> set new)
           in released \<and> \<not> completed \<and> Sent \<notin> set new
              \<or> completed \<and> \<not> released
              \<or> Sent \<in> set new \<and> \<not> released \<and> \<not> completed \<and> (\<exists>e. r = Inl (Retry_refused e))))
    \<and> (\<forall>k ok. (Releasing k ok \<in> set new \<or> (\<exists>obj. Completing k obj ok \<in> set new)) \<longrightarrow>
          Claimed (Some k) \<in> set new \<and> (ok \<or> r = Inl (Processing IDEMPOTENCY_STORE_FAILED)))"
proof -
  obtain new where new: "calls w' = new @ calls w" and "process_log (p_enabled p) r new"
    using emits_process assms(1) by (rule emitsE)
  then obtain m pre where n: "new = m @ pre" "quiet pre"
    and m: "claim_send_log (p_enabled p) r m \<or> recovered_log r m \<or> only_writes m"
    by (auto simp: process_log_def)
  let ?fate = "\<lambda>l. (\<forall>k. Claimed (Some k) \<in> set l \<and> token_ok k \<longrightarrow>
          (let released = (\<exists>ok. Releasing k ok \<in> set l); completed = (\<exists>obj ok. Completing k obj ok \<in> set l)
           in released \<and> \<not> completed \<and> Sent \<notin> set l
              \<or> completed \<and> \<not> released
              \<or> Sent \<in> set l \<and> \<not> released \<and> \<not> completed \<and> (\<exists>e. r = Inl (Retry_refused e))))
    \<and> (\<forall>k ok. (Releasing k ok \<in> set l \<or> (\<exists>obj. Completing k obj ok \<in> set l)) \<longrightarrow>
          Claimed (Some k) \<in> set l \<and> (ok \<or> r = Inl (Processing IDEMPOTENCY_STORE_FAILED)))"
  have w: "Claimed k \<notin> set l \<and> Releasing t ok \<notin> set l \<and> Completing t obj ok \<notin> set l \<and> Sent \<notin> set l"
    if "only_writes l" for l k t obj ok
    using only_writesD [OF that] by simp
  have lease: "?fate (l @ [Claimed (Some k)])" if "lease_log k r l" for l k
    using that
    by (auto simp: lease_log_def settle_log_def settled_by_def aftermath_def store_answer_def Let_def)
  have claimed: "?fate m" if c: "claim_send_log (p_enabled p) r m"
    using c unfolding claim_send_log_def
  proof (elim disjE exE conjE)
    fix k n' assume "m = n' @ [Claimed (Some k)]" and "lease_log k r n'"
    then show "?fate m" using lease by simp
  qed (use w in fastforce)+
  have recovered: "?fate m" if c: "recovered_log r m"
    using c unfolding recovered_log_def store_answer_def Let_def
    by (elim disjE exE conjE) (use w in fastforce)+
  have "?fate m" using m claimed recovered w by (elim disjE) auto
  moreover have "Claimed k \<notin> set pre \<and> Releasing t ok \<notin> set pre \<and> Completing t obj ok \<notin> set pre \<and> Sent \<notin> set pre"
    for k t obj ok
    using n(2) by (auto simp: quiet_def)
  ultimately have "?fate new" unfolding n(1) by auto
  then show ?thesis using new by blast
qed

end
