(* ===== verification/Processor_Replay.thy ===== *)
theory Processor_Replay
  imports Processor_Safety
begin

text \<open>
  The processor over a store that keeps completions: what a run that finished leaves in the
  store, and that every later run of the same attempt is answered from it. The lemmas are about
  any store of the interface; the properties are about the store of the server.
\<close>

section \<open>What the store holds after a run\<close>

text \<open>Other workers may complete attempts, but they do not change a completion that is there.\<close>

definition steady :: "('s \<Rightarrow> uuid \<Rightarrow> js_value option) \<Rightarrow> (call list \<Rightarrow> 's \<Rightarrow> 's) \<Rightarrow> bool" where
  "steady kept others = (\<forall>l s a x. kept s a = Some x \<longrightarrow> kept (others l s) a = Some x)"

text \<open>The writer accepts only facts that pass their schema.\<close>

definition validating :: "(channel_attempt \<Rightarrow> evidence_fact \<Rightarrow> ('w, 'x, delivery_evidence) comp) \<Rightarrow> bool" where
  "validating wr =
     (\<forall>att i l e l'. wr att i l = (Inr e, l') \<longrightarrow> RecordDeliveryEvidenceInputSchema i)"

text \<open>A validated instance of the server's writer.\<close>

lemma recordAttemptEvidence_validating: "validating (\<lambda>att i. recordAttemptEvidence bound gen clock att i)"
  by (auto simp: validating_def recordAttemptEvidence_def write_request_ok_def split: if_splits)

lemma call_write_Inr:
  assumes "call_write p att i w = (Inr e, w')"
  shows "shop w' = shop w" and "validating (p_writer p) \<Longrightarrow> RecordDeliveryEvidenceInputSchema i"
  using assms unfolding validating_def
  by (simp_all add: call_write_def split: prod.splits sum.splits) (auto, blast)

lemma writeCompletion_Inr:
  assumes "writeCompletion p att c again w = (Inr res, w')"
  obtains e e' where "res = result_of c again e e'" "shop w' = shop w"
proof -
  from assms obtain e w1 where 1: "call_write p att (attemptedInput (a_id att)) w = (Inr e, w1)"
    and "bindC (call_write p att (finalInput (a_id att) (completion_outcome c)))
      (\<lambda>e'. retC (result_of c again e e')) w1 = (Inr res, w')"
    unfolding writeCompletion_def by (rule bindC_InrE)
  then obtain e' where "call_write p att (finalInput (a_id att) (completion_outcome c)) w1 = (Inr e', w')"
    and "res = result_of c again e e'"
    by (auto simp: retC_def elim!: bindC_InrE)
  then show ?thesis using that call_write_Inr(1) [OF 1] call_write_Inr(1) by metis
qed

text \<open>The completions that a processor composes.\<close>

lemma decided_completion_ok:
  assumes "as_retry (decideProviderRetry e (Finite (of_int k)) pol rnd) = Inr (Retry_decision ms n f)"
    and "outcome_ok a provider (failureOutcome D_failed provider (code f) (diagnosticDigest f))"
  shows "completion_ok a provider (retry_completion provider ms n f)"
proof -
  have d: "decideProviderRetry e (Finite (of_int k)) pol rnd = Inr (Retry_decision ms n f)"
    using assms(1) by (cases "decideProviderRetry e (Finite (of_int k)) pol rnd") auto
  then have pol: "policy_ok pol" and k: "1 \<le> k" and n: "n = k + 1"
    and delay: "calculateRetryDelayMilliseconds (Finite (of_int k)) pol rnd = Inr ms"
    unfolding decideProviderRetry_retry by (auto simp: attempt_ok_def js_int_def)
  have "1 \<le> ms" using pol delay by (rule calculateRetryDelay_range(1))
  moreover have "safe_code (code f)"
    using assms(2)
    by (auto simp: outcome_ok_def with_subject_def failureOutcome_def RecordDeliveryEvidenceInputSchema_def
        evidence_shape_def reason_code_ok_def bounded_text_def safe_code_def safe_code_char_def list_all_iff)
  ultimately show ?thesis
    using assms(2) k n by (simp add: failureOutcome_def)
qed

lemma outcome_or_unknown_ok:
  assumes "uuid_ok a"
    and "RecordDeliveryEvidenceInputSchema (with_subject a (outcome_or_unknown env v a provider))"
  shows "outcome_ok a provider (outcome_or_unknown env v a provider)"
proof (cases "parseProviderOutcome (env_read env) v a provider")
  case (Inl x)
  then show ?thesis
    using assms(2)
    by (simp add: outcome_or_unknown_def outcome_ok_def invalid_outcome_def failureOutcome_def provider_states_def)
next
  case (Inr s)
  then show ?thesis
    using parsed_outcome_ok [OF Inr assms(1)] by (simp add: outcome_or_unknown_def)
qed

definition composed :: "channel_attempt \<Rightarrow> string \<Rightarrow> attempt_completion \<Rightarrow> bool" where
  "composed att provider c =
     (RecordDeliveryEvidenceInputSchema (finalInput (a_id att) (completion_outcome c)) \<longrightarrow>
        completion_ok (a_id att) provider c)"

lemma composed_final:
  "uuid_ok (a_id att) \<Longrightarrow> composed att provider (Final_completion (outcome_or_unknown env v (a_id att) provider))"
  by (simp add: composed_def finalInput_def outcome_or_unknown_ok)

lemma composed_retry:
  assumes "as_retry (decideProviderRetry e (Finite (of_int k)) pol rnd) = Inr (Retry_decision ms n f)"
  shows "composed att provider (retry_completion provider ms n f)"
  using decided_completion_ok [OF assms, of "a_id att" provider]
  by (simp add: composed_def finalInput_def outcome_ok_def failureOutcome_def provider_states_def)

lemma composed_dlq: "composed att provider (dlq_completion provider why truth f)"
  by (cases truth)
    (simp_all add: composed_def finalInput_def outcome_ok_def failureOutcome_def provider_states_def)

lemma answer_composed:
  assumes "answer_completion env p att answer w = (Inr c, w')" and "uuid_ok (a_id att)"
  shows "w' = w" and "composed att (ad_provider (p_adapter p)) c"
  using assms
  by (auto simp: answer_completion_def Let_def retC_def bindC_def retry_decision_def composed_final composed_retry
      simp del: retry_completion.simps
      split: sum.splits RetryDecision.splits prod.splits)

lemma recovered_composed:
  assumes "recoveredAdapterCompletion env p att rc w = (Inr c, w')" and "uuid_ok (a_id att)"
  shows "w' = w" and "composed att (ad_provider (p_adapter p)) c"
  using assms
  by (auto simp: recoveredAdapterCompletion_def retC_def bindC_def retry_decision_def
      composed_final composed_retry composed_dlq simp del: retry_completion.simps dlq_completion.simps
      split: sum.splits RetryDecision.splits prod.splits)

section \<open>Runs over a store of the interface\<close>

text \<open>The result of a run agrees with the completion that the state keeps for the attempt.\<close>

definition explained ::
  "(string \<Rightarrow> timestamp option) \<Rightarrow> string \<Rightarrow> process_result \<Rightarrow> uuid \<Rightarrow> (uuid \<Rightarrow> js_value option) \<Rightarrow> bool" where
  "explained rd provider res a held =
     (\<exists>c again e e' x. res = result_of c again e e' \<and> held a = Some x
        \<and> parseCompletion rd x a provider = Inr c)"

lemma explainedI:
  "held a = Some x \<Longrightarrow> parseCompletion rd x a provider = Inr c \<Longrightarrow>
     explained rd provider (result_of c again e e') a held"
  by (auto simp: explained_def)

lemma in_progress_result: "in_progress p att w = (Inr res, w') \<Longrightarrow> \<exists>d. res = In_progress d"
  by (auto simp: in_progress_def retC_def elim!: bindC_InrE)

lemma as_processing_Inr [simp]: "as_processing x = Inr y \<longleftrightarrow> x = Inr y"
  by (cases x) auto

lemma store_call_Inr:
  assumes "store_call p m entry w = (Inr y, w')"
  shows "m (es_others (p_store p) (calls w) (shop w)) = (Inr y, shop w')"
  using assms by (auto simp: store_call_def split: prod.splits sum.splits)

context attempt_execution_store
begin

definition runs_on where
  "runs_on p others =
     (p_store p = \<lparr>es_lookup = lookup_op, es_claim = claim_op, es_complete = complete_op,
        es_release = release_op, es_others = others\<rparr> \<and> steady kept others)"

lemma runs_onD:
  assumes "runs_on p others"
  shows "es_lookup (p_store p) = lookup_op" "es_claim (p_store p) = claim_op"
    "es_complete (p_store p) = complete_op" "es_release (p_store p) = release_op"
    "es_others (p_store p) = others" "steady kept others"
  using assms by (simp_all add: runs_on_def)

lemma lookup_settled:
  assumes on: "runs_on p others" and run: "lookup_parsed env p att fp w = (Inr (Found_settled c), w')"
  shows "\<exists>x. kept (shop w') (a_id att) = Some x
    \<and> parseCompletion (env_read env) x (a_id att) (ad_provider (p_adapter p)) = Inr c"
proof -
  obtain q where 1: "call_lookup p (a_id att) fp w = (Inr q, w')"
    and q: "parseLookup (env_read env) q (a_id att) (ad_provider (p_adapter p)) = Inr (Found_settled c)"
    using run by (auto simp: lookup_parsed_def liftR_def elim!: bindC_InrE)
  then obtain x where x: "q = Lookup_completed x"
    "parseCompletion (env_read env) x (a_id att) (ad_provider (p_adapter p)) = Inr c"
    by (cases q) (auto simp: bindR_Inr_iff)
  have l: "lookup_op (a_id att) fp (others (calls w) (shop w)) = (Inr (Lookup_completed x), shop w')"
    using store_call_Inr [OF 1 [unfolded call_lookup_def]] x runs_onD [OF on] by simp
  show ?thesis using lookup_completed [OF l] lookup_kept [OF l] x(2) by metis
qed

lemma lookup_open_none:
  assumes on: "runs_on p others" and run: "lookup_parsed env p att fp w = (Inr q, w')"
    and "kept (shop w) (a_id att) = Some x"
  shows "kept (shop w') (a_id att) = Some x \<and> (\<exists>c. q = Found_settled c
    \<and> parseCompletion (env_read env) x (a_id att) (ad_provider (p_adapter p)) = Inr c)"
proof -
  obtain y where 1: "call_lookup p (a_id att) fp w = (Inr y, w')"
    and q: "parseLookup (env_read env) y (a_id att) (ad_provider (p_adapter p)) = Inr q"
    using run by (auto simp: lookup_parsed_def liftR_def elim!: bindC_InrE)
  have l: "lookup_op (a_id att) fp (others (calls w) (shop w)) = (Inr y, shop w')"
    using store_call_Inr [OF 1 [unfolded call_lookup_def]] runs_onD [OF on] by simp
  have k: "kept (others (calls w) (shop w)) (a_id att) = Some x"
    using runs_onD(6) [OF on] assms(3) by (simp add: steady_def)
  then obtain v where "y = Lookup_completed v" using lookup_open [OF l] by fastforce
  moreover from this have "v = x" using lookup_completed l k by fastforce
  ultimately show ?thesis using q lookup_kept [OF l] k by (auto simp: bindR_Inr_iff)
qed

lemma claim_parsed_settled:
  assumes on: "runs_on p others" and run: "claim_parsed env p att fp w = (Inr (Claim_settled c), w')"
  shows "\<exists>x. kept (shop w') (a_id att) = Some x
    \<and> parseCompletion (env_read env) x (a_id att) (ad_provider (p_adapter p)) = Inr c"
proof -
  obtain q where 1: "call_claim p (a_id att) fp w = (Inr q, w')"
    and q: "parseClaim (env_read env) q (a_id att) (ad_provider (p_adapter p)) = Inr (Claim_settled c)"
    using run by (auto simp: claim_parsed_def liftR_def elim!: bindC_InrE)
  then obtain x where x: "q = Claim_completed x"
    "parseCompletion (env_read env) x (a_id att) (ad_provider (p_adapter p)) = Inr c"
    by (cases q) (auto simp: bindR_Inr_iff split: if_splits)
  have l: "claim_op (a_id att) fp (p_lease p) (others (calls w) (shop w)) = (Inr (Claim_completed x), shop w')"
    using store_call_Inr [OF 1 [unfolded call_claim_def]] x runs_onD [OF on] by simp
  show ?thesis using claim_completed [OF l] claim_kept [OF l] x(2) by metis
qed

lemma completed_kept:
  assumes on: "runs_on p others" and run: "call_complete p a fp k obj w = (Inr u, w')"
  shows "kept (shop w') a = Some (JObj obj)"
proof -
  have "complete_op a fp k obj (others (calls w) (shop w)) = (Inr u, shop w')"
    using store_call_Inr [OF run [unfolded call_complete_def]] runs_onD [OF on] by simp
  then show ?thesis by (simp add: complete_kept)
qed

text \<open>What every stage assumes of the processor and its surroundings.\<close>

definition sound_setting where
  "sound_setting env p others att =
     (runs_on p others \<and> validating (p_writer p) \<and> uuid_ok (a_id att)
      \<and> (\<forall>t. env_read env (env_show env t) = Some t))"

lemma stored_completion_read:
  assumes "sound_setting env p others att"
    and "composed att (ad_provider (p_adapter p)) c"
    and "RecordDeliveryEvidenceInputSchema (finalInput (a_id att) (completion_outcome c))"
  shows "parseCompletion (env_read env) (JObj (completion_json (env_show env) c)) (a_id att)
    (ad_provider (p_adapter p)) = Inr c"
  using assms by (intro parse_completion_json) (auto simp: sound_setting_def composed_def)

lemma send_and_settle_explained:
  assumes s: "sound_setting env p others att"
    and run: "send_and_settle env p att fp k e w = (Inr res, w')"
  shows "explained (env_read env) (ad_provider (p_adapter p)) res (a_id att) (kept (shop w'))"
proof -
  from run obtain answer c u e' w1 w2 w3 where
    c: "answer_completion env p att answer w1 = (Inr c, w2)"
    and d: "call_complete p (a_id att) fp k (completion_json (env_show env) c) w2 = (Inr u, w3)"
    and wr: "call_write p att (finalInput (a_id att) (completion_outcome c)) w3 = (Inr e', w')"
    and res: "res = result_of c False e e'"
    unfolding send_and_settle_def by (elim bindC_InrE) (auto simp: retC_def intro: that)
  have on: "runs_on p others" and v: "validating (p_writer p)" and id: "uuid_ok (a_id att)"
    using s by (simp_all add: sound_setting_def)
  have "kept (shop w') (a_id att) = Some (JObj (completion_json (env_show env) c))"
    using completed_kept [OF on d] call_write_Inr(1) [OF wr] by simp
  then show ?thesis
    unfolding res
    using stored_completion_read [OF s answer_composed(2) [OF c id] call_write_Inr(2) [OF wr v]]
    by (rule explainedI)
qed

lemma send_under_lease_explained:
  assumes s: "sound_setting env p others att"
    and run: "send_under_lease env p att fp k w = (Inr res, w')"
  shows "explained (env_read env) (ad_provider (p_adapter p)) res (a_id att) (kept (shop w'))"
proof -
  have denied: "releaseProviderSendDenied p att fp k u \<noteq> (Inr res, w')" for u
    by (auto simp: releaseProviderSendDenied_def throwC_def elim!: bindC_InrE)
  show ?thesis
    using run send_and_settle_explained [OF s]
    by (auto simp: send_under_lease_def denied elim!: bindC_InrE split: if_splits)
qed

lemma settled_explained:
  assumes "kept (shop w) (a_id att) = Some x"
    and "parseCompletion (env_read env) x (a_id att) (ad_provider (p_adapter p)) = Inr c"
    and "writeCompletion p att c again w = (Inr res, w')"
  shows "explained (env_read env) (ad_provider (p_adapter p)) res (a_id att) (kept (shop w'))"
  using assms(3) by (rule writeCompletion_Inr) (use assms in \<open>auto simp: explained_def\<close>)

lemma claim_and_send_explained:
  assumes s: "sound_setting env p others att" and fin: "\<And>d. res \<noteq> In_progress d"
    and run: "claim_and_send env p att fp w = (Inr res, w')"
  shows "explained (env_read env) (ad_provider (p_adapter p)) res (a_id att) (kept (shop w'))"
proof -
  from run obtain q w1 where q: "claim_parsed env p att fp w = (Inr q, w1)"
    and rest: "(case q of
             Claim_busy \<Rightarrow> in_progress p att
           | Claim_settled c \<Rightarrow> writeCompletion p att c True
           | Claim_acquired k \<Rightarrow> send_under_lease env p att fp k) w1 = (Inr res, w')"
    by (auto simp: claim_and_send_def throwC_def elim!: bindC_InrE split: if_splits)
  have on: "runs_on p others" using s by (simp add: sound_setting_def)
  show ?thesis
  proof (cases q)
    case (Claim_acquired k)
    then show ?thesis using rest send_under_lease_explained [OF s] by simp
  next
    case (Claim_settled c)
    then show ?thesis
      using rest claim_parsed_settled [OF on q [unfolded Claim_settled]] settled_explained by fastforce
  next
    case Claim_busy
    then show ?thesis using rest fin in_progress_result by fastforce
  qed
qed

lemma settle_recovered_explained:
  assumes s: "sound_setting env p others att" and fin: "\<And>d. res \<noteq> In_progress d"
    and run: "settle_recovered env p att fp rc w = (Inr res, w')"
  shows "explained (env_read env) (ad_provider (p_adapter p)) res (a_id att) (kept (shop w'))"
proof -
  have on: "runs_on p others" and v: "validating (p_writer p)" and id: "uuid_ok (a_id att)"
    using s by (simp_all add: sound_setting_def)
  from run obtain c q w1 w2 where c: "recoveredAdapterCompletion env p att rc w = (Inr c, w1)"
    and q: "claimRecoveredAdapterCompletion env p att fp c w1 = (Inr q, w2)"
    and rest: "(case q of None \<Rightarrow> in_progress p att | Some c' \<Rightarrow> writeCompletion p att c' True) w2 = (Inr res, w')"
    unfolding settle_recovered_def by (elim bindC_InrE)
  obtain c' where c': "q = Some c'" using rest fin in_progress_result by (cases q) fastforce+
  then have wr: "writeCompletion p att c' True w2 = (Inr res, w')" using rest by simp
  from q obtain k w3 where k: "claim_parsed env p att fp w1 = (Inr k, w3)"
    and after: "(case k of Claim_busy \<Rightarrow> retC None | Claim_settled c' \<Rightarrow> retC (Some c')
     | Claim_acquired k \<Rightarrow> bindC (call_complete p (a_id att) fp k (completion_json (env_show env) c))
         (\<lambda>_. retC (Some c))) w3 = (Inr (Some c'), w2)"
    unfolding claimRecoveredAdapterCompletion_def c' by (elim bindC_InrE)
  show ?thesis
  proof (cases k)
    case (Claim_acquired t)
    then obtain u where "call_complete p (a_id att) fp t (completion_json (env_show env) c) w3 = (Inr u, w2)"
      and cc: "c' = c"
      using after by (auto simp: retC_def elim!: bindC_InrE)
    then have kp: "kept (shop w2) (a_id att) = Some (JObj (completion_json (env_show env) c))"
      using completed_kept [OF on] by blast
    have "RecordDeliveryEvidenceInputSchema (finalInput (a_id att) (completion_outcome c))"
      using wr v unfolding writeCompletion_def cc by (auto simp: retC_def elim!: bindC_InrE dest: call_write_Inr(2))
    from stored_completion_read [OF s recovered_composed(2) [OF c id] this]
    show ?thesis using kp wr cc settled_explained by blast
  next
    case (Claim_settled d)
    then have "d = c'" "w2 = w3" using after by (auto simp: retC_def)
    then show ?thesis
      using claim_parsed_settled [OF on k [unfolded Claim_settled]] wr settled_explained by blast
  next
    case Claim_busy
    then show ?thesis using after by (simp add: retC_def)
  qed
qed

lemma recover_or_send_explained:
  assumes s: "sound_setting env p others att" and fin: "\<And>d. res \<noteq> In_progress d"
    and run: "recover_or_send env p att fp w = (Inr res, w')"
  shows "explained (env_read env) (ad_provider (p_adapter p)) res (a_id att) (kept (shop w'))"
proof (cases "ad_recover (p_adapter p)")
  case None
  then show ?thesis using run claim_and_send_explained [OF s fin] by (simp add: recover_or_send_def)
next
  case (Some f)
  from run obtain r w1 where rest: "(case r of
            Recovery_in_progress \<Rightarrow> in_progress p att
          | Recovery_outcome v \<Rightarrow> settle_recovered env p att fp (Inr v)
          | Recovery_error e \<Rightarrow> settle_recovered env p att fp (Inl e)
          | Recovery_missing \<Rightarrow> claim_and_send env p att fp
          | Recovery_other \<Rightarrow> throwC (Processing IDEMPOTENCY_STORE_FAILED)) w1 = (Inr res, w')"
    unfolding recover_or_send_def Some option.case by (elim bindC_InrE)
  then show ?thesis
  proof (cases r)
    case Recovery_in_progress
    then have "in_progress p att w1 = (Inr res, w')"
      using rest by simp
    then show ?thesis using in_progress_result fin by blast
  qed (use claim_and_send_explained [OF s fin] settle_recovered_explained [OF s fin]
      rest in \<open>simp_all add: throwC_def\<close>)
qed

lemma process_InrE:
  assumes "process env p v w = (Inr res, w')"
    and item: "parseWorkerAttemptWorkItem (outside.truncate env) v = Inr item"
  obtains q w1 where
    "lookup_parsed env p (w_attempt item) (env_fingerprint env item) w = (Inr q, w1)"
    "(case q of Found_busy \<Rightarrow> in_progress p (w_attempt item)
      | Found_settled c \<Rightarrow> writeCompletion p (w_attempt item) c True
      | _ \<Rightarrow> recover_or_send env p (w_attempt item) (env_fingerprint env item)) w1 = (Inr res, w')"
proof -
  have "process_item env p item w = (Inr res, w')"
    using assms(1) by (simp add: process_parsed [OF item] split: if_splits)
  then show ?thesis
    unfolding process_item_def Let_def by (rule bindC_InrE) (rule that)
qed

lemma process_explained:
  assumes s: "sound_setting env p others (w_attempt item)" and fin: "\<And>d. res \<noteq> In_progress d"
    and item: "parseWorkerAttemptWorkItem (outside.truncate env) v = Inr item"
    and run: "process env p v w = (Inr res, w')"
  shows "explained (env_read env) (ad_provider (p_adapter p)) res (a_id (w_attempt item)) (kept (shop w'))"
  using run item
proof (rule process_InrE)
  fix q w1
  assume q: "lookup_parsed env p (w_attempt item) (env_fingerprint env item) w = (Inr q, w1)"
    and rest: "(case q of Found_busy \<Rightarrow> in_progress p (w_attempt item)
      | Found_settled c \<Rightarrow> writeCompletion p (w_attempt item) c True
      | _ \<Rightarrow> recover_or_send env p (w_attempt item) (env_fingerprint env item)) w1 = (Inr res, w')"
  have on: "runs_on p others" using s by (simp add: sound_setting_def)
  show ?thesis
  proof (cases q)
    case (Found_settled c)
    then show ?thesis
      using rest lookup_settled [OF on q [unfolded Found_settled]] settled_explained by fastforce
  next
    case Found_busy
    then show ?thesis using rest fin in_progress_result by fastforce
  qed (use rest recover_or_send_explained [OF s fin] in simp_all)
qed

text \<open>A run on an attempt whose completion is kept.\<close>

lemma process_settled:
  assumes on: "runs_on p others"
    and item: "parseWorkerAttemptWorkItem (outside.truncate env) v = Inr item"
    and held: "kept (shop w) (a_id (w_attempt item)) = Some x"
    and run: "process env p v w = (r, w')"
  shows "(\<exists>n. calls w' = n @ calls w \<and> Sent \<notin> set n \<and> (\<forall>k. Claimed k \<notin> set n))
    \<and> (\<forall>res. r = Inr res \<longrightarrow> (\<exists>c e e'. res = result_of c True e e'
         \<and> parseCompletion (env_read env) x (a_id (w_attempt item)) (ad_provider (p_adapter p)) = Inr c))"
proof -
  let ?att = "w_attempt item" and ?fp = "env_fingerprint env item"
  have start: "process env p v w = (if ad_channel (p_adapter p) \<noteq> b_channel (w_batch item)
          \<or> ad_integrationId (p_adapter p) \<noteq> b_integrationId (w_batch item)
       then (Inl (Processing ADAPTER_MISMATCH), w)
       else bindC (lookup_parsed env p ?att ?fp) (\<lambda>q. case q of
                 Found_busy \<Rightarrow> in_progress p ?att
               | Found_settled c \<Rightarrow> writeCompletion p ?att c True
               | _ \<Rightarrow> recover_or_send env p ?att ?fp) w)"
    by (simp add: process_parsed [OF item] process_item_def Let_def)
  obtain y w1 where y: "lookup_parsed env p ?att ?fp w = (y, w1)" by (cases "lookup_parsed env p ?att ?fp w")
  have log: "calls w1 = Looked_up # calls w"
    using y by (auto simp: lookup_parsed_def call_lookup_def store_call_def bindC_def liftR_def
        split: prod.splits sum.splits)
  show ?thesis
  proof (cases y)
    case (Inl e)
    then have "r = Inl e \<and> w' = w1 \<or> w' = w \<and> (\<exists>e. r = Inl e)"
      using run start by (auto simp: bindC_def y throwC_def split: if_splits)
    then show ?thesis using log by auto
  next
    case (Inr q)
    then obtain c where q: "q = Found_settled c"
      and c: "parseCompletion (env_read env) x (a_id ?att) (ad_provider (p_adapter p)) = Inr c"
      using lookup_open_none [OF on _ held] y by blast
    have run': "writeCompletion p ?att c True w1 = (r, w') \<or> w' = w \<and> (\<exists>e. r = Inl e)"
      using run start by (auto simp: bindC_def y Inr q throwC_def split: if_splits)
    then show ?thesis
    proof
      assume wc: "writeCompletion p ?att c True w1 = (r, w')"
      obtain n where n: "calls w' = n @ calls w1" "only_writes n"
        using emits_writeCompletion wc by (rule emitsE)
      have "\<exists>c e e'. res = result_of c True e e' \<and>
          parseCompletion (env_read env) x (a_id ?att) (ad_provider (p_adapter p)) = Inr c" if "r = Inr res" for res
        using wc [unfolded that] by (rule writeCompletion_Inr) (use c in blast)
      moreover have "calls w' = (n @ [Looked_up]) @ calls w \<and> Sent \<notin> set (n @ [Looked_up])
          \<and> (\<forall>k. Claimed k \<notin> set (n @ [Looked_up]))"
        using n log only_writesD [OF n(2)] by simp
      ultimately show ?thesis by blast
    qed auto
  qed
qed

end

section \<open>Over the durable store\<close>

text \<open>C4: once the durable store keeps a completion for an attempt,
  no redelivery of its work item, to any worker and whatever happens around it, calls the
  provider or claims the attempt, and a run that returns is a replay of that completion.\<close>

theorem settled_attempt_never_resent:
  assumes "p_store p = \<lparr>es_lookup = lookup_now clock, es_claim = claim_now gen clock,
      es_complete = complete_now clock, es_release = release_now, es_others = others\<rparr>"
    and "steady kept_now others"
    and "parseWorkerAttemptWorkItem (outside.truncate env) v = Inr item"
    and "kept_now (shop w) (a_id (w_attempt item)) = Some x"
    and "process env p v w = (r, w')"
  shows "(\<exists>n. calls w' = n @ calls w \<and> Sent \<notin> set n \<and> (\<forall>k. Claimed k \<notin> set n))
    \<and> (\<forall>res. r = Inr res \<longrightarrow> (\<exists>c e e'. res = result_of c True e e'
         \<and> parseCompletion (env_read env) x (a_id (w_attempt item)) (ad_provider (p_adapter p)) = Inr c))"
  using assms(1,2)
  by (intro durable_store.process_settled [OF _ assms(3-5)]) (simp add: durable_store.runs_on_def)

text \<open>C20: processing is idempotent. When a run has finished an
  attempt, by a send, by recovery or by replay, any later run of the same item that returns
  gives the same completion with the replay mark and does not call the provider, however much
  time passed and whatever other attempts were completed in between.\<close>

theorem processed_attempt_is_replayed:
  assumes "p_store p = \<lparr>es_lookup = lookup_now clock, es_claim = claim_now gen clock,
      es_complete = complete_now clock, es_release = release_now, es_others = others\<rparr>"
    and "steady kept_now others" and "validating (p_writer p)"
    and "\<And>t. env_read env (env_show env t) = Some t"
    and "parseWorkerAttemptWorkItem (outside.truncate env) v = Inr item"
    and "process env p v w = (Inr res, w')" and "\<And>d. res \<noteq> In_progress d"
    and "kept_now (shop w') \<subseteq>\<^sub>m kept_now (shop w2)"
    and "process env p v w2 = (Inr res2, w3)"
  shows "\<exists>c again e e' d d'. res = result_of c again e e' \<and> res2 = result_of c True d d'
    \<and> (\<exists>n. calls w3 = n @ calls w2 \<and> Sent \<notin> set n)"
proof -
  have on: "durable_store.runs_on clock gen p others"
    using assms(1,2) by (simp add: durable_store.runs_on_def)
  have "uuid_ok (a_id (w_attempt item))"
    using parse_work_ok(1) [OF assms(5)] by (simp add: work_ok_def ChannelAttemptSchema_def)
  then have "durable_store.sound_setting clock gen env p others (w_attempt item)"
    using on assms(3,4) by (simp add: durable_store.sound_setting_def)
  from durable_store.process_explained [OF this assms(7) assms(5) assms(6)]
  obtain c again e e' x where res: "res = result_of c again e e'"
    and x: "kept_now (shop w') (a_id (w_attempt item)) = Some x"
    and c: "parseCompletion (env_read env) x (a_id (w_attempt item)) (ad_provider (p_adapter p)) = Inr c"
    by (auto simp: explained_def)
  have "kept_now (shop w2) (a_id (w_attempt item)) = Some x"
    using assms(8) x by (auto simp: map_le_def dom_def)
  from durable_store.process_settled [OF on assms(5) this assms(9)] show ?thesis
    using res c by fastforce
qed

section \<open>A send, and its redelivery\<close>

definition accepted_json :: js_value where
  "accepted_json = JObj [(''state'', JStr ''provider-accepted''), (''provider'', JStr ''ses''),
     (''providerReference'', JStr ''ref-1''), (''proof'', JNull), (''reasonCode'', JNull),
     (''diagnosticDigest'', JNull)]"

definition sample_adapter :: adapter where
  "sample_adapter = \<lparr>ad_channel = Email, ad_integrationId = ''ses-email'', ad_provider = ''ses'',
     ad_semantics = ''attempt-id-idempotent'', ad_recover = None, ad_send = (\<lambda>_. Inr accepted_json)\<rparr>"

definition run_ids :: "nat \<Rightarrow> uuid" where
  "run_ids n = (if n = 0 then nil_uuid else max_uuid)"

definition durable :: "(clocked_store, store_error) execution_store" where
  "durable = \<lparr>es_lookup = lookup_now int, es_claim = claim_now run_ids int, es_complete = complete_now int,
     es_release = release_now, es_others = (\<lambda>_ s. s)\<rparr>"

definition sample_processor :: "(clocked_store, store_error, delivery_db, delivery_error) processor" where
  "sample_processor = \<lparr>p_adapter = sample_adapter, p_store = durable,
     p_writer = (\<lambda>att i. recordAttemptEvidence (\<lambda>_. True) run_ids int att i),
     p_policy = DEFAULT_RETRY_POLICY, p_lease = Finite 60000, p_random = (\<lambda>_. Finite 0),
     p_authorize = None, p_enabled = True\<rparr>"

definition sample_env :: environment where
  "sample_env = \<lparr>json_parse = (\<lambda>_. None), email_ok = (\<lambda>_. True), env_read = stroke_read,
     env_show = stroke_show, env_fingerprint = (\<lambda>_. ''f'')\<rparr>"

definition world0 :: "(clocked_store, delivery_db) world" where
  "world0 = \<lparr>shop = \<lparr>base = empty_store, readings = 0\<rparr>,
     ledger = \<lparr>attempts = [], facts = [], uuidsDrawn = 0, clockReads = 0\<rparr>, calls = []\<rparr>"

definition world1 :: "(clocked_store, delivery_db) world" where
  "world1 = snd (process_item sample_env sample_processor rehearsal_item world0)"

definition world2 :: "(clocked_store, delivery_db) world" where
  "world2 = snd (process_item sample_env sample_processor rehearsal_item world1)"

definition answer1 where
  "answer1 = fst (process_item sample_env sample_processor rehearsal_item world0)"

definition answer2 where
  "answer2 = fst (process_item sample_env sample_processor rehearsal_item world1)"

fun finished :: "('e, process_result) result \<Rightarrow> bool" where
  "finished (Inr (Finished _ _ _ _ _)) = True"
| "finished _ = False"

lemma finishedE:
  assumes "finished r"
  obtains k b s e e' where "r = Inr (Finished k b s e e')"
  using assms by (cases r rule: finished.cases) auto

lemma finished_Inr: "finished r \<Longrightarrow> r \<noteq> Inl e"
  by auto

lemma first_run:
  "(case process_item sample_env sample_processor rehearsal_item world0 of (r, w) \<Rightarrow>
      finished r \<and> Sent \<in> set (calls w) \<and> Claimed (Some nil_uuid) \<in> set (calls w))"
  by code_simp

lemma second_run: "finished (fst (process_item sample_env sample_processor rehearsal_item world1))"
  by code_simp

lemma sample_setting:
  "p_store sample_processor = \<lparr>es_lookup = lookup_now int, es_claim = claim_now run_ids int,
     es_complete = complete_now int, es_release = release_now, es_others = (\<lambda>_ s. s)\<rparr>"
  "steady kept_now (\<lambda>_ s. s)" "validating (p_writer sample_processor)"
  "env_read sample_env (env_show sample_env t) = Some t"
  "parseWorkerAttemptWorkItem (outside.truncate sample_env) rehearsal_work = Inr rehearsal_item"
proof -
  have "outside.truncate sample_env = sample_outside"
    by (simp add: sample_env_def sample_outside_def outside.truncate_def)
  then show "parseWorkerAttemptWorkItem (outside.truncate sample_env) rehearsal_work = Inr rehearsal_item"
    using rehearsal_accepted by simp
qed (simp_all add: sample_processor_def durable_def steady_def recordAttemptEvidence_validating sample_env_def)

lemma run_pair:
  "process sample_env sample_processor rehearsal_work world0 = (answer1, world1)"
  "process sample_env sample_processor rehearsal_work world1 = (answer2, world2)"
proof -
  have "ad_channel (p_adapter sample_processor) = b_channel (w_batch rehearsal_item)"
    "ad_integrationId (p_adapter sample_processor) = b_integrationId (w_batch rehearsal_item)"
    by (simp_all add: sample_processor_def sample_adapter_def rehearsal_item_def rehearsal_batch_def sample_batch_def)
  then show "process sample_env sample_processor rehearsal_work world0 = (answer1, world1)"
    "process sample_env sample_processor rehearsal_work world1 = (answer2, world2)"
    by (simp_all add: process_parsed [OF sample_setting(5)] world1_def world2_def answer1_def answer2_def)
qed

lemma run_facts:
  "finished answer1" "Sent \<in> set (calls world1)" "Claimed (Some nil_uuid) \<in> set (calls world1)"
  "finished answer2" "calls world0 = []"
  using first_run second_run
  by (simp_all add: answer1_def answer2_def world1_def world0_def split: prod.splits)

theorem provider_send_protocol_witness:
  "\<exists>k pre post. calls world1 = post @ [Sent, Authorized True, Wrote D_attempted True, Authorized True,
       Claimed (Some k)] @ pre \<and> aftermath k post"
  using provider_send_protocol [OF run_pair(1)] run_facts by (metis append_Nil2)

theorem acquired_lease_accounted_witness:
  "\<exists>obj. Completing nil_uuid obj True \<in> set (calls world1)"
proof -
  have "\<forall>e. answer1 \<noteq> Inl e" using finished_Inr [OF run_facts(1)] by simp
  moreover have "token_ok nil_uuid" by (simp add: token_ok_def nil_uuid_def)
  ultimately show ?thesis
    using acquired_lease_accounted [OF run_pair(1)] run_facts by (metis append_Nil2)
qed

theorem processed_attempt_is_replayed_witness:
  "\<exists>c again e e' d d'. answer1 = Inr (result_of c again e e') \<and> answer2 = Inr (result_of c True d d')"
proof -
  obtain k b s e e' where a1: "answer1 = Inr (Finished k b s e e')" using run_facts(1) by (rule finishedE)
  obtain k' b' s' d d' where a2: "answer2 = Inr (Finished k' b' s' d d')" using run_facts(4) by (rule finishedE)
  have "kept_now (shop world1) \<subseteq>\<^sub>m kept_now (shop world1)" by simp
  from processed_attempt_is_replayed [OF sample_setting(1-5) run_pair(1) [unfolded a1] _ this run_pair(2) [unfolded a2]]
  show ?thesis unfolding a1 a2 by fastforce
qed

lemma world1_settled: "\<exists>x. kept_now (shop world1) (a_id (w_attempt rehearsal_item)) = Some x"
proof -
  obtain k b s e e' where a1: "answer1 = Inr (Finished k b s e e')" using run_facts(1) by (rule finishedE)
  have "durable_store.sound_setting int run_ids sample_env sample_processor (\<lambda>_ s. s) (w_attempt rehearsal_item)"
    using sample_setting
    by (simp add: durable_store.sound_setting_def durable_store.runs_on_def)
       (simp add: rehearsal_item_def rehearsal_attempt_def)
  from durable_store.process_explained [OF this _ sample_setting(5) run_pair(1) [unfolded a1]]
  show ?thesis by (auto simp: explained_def)
qed

theorem settled_attempt_never_resent_witness:
  "\<exists>n. calls world2 = n @ calls world1 \<and> Sent \<notin> set n"
  using world1_settled settled_attempt_never_resent [OF sample_setting(1,2,5) _ run_pair(2)] by blast

end
