(* ===== verification/Rate_Limit.thy ===== *)
theory Rate_Limit
  imports Contracts
begin

text \<open>
  \<open>packages/server/lib/http/sliding-window.ts\<close> and
  \<open>packages/server/lib/agents/rate-limit.ts\<close>: the sliding-log budget and the two budgets of an
  agent key. A clock is read as a number of milliseconds. The reference at the end keeps every
  admission for ever; the limiter is shown to decide as it does.
\<close>

section \<open>One window\<close>

record sliding_window =
  admitted :: "int list"
  refused :: "string set"

datatype window_decision =
  Window_admitted
| Window_refused (retryAfterSeconds: js_number) (firstRefusal: bool)

definition createSlidingWindow :: sliding_window where
  "createSlidingWindow = \<lparr>admitted = [], refused = {}\<rparr>"

definition pruneSlidingWindow :: "sliding_window \<Rightarrow> int \<Rightarrow> sliding_window" where
  "pruneSlidingWindow w cutoff = w\<lparr>admitted := filter (\<lambda>t. t > cutoff) (admitted w)\<rparr>"

definition isSlidingWindowEmpty :: "sliding_window \<Rightarrow> bool" where
  "isSlidingWindowEmpty w = (admitted w = [])"

datatype clock_error = Invalid_clock

definition slidingWindowClock :: "js_number \<Rightarrow> (clock_error, int) result" where
  "slidingWindowClock now = (if \<not> js_finite now then Inl Invalid_clock else Inr (js_int now))"

text \<open>
  The least of no numbers is \<open>Infinity\<close>, so a limit of zero refuses with an infinite wait.
\<close>

definition retry_after :: "int list \<Rightarrow> int \<Rightarrow> int \<Rightarrow> js_number" where
  "retry_after ts windowMs now =
     (case ts of [] \<Rightarrow> Not_finite
      | t # us \<Rightarrow> Finite (of_int (max 1 \<lceil>of_int (fold min us t + windowMs - now) / (1000 :: rat)\<rceil>)))"

definition decideSlidingWindow ::
  "sliding_window \<Rightarrow> string \<Rightarrow> int \<Rightarrow> int \<Rightarrow> int \<Rightarrow> window_decision \<times> sliding_window" where
  "decideSlidingWindow w callKind limit windowMs now =
     (let w' = pruneSlidingWindow w (now - windowMs)
      in if int (length (admitted w')) < limit
         then (Window_admitted, w'\<lparr>admitted := admitted w' @ [now], refused := {}\<rparr>)
         else (Window_refused (retry_after (admitted w') windowMs now) (callKind \<notin> refused w'),
               w'\<lparr>refused := insert callKind (refused w')\<rparr>))"

section \<open>The budgets of an agent key\<close>

definition AGENT_RATE_LIMIT_REQUESTS_PER_MINUTE :: int where
  "AGENT_RATE_LIMIT_REQUESTS_PER_MINUTE = 60"

definition AGENT_RATE_LIMIT_MINUTE_WINDOW_MS :: int where
  "AGENT_RATE_LIMIT_MINUTE_WINDOW_MS = 60 * 1000"

definition AGENT_RATE_LIMIT_COSTLY_REQUESTS_PER_HOUR :: int where
  "AGENT_RATE_LIMIT_COSTLY_REQUESTS_PER_HOUR = 20"

definition AGENT_RATE_LIMIT_HOUR_WINDOW_MS :: int where
  "AGENT_RATE_LIMIT_HOUR_WINDOW_MS = 60 * 60 * 1000"

definition AGENT_RATE_LIMIT_COSTLY_CAPABILITY_IDS :: "string list" where
  "AGENT_RATE_LIMIT_COSTLY_CAPABILITY_IDS =
     [''export-drill-records'', ''export-event-summary'', ''create-activation-preview'']"

datatype limit_window = Per_minute | Per_hour
datatype request_kind = Request_kind | Protected_action

fun kind_name :: "request_kind \<Rightarrow> string" where
  "kind_name Request_kind = ''request''"
| "kind_name Protected_action = ''protected-action''"

datatype limit_decision = Admitted | Refused limit_window js_number bool

record key_windows =
  minute :: sliding_window
  hour :: sliding_window

text \<open>\<open>sweptAt\<close> is \<open>None\<close> for minus infinity.\<close>

record limiter =
  keys :: "string \<rightharpoonup> key_windows"
  sweptAt :: "int option"

definition createAgentRequestLimiter :: limiter where
  "createAgentRequestLimiter = \<lparr>keys = Map.empty, sweptAt = None\<rparr>"

definition decide_window ::
  "sliding_window \<Rightarrow> limit_window \<Rightarrow> string \<Rightarrow> int \<Rightarrow> int \<Rightarrow> int \<Rightarrow> limit_decision \<times> sliding_window" where
  "decide_window w windowKind requestKind limit windowMs now =
     (case decideSlidingWindow w requestKind limit windowMs now of
        (Window_admitted, w') \<Rightarrow> (Admitted, w')
      | (Window_refused s f, w') \<Rightarrow> (Refused windowKind s f, w'))"

definition sweep_key :: "int \<Rightarrow> key_windows \<Rightarrow> key_windows option" where
  "sweep_key now ws =
     (let m = pruneSlidingWindow (minute ws) (now - AGENT_RATE_LIMIT_MINUTE_WINDOW_MS);
          h = pruneSlidingWindow (hour ws) (now - AGENT_RATE_LIMIT_HOUR_WINDOW_MS)
      in if isSlidingWindowEmpty m \<and> isSlidingWindowEmpty h then None
         else Some \<lparr>minute = m, hour = h\<rparr>)"

definition swept :: "int \<Rightarrow> limiter \<Rightarrow> limiter" where
  "swept now l =
     (if (case sweptAt l of None \<Rightarrow> True | Some s \<Rightarrow> now - s \<ge> AGENT_RATE_LIMIT_HOUR_WINDOW_MS)
      then \<lparr>keys = (\<lambda>k. case keys l k of None \<Rightarrow> None | Some ws \<Rightarrow> sweep_key now ws), sweptAt = Some now\<rparr>
      else l)"

definition new_windows :: key_windows where
  "new_windows = \<lparr>minute = createSlidingWindow, hour = createSlidingWindow\<rparr>"

definition windowsFor :: "limiter \<Rightarrow> string \<Rightarrow> int \<Rightarrow> key_windows \<times> limiter" where
  "windowsFor l keyId now =
     (case keys (swept now l) keyId of
        Some ws \<Rightarrow> (ws, swept now l)
      | None \<Rightarrow> (new_windows, (swept now l)\<lparr>keys := (keys (swept now l))(keyId \<mapsto> new_windows)\<rparr>))"

definition admit :: "string \<Rightarrow> js_number \<Rightarrow> request_kind \<Rightarrow> limiter \<Rightarrow> (clock_error, limit_decision) result \<times> limiter" where
  "admit keyId nowValue requestKind l =
     (case slidingWindowClock nowValue of
        Inl e \<Rightarrow> (Inl e, l)
      | Inr now \<Rightarrow>
          (case windowsFor l keyId now of (ws, l') \<Rightarrow>
             (case decide_window (minute ws) Per_minute (kind_name requestKind)
                     AGENT_RATE_LIMIT_REQUESTS_PER_MINUTE AGENT_RATE_LIMIT_MINUTE_WINDOW_MS now of
                (d, m) \<Rightarrow> (Inr d, l'\<lparr>keys := (keys l')(keyId \<mapsto> ws\<lparr>minute := m\<rparr>)\<rparr>))))"

definition admitCostly :: "string \<Rightarrow> string \<Rightarrow> js_number \<Rightarrow> limiter \<Rightarrow> (clock_error, limit_decision) result \<times> limiter" where
  "admitCostly keyId capabilityId nowValue l =
     (case slidingWindowClock nowValue of
        Inl e \<Rightarrow> (Inl e, l)
      | Inr now \<Rightarrow>
          if capabilityId \<notin> set AGENT_RATE_LIMIT_COSTLY_CAPABILITY_IDS then (Inr Admitted, l)
          else (case windowsFor l keyId now of (ws, l') \<Rightarrow>
             (case decide_window (hour ws) Per_hour ''costly''
                     AGENT_RATE_LIMIT_COSTLY_REQUESTS_PER_HOUR AGENT_RATE_LIMIT_HOUR_WINDOW_MS now of
                (d, h) \<Rightarrow> (Inr d, l'\<lparr>keys := (keys l')(keyId \<mapsto> ws\<lparr>hour := h\<rparr>)\<rparr>))))"

section \<open>A limiter that keeps every admission\<close>

text \<open>
  The reference: every admission of a key is kept for ever, nothing is swept, and a call is
  admitted while fewer than the limit fall inside the trailing window.
\<close>

record admission_log =
  past :: "int list"
  turnedAway :: "string set"

fun limit_of :: "limit_window \<Rightarrow> int" where
  "limit_of Per_minute = AGENT_RATE_LIMIT_REQUESTS_PER_MINUTE"
| "limit_of Per_hour = AGENT_RATE_LIMIT_COSTLY_REQUESTS_PER_HOUR"

fun span_of :: "limit_window \<Rightarrow> int" where
  "span_of Per_minute = AGENT_RATE_LIMIT_MINUTE_WINDOW_MS"
| "span_of Per_hour = AGENT_RATE_LIMIT_HOUR_WINDOW_MS"

lemma limit_pos [simp]: "0 < limit_of v"
  by (cases v) (simp_all add: AGENT_RATE_LIMIT_REQUESTS_PER_MINUTE_def AGENT_RATE_LIMIT_COSTLY_REQUESTS_PER_HOUR_def)

definition recent :: "int \<Rightarrow> int list \<Rightarrow> int list" where
  "recent cutoff ts = filter (\<lambda>t. t > cutoff) ts"

definition log_decide :: "limit_window \<Rightarrow> string \<Rightarrow> int \<Rightarrow> admission_log \<Rightarrow> limit_decision \<times> admission_log" where
  "log_decide v k now a =
     (let inside = recent (now - span_of v) (past a)
      in if int (length inside) < limit_of v
         then (Admitted, \<lparr>past = past a @ [now], turnedAway = {}\<rparr>)
         else (Refused v (retry_after inside (span_of v) now) (k \<notin> turnedAway a),
               a\<lparr>turnedAway := insert k (turnedAway a)\<rparr>))"

datatype agent_call =
  Call_admit (call_key: string) (call_time: int) request_kind
| Call_costly (call_key: string) string (call_time: int)

fun agent_step :: "agent_call \<Rightarrow> limiter \<Rightarrow> (clock_error, limit_decision) result \<times> limiter" where
  "agent_step (Call_admit k t q) l = admit k (Finite (of_int t)) q l"
| "agent_step (Call_costly k c t) l = admitCostly k c (Finite (of_int t)) l"

fun agent_run :: "agent_call list \<Rightarrow> limiter \<Rightarrow> (clock_error, limit_decision) result list" where
  "agent_run [] l = []"
| "agent_run (c # cs) l = (case agent_step c l of (d, l') \<Rightarrow> d # agent_run cs l')"

text \<open>The budget that a call is charged to, and the kind it is refused under.\<close>

fun charged_to :: "agent_call \<Rightarrow> (limit_window \<times> string) option" where
  "charged_to (Call_admit k t q) = Some (Per_minute, kind_name q)"
| "charged_to (Call_costly k c t) =
     (if c \<in> set AGENT_RATE_LIMIT_COSTLY_CAPABILITY_IDS then Some (Per_hour, ''costly'') else None)"

definition log_step ::
  "agent_call \<Rightarrow> (string \<Rightarrow> limit_window \<Rightarrow> admission_log)
     \<Rightarrow> limit_decision \<times> (string \<Rightarrow> limit_window \<Rightarrow> admission_log)" where
  "log_step c r =
     (case charged_to c of
        None \<Rightarrow> (Admitted, r)
      | Some (v, k) \<Rightarrow>
          (case log_decide v k (call_time c) (r (call_key c) v) of
             (d, a) \<Rightarrow> (d, r(call_key c := (r (call_key c))(v := a)))))"

fun log_run :: "agent_call list \<Rightarrow> (string \<Rightarrow> limit_window \<Rightarrow> admission_log) \<Rightarrow> limit_decision list" where
  "log_run [] r = []"
| "log_run (c # cs) r = (case log_step c r of (d, r') \<Rightarrow> d # log_run cs r')"

definition no_admissions :: "string \<Rightarrow> limit_window \<Rightarrow> admission_log" where
  "no_admissions k v = \<lparr>past = [], turnedAway = {}\<rparr>"

section \<open>The limiter decides as the reference\<close>

definition sim_window :: "int \<Rightarrow> limit_window \<Rightarrow> sliding_window \<Rightarrow> admission_log \<Rightarrow> bool" where
  "sim_window now v w a =
     ((\<forall>c \<ge> now - span_of v. recent c (admitted w) = recent c (past a))
      \<and> (refused w = turnedAway a \<or> recent (now - span_of v) (past a) = []))"

lemma recent_recent: "recent c (recent d ts) = recent (max c d) ts"
  by (simp add: recent_def conj_commute)

lemma recent_append [simp]: "recent c (xs @ ys) = recent c xs @ recent c ys"
  by (simp add: recent_def)

lemma recent_empty_later: "recent c ts = [] \<Longrightarrow> c \<le> d \<Longrightarrow> recent d ts = []"
  by (auto simp: recent_def filter_empty_conv)

lemma prune_recent: "pruneSlidingWindow w c = w\<lparr>admitted := recent c (admitted w)\<rparr>"
  by (simp add: pruneSlidingWindow_def recent_def)

lemma sim_later: "sim_window t v w a \<Longrightarrow> t \<le> now \<Longrightarrow> sim_window now v w a"
  by (auto simp: sim_window_def dest: recent_empty_later [where d = "now - span_of v"])

lemma sim_prune: "sim_window now v w a \<Longrightarrow> sim_window now v (pruneSlidingWindow w (now - span_of v)) a"
  by (auto simp: sim_window_def prune_recent recent_recent max_absorb1)

lemma sim_fresh:
  "sim_window now v w a \<Longrightarrow> recent (now - span_of v) (admitted w) = [] \<Longrightarrow> sim_window now v createSlidingWindow a"
  by (auto simp: sim_window_def createSlidingWindow_def recent_def [of _ "[]"]
      dest: recent_empty_later [where c = "now - span_of v"])

lemma decide_window_sim:
  assumes "sim_window now v w a"
  shows "\<exists>w'. decide_window w v k (limit_of v) (span_of v) now = (fst (log_decide v k now a), w')
    \<and> sim_window now v w' (snd (log_decide v k now a))"
proof -
  let ?c = "now - span_of v"
  have inside: "recent ?c (admitted w) = recent ?c (past a)" using assms by (simp add: sim_window_def)
  show ?thesis
  proof (cases "int (length (recent ?c (past a))) < limit_of v")
    case True
    then show ?thesis
      using assms
      by (auto simp: decide_window_def decideSlidingWindow_def log_decide_def prune_recent Let_def inside
          sim_window_def recent_recent max_absorb1)
  next
    case False
    then have "recent ?c (past a) \<noteq> []" by auto
    then have "refused w = turnedAway a" using assms by (simp add: sim_window_def)
    then show ?thesis
      using False assms
      by (auto simp: decide_window_def decideSlidingWindow_def log_decide_def prune_recent Let_def inside
          sim_window_def recent_recent max_absorb1)
  qed
qed

fun window_at :: "limit_window \<Rightarrow> key_windows \<Rightarrow> sliding_window" where
  "window_at Per_minute ws = minute ws"
| "window_at Per_hour ws = hour ws"

definition held_windows :: "limiter \<Rightarrow> string \<Rightarrow> key_windows" where
  "held_windows l k = (case keys l k of None \<Rightarrow> new_windows | Some ws \<Rightarrow> ws)"

definition sim_limiter :: "int \<Rightarrow> limiter \<Rightarrow> (string \<Rightarrow> limit_window \<Rightarrow> admission_log) \<Rightarrow> bool" where
  "sim_limiter now l r = (\<forall>k v. sim_window now v (window_at v (held_windows l k)) (r k v))"

lemma window_at_new [simp]: "window_at v new_windows = createSlidingWindow"
  by (cases v) (simp_all add: new_windows_def)

lemma sweep_key_sim:
  assumes "\<And>v. sim_window now v (window_at v ws) (a v)"
  shows "sim_window now v (window_at v (case sweep_key now ws of None \<Rightarrow> new_windows | Some x \<Rightarrow> x)) (a v)"
proof (cases "sweep_key now ws")
  case None
  then have "recent (now - span_of v) (admitted (window_at v ws)) = []"
    by (cases v) (auto simp: sweep_key_def Let_def isSlidingWindowEmpty_def prune_recent split: if_splits)
  then show ?thesis using sim_fresh [OF assms] None by simp
next
  case (Some x)
  then have "window_at v x = pruneSlidingWindow (window_at v ws) (now - span_of v)"
    by (cases v) (auto simp: sweep_key_def Let_def split: if_splits)
  then show ?thesis using sim_prune [OF assms] Some by simp
qed

lemma windowsFor_sim:
  assumes "sim_limiter now l r" and "windowsFor l k now = (ws, l')"
  shows "ws = held_windows l' k" and "sim_limiter now l' r"
proof -
  define l1 where "l1 = swept now l"
  have w: "(ws, l') = (case keys l1 k of Some ws \<Rightarrow> (ws, l1)
      | None \<Rightarrow> (new_windows, l1\<lparr>keys := (keys l1)(k \<mapsto> new_windows)\<rparr>))"
    using assms(2) unfolding windowsFor_def l1_def by (rule sym)
  have "sim_limiter now l1 r"
  proof (cases "l1 = l")
    case False
    then have l1: "keys l1 = (\<lambda>k. case keys l k of None \<Rightarrow> None | Some ws \<Rightarrow> sweep_key now ws)"
      by (auto simp: l1_def swept_def split: if_splits)
    show ?thesis unfolding sim_limiter_def
    proof (intro allI)
      fix j v
      have s: "sim_window now v (window_at v (held_windows l j)) (r j v)" for v
        using assms(1) by (simp add: sim_limiter_def)
      show "sim_window now v (window_at v (held_windows l1 j)) (r j v)"
      proof (cases "keys l j")
        case None
        then show ?thesis using s [of v] by (simp add: held_windows_def l1)
      next
        case (Some y)
        then show ?thesis
          using sweep_key_sim [of now y "r j" v] s by (simp add: held_windows_def l1)
      qed
    qed
  qed (use assms(1) in simp)
  moreover have "held_windows l' j = held_windows l1 j" for j
    using w by (auto simp: held_windows_def split: option.splits if_splits)
  ultimately show "sim_limiter now l' r" by (simp add: sim_limiter_def)
  show "ws = held_windows l' k" using w by (auto simp: held_windows_def split: option.splits)
qed

lemma sim_update:
  assumes "sim_limiter now l r" and "keys l' = (keys l)(k \<mapsto> ws)"
    and "\<And>u. u \<noteq> v \<Longrightarrow> window_at u ws = window_at u (held_windows l k)"
    and "sim_window now v (window_at v ws) a"
  shows "sim_limiter now l' (r(k := (r k)(v := a)))"
  unfolding sim_limiter_def
proof (intro allI)
  fix j u
  have "sim_window now u (window_at u (held_windows l j)) (r j u)"
    using assms(1) by (simp add: sim_limiter_def)
  then show "sim_window now u (window_at u (held_windows l' j)) ((r(k := (r k)(v := a))) j u)"
    using assms(2-4) by (cases "j = k"; cases "u = v") (auto simp: held_windows_def)
qed

lemma agent_step_sim:
  assumes "sim_limiter t l r" and "t \<le> call_time c"
  shows "\<exists>l'. agent_step c l = (Inr (fst (log_step c r)), l') \<and> sim_limiter (call_time c) l' (snd (log_step c r))"
proof -
  let ?now = "call_time c" and ?k = "call_key c"
  have s: "sim_limiter ?now l r"
    using assms sim_later unfolding sim_limiter_def by blast
  obtain ws l1 where w: "windowsFor l ?k ?now = (ws, l1)" by (cases "windowsFor l ?k ?now")
  have ws: "ws = held_windows l1 ?k" and s1: "sim_limiter ?now l1 r"
    using windowsFor_sim [OF s w] by simp_all
  have one: "\<exists>x. decide_window (window_at v ws) v k (limit_of v) (span_of v) ?now = (fst (log_decide v k ?now (r ?k v)), x)
      \<and> sim_window ?now v x (snd (log_decide v k ?now (r ?k v)))" for v k
    using s1 unfolding ws by (intro decide_window_sim) (simp add: sim_limiter_def)
  show ?thesis
  proof (cases c)
    case (Call_admit k t q)
    obtain x where x: "decide_window (minute ws) Per_minute (kind_name q) AGENT_RATE_LIMIT_REQUESTS_PER_MINUTE
        AGENT_RATE_LIMIT_MINUTE_WINDOW_MS t = (fst (log_decide Per_minute (kind_name q) t (r k Per_minute)), x)"
      "sim_window t Per_minute x (snd (log_decide Per_minute (kind_name q) t (r k Per_minute)))"
      using one [of Per_minute "kind_name q"] Call_admit by auto
    have "sim_limiter t (l1\<lparr>keys := (keys l1)(k \<mapsto> ws\<lparr>minute := x\<rparr>)\<rparr>)
        (r(k := (r k)(Per_minute := snd (log_decide Per_minute (kind_name q) t (r k Per_minute)))))"
    proof (rule sim_update [OF s1 [unfolded Call_admit agent_call.sel], where ws = "ws\<lparr>minute := x\<rparr>"])
      show "u \<noteq> Per_minute \<Longrightarrow> window_at u (ws\<lparr>minute := x\<rparr>) = window_at u (held_windows l1 k)" for u
        using ws Call_admit by (cases u) simp_all
    qed (use x(2) in simp_all)
    then show ?thesis
      using w x(1) Call_admit
      by (auto simp: admit_def slidingWindowClock_def log_step_def split: prod.split)
  next
    case (Call_costly k q t)
    show ?thesis
    proof (cases "q \<in> set AGENT_RATE_LIMIT_COSTLY_CAPABILITY_IDS")
      case True
      obtain x where x: "decide_window (hour ws) Per_hour ''costly'' AGENT_RATE_LIMIT_COSTLY_REQUESTS_PER_HOUR
          AGENT_RATE_LIMIT_HOUR_WINDOW_MS t = (fst (log_decide Per_hour ''costly'' t (r k Per_hour)), x)"
        "sim_window t Per_hour x (snd (log_decide Per_hour ''costly'' t (r k Per_hour)))"
        using one [of Per_hour "''costly''"] Call_costly by auto
      have "sim_limiter t (l1\<lparr>keys := (keys l1)(k \<mapsto> ws\<lparr>hour := x\<rparr>)\<rparr>)
          (r(k := (r k)(Per_hour := snd (log_decide Per_hour ''costly'' t (r k Per_hour)))))"
      proof (rule sim_update [OF s1 [unfolded Call_costly agent_call.sel], where ws = "ws\<lparr>hour := x\<rparr>"])
        show "u \<noteq> Per_hour \<Longrightarrow> window_at u (ws\<lparr>hour := x\<rparr>) = window_at u (held_windows l1 k)" for u
          using ws Call_costly by (cases u) simp_all
      qed (use x(2) in simp_all)
      then show ?thesis
        using w x(1) Call_costly True
        by (auto simp: admitCostly_def slidingWindowClock_def log_step_def split: prod.split)
    next
      case False
      then show ?thesis
        using s Call_costly by (auto simp: admitCostly_def slidingWindowClock_def log_step_def)
    qed
  qed
qed

lemma agent_run_sim:
  assumes "sim_limiter t l r" and "sorted (t # map call_time cs)"
  shows "agent_run cs l = map Inr (log_run cs r)"
  using assms
proof (induction cs arbitrary: t l r)
  case (Cons c cs)
  then obtain l' where "agent_step c l = (Inr (fst (log_step c r)), l')"
    "sim_limiter (call_time c) l' (snd (log_step c r))"
    using agent_step_sim [of t l r c] by auto
  then show ?case
    using Cons.IH [of "call_time c" l' "snd (log_step c r)"] Cons.prems(2) by (simp split: prod.split)
qed simp

lemma initial_sim: "sim_limiter t createAgentRequestLimiter no_admissions"
  by (simp add: sim_limiter_def held_windows_def createAgentRequestLimiter_def sim_window_def
      createSlidingWindow_def no_admissions_def)

lemma sorted_start: "sorted ts \<Longrightarrow> \<exists>t. sorted (t # ts)" for ts :: "int list"
  by (rule exI [of _ "hd ts"], cases ts) auto

text \<open>C31: as long as the clock of the process does not go back, the
  limiter, which prunes its windows, drops idle keys every hour and forgets their refusals,
  gives every caller exactly the answers of a limiter that keeps every admission for ever,
  down to the seconds to wait and the first refusal of a lockout.\<close>

theorem agent_limiter_matches_log:
  assumes "sorted (map call_time cs)"
  shows "agent_run cs createAgentRequestLimiter = map Inr (log_run cs no_admissions)"
  using sorted_start [OF assms] agent_run_sim [OF initial_sim] by blast

section \<open>How much a key may do\<close>

text \<open>The admissions of a key that a budget was charged for.\<close>

fun admissions :: "string \<Rightarrow> limit_window \<Rightarrow> agent_call list \<Rightarrow> limit_decision list \<Rightarrow> int list" where
  "admissions k v (c # cs) (d # ds) =
     (if call_key c = k \<and> map_option fst (charged_to c) = Some v \<and> d = Admitted
      then call_time c # admissions k v cs ds else admissions k v cs ds)"
| "admissions k v _ _ = []"

text \<open>At most \<open>limit_of v\<close> of the times lie inside any window of the budget.\<close>

definition bounded_rate :: "limit_window \<Rightarrow> int list \<Rightarrow> bool" where
  "bounded_rate v ts =
     (\<forall>t. int (length (filter (\<lambda>u. t - span_of v < u \<and> u \<le> t) ts)) \<le> limit_of v)"

lemma length_filter_mono:
  "(\<And>x. x \<in> set xs \<Longrightarrow> P x \<Longrightarrow> Q x) \<Longrightarrow> length (filter P xs) \<le> length (filter Q xs)"
  by (induction xs) (auto simp: le_SucI)

lemma bounded_rate_snoc:
  assumes "bounded_rate v ts" and "\<forall>u \<in> set ts. u \<le> now"
    and "int (length (recent (now - span_of v) ts)) < limit_of v"
  shows "bounded_rate v (ts @ [now])"
  unfolding bounded_rate_def
proof
  fix t
  let ?in = "\<lambda>u. t - span_of v < u \<and> u \<le> t"
  show "int (length (filter ?in (ts @ [now]))) \<le> limit_of v"
  proof (cases "?in now")
    case True
    then have "length (filter ?in ts) \<le> length (recent (now - span_of v) ts)"
      using assms(2) unfolding recent_def by (intro length_filter_mono) auto
    then show ?thesis using assms(3) True by simp
  next
    case False
    then show ?thesis using assms(1) by (auto simp: bounded_rate_def)
  qed
qed

lemma log_run_bounded:
  assumes "bounded_rate v (past (r k v))" and "\<forall>u \<in> set (past (r k v)). u \<le> t"
    and "sorted (t # map call_time cs)"
  shows "bounded_rate v (past (r k v) @ admissions k v cs (log_run cs r))"
  using assms
proof (induction cs arbitrary: t r)
  case (Cons c cs)
  let ?now = "call_time c" and ?r = "snd (log_step c r)"
  have now: "\<forall>u \<in> set (past (r k v)). u \<le> ?now" using Cons.prems(2,3) by auto
  show ?case
  proof (cases "call_key c = k \<and> map_option fst (charged_to c) = Some v \<and> fst (log_step c r) = Admitted")
    case True
    then obtain n where n: "charged_to c = Some (v, n)" by auto
    with True have small: "int (length (recent (?now - span_of v) (past (r k v)))) < limit_of v"
      and past: "past (?r k v) = past (r k v) @ [?now]"
      by (auto simp: log_step_def log_decide_def Let_def split: if_splits)
    have "bounded_rate v (past (?r k v))" unfolding past using Cons.prems(1) now small by (rule bounded_rate_snoc)
    moreover have "\<forall>u \<in> set (past (?r k v)). u \<le> ?now" using now past by simp
    ultimately have "bounded_rate v (past (?r k v) @ admissions k v cs (log_run cs ?r))"
      using Cons.prems(3) by (intro Cons.IH [where t = ?now]) simp_all
    then show ?thesis using True past by (simp add: split_beta)
  next
    case False
    then have past: "past (?r k v) = past (r k v)"
      by (cases "charged_to c") (auto simp: log_step_def log_decide_def Let_def split: if_splits prod.splits)
    have "bounded_rate v (past (?r k v) @ admissions k v cs (log_run cs ?r))"
      using Cons.prems now by (intro Cons.IH [where t = ?now]) (simp_all add: past)
    then show ?thesis using False past by (auto simp: split_beta)
  qed
qed simp

text \<open>C32: one limiter, that is one process from its start on, admits no
  agent key more than 60 times in any trailing minute, nor more than 20 times in any trailing hour
  for the calls that render a document or persist a row, whatever it and the other keys send, as
  long as its clock does not go back. The bound is per process: a restart begins with empty windows,
  and with several instances (the server runs on two to four) a key has the budget of each.\<close>

theorem agent_budget_respected:
  assumes "sorted (map call_time cs)" and "agent_run cs createAgentRequestLimiter = map Inr ds"
  shows "length (filter (\<lambda>u. t - 60000 < u \<and> u \<le> t) (admissions k Per_minute cs ds)) \<le> 60
    \<and> length (filter (\<lambda>u. t - 3600000 < u \<and> u \<le> t) (admissions k Per_hour cs ds)) \<le> 20"
proof -
  obtain t where t: "sorted (t # map call_time cs)" using sorted_start [OF assms(1)] by blast
  have ds: "ds = log_run cs no_admissions"
    using agent_run_sim [OF initial_sim t] assms(2) by (simp add: inj_map_eq_map inj_def)
  have "bounded_rate v (past (no_admissions k v) @ admissions k v cs ds)" for v
    unfolding ds using t
    by (intro log_run_bounded) (auto simp: bounded_rate_def no_admissions_def less_imp_le)
  from this [of Per_minute] this [of Per_hour] show ?thesis
    unfolding bounded_rate_def
    by (auto simp: no_admissions_def AGENT_RATE_LIMIT_MINUTE_WINDOW_MS_def
        AGENT_RATE_LIMIT_HOUR_WINDOW_MS_def AGENT_RATE_LIMIT_REQUESTS_PER_MINUTE_def
        AGENT_RATE_LIMIT_COSTLY_REQUESTS_PER_HOUR_def dest!: spec [of _ t])
qed

section \<open>Concrete calls\<close>

definition burst :: "agent_call list" where
  "burst = replicate 61 (Call_admit ''k'' 5 Request_kind) @ [Call_admit ''k'' 60005 Protected_action]"

lemma burst_sorted: "sorted (map call_time burst)"
  by code_simp

theorem agent_limiter_matches_log_witness:
  "agent_run burst createAgentRequestLimiter = map Inr (log_run burst no_admissions)"
  using burst_sorted by (rule agent_limiter_matches_log)

theorem agent_budget_respected_witness:
  "length (filter (\<lambda>u. 5 - 60000 < u \<and> u \<le> 5) (admissions ''k'' Per_minute burst (log_run burst no_admissions))) \<le> 60
   \<and> \<not> log_run burst no_admissions ! 60 = Admitted"
proof
  obtain t where "sorted (t # map call_time burst)" using sorted_start [OF burst_sorted] by blast
  then have "agent_run burst createAgentRequestLimiter = map Inr (log_run burst no_admissions)"
    using agent_run_sim [OF initial_sim] by blast
  from agent_budget_respected [OF burst_sorted this, of 5 "''k''"]
  show "length (filter (\<lambda>u. 5 - 60000 < u \<and> u \<le> 5)
      (admissions ''k'' Per_minute burst (log_run burst no_admissions))) \<le> 60" by blast
  show "\<not> log_run burst no_admissions ! 60 = Admitted" by code_simp
qed

end
