(* ===== verification/Partner_Limit.thy ===== *)
theory Partner_Limit
  imports Rate_Limit
begin

text \<open>
  \<open>packages/server/lib/auth/partner-otp-limit.ts\<close>: the budgets of the partner sign-in form.
  The windows are objects that the map shares with its callers, so a budget is the key of its
  window here and every change goes through the map. SHA-256 is an argument.
\<close>

section \<open>Budgets\<close>

datatype attempt_kind = Send_code | Verify_code | Passkey_start | Passkey_verify | Passkey_register

fun attempt_kind_name :: "attempt_kind \<Rightarrow> string" where
  "attempt_kind_name Send_code = ''send''"
| "attempt_kind_name Verify_code = ''verify''"
| "attempt_kind_name Passkey_start = ''passkey-start''"
| "attempt_kind_name Passkey_verify = ''passkey-verify''"
| "attempt_kind_name Passkey_register = ''passkey-register''"

definition WINDOW_MS :: int where
  "WINDOW_MS = 15 * 60 * 1000"

fun PER_EMAIL :: "attempt_kind \<Rightarrow> int" where
  "PER_EMAIL Send_code = 5"
| "PER_EMAIL Verify_code = 10"
| "PER_EMAIL Passkey_start = 10"
| "PER_EMAIL Passkey_verify = 10"
| "PER_EMAIL Passkey_register = 20"

fun PER_CLIENT :: "attempt_kind \<Rightarrow> int" where
  "PER_CLIENT Send_code = 20"
| "PER_CLIENT Verify_code = 40"
| "PER_CLIENT Passkey_start = 40"
| "PER_CLIENT Passkey_verify = 40"
| "PER_CLIENT Passkey_register = 60"

record partner_attempt =
  pt_kind :: attempt_kind
  pt_email :: string
  pt_client :: "string option"

record partner_limiter =
  windows :: "string \<rightharpoonup> sliding_window"
  lastSweep :: "int option"

definition createPartnerOtpLimiter :: partner_limiter where
  "createPartnerOtpLimiter = \<lparr>windows = Map.empty, lastSweep = None\<rparr>"

definition keyDigest :: "(string \<Rightarrow> string) \<Rightarrow> string \<Rightarrow> string \<Rightarrow> string" where
  "keyDigest sha256_hex prefix value = prefix @ '':'' @ sha256_hex value"

definition swept_windows :: "int \<Rightarrow> partner_limiter \<Rightarrow> partner_limiter" where
  "swept_windows now l =
     (if (case lastSweep l of None \<Rightarrow> True | Some s \<Rightarrow> now - s \<ge> WINDOW_MS)
      then \<lparr>windows = (\<lambda>k. case windows l k of None \<Rightarrow> None
                        | Some w \<Rightarrow> (let w' = pruneSlidingWindow w (now - WINDOW_MS)
                                     in if isSlidingWindowEmpty w' then None else Some w')),
            lastSweep = Some now\<rparr>
      else l)"

text \<open>The window of a key is in the map afterwards.\<close>

definition windowFor :: "string \<Rightarrow> int \<Rightarrow> partner_limiter \<Rightarrow> partner_limiter" where
  "windowFor key now l =
     (let l' = swept_windows now l
      in case windows l' key of None \<Rightarrow> l'\<lparr>windows := (windows l')(key \<mapsto> createSlidingWindow)\<rparr>
         | Some _ \<Rightarrow> l')"

type_synonym budget = "string \<times> int"

definition email_key :: "(string \<Rightarrow> string) \<Rightarrow> partner_attempt \<Rightarrow> string" where
  "email_key sha i = keyDigest sha (''email-'' @ attempt_kind_name (pt_kind i)) (lower_case (js_trim (pt_email i)))"

definition client_key :: "(string \<Rightarrow> string) \<Rightarrow> partner_attempt \<Rightarrow> string" where
  "client_key sha i = keyDigest sha (''client-'' @ attempt_kind_name (pt_kind i))
     (case pt_client i of None \<Rightarrow> '''' | Some c \<Rightarrow> js_trim c)"

definition budgetsFor ::
  "(string \<Rightarrow> string) \<Rightarrow> partner_attempt \<Rightarrow> int \<Rightarrow> partner_limiter \<Rightarrow> budget list \<times> partner_limiter" where
  "budgetsFor sha i now l =
     ([(email_key sha i, PER_EMAIL (pt_kind i)), (client_key sha i, PER_CLIENT (pt_kind i))],
      windowFor (client_key sha i) now (windowFor (email_key sha i) now l))"

definition window_of :: "partner_limiter \<Rightarrow> string \<Rightarrow> sliding_window" where
  "window_of l k = (case windows l k of None \<Rightarrow> createSlidingWindow | Some w \<Rightarrow> w)"

definition set_window :: "string \<Rightarrow> sliding_window \<Rightarrow> partner_limiter \<Rightarrow> partner_limiter" where
  "set_window k w l = l\<lparr>windows := (windows l)(k \<mapsto> w)\<rparr>"

text \<open>The first budget with no room, pruning the windows that were looked at.\<close>

fun exhaustedBudget :: "budget list \<Rightarrow> int \<Rightarrow> partner_limiter \<Rightarrow> budget option \<times> partner_limiter" where
  "exhaustedBudget [] now l = (None, l)"
| "exhaustedBudget ((k, limit) # bs) now l =
     (let w = pruneSlidingWindow (window_of l k) (now - WINDOW_MS); l' = set_window k w l
      in if int (length (admitted w)) \<ge> limit then (Some (k, limit), l') else exhaustedBudget bs now l')"

fun charge_each :: "string \<Rightarrow> budget list \<Rightarrow> int \<Rightarrow> partner_limiter \<Rightarrow> partner_limiter" where
  "charge_each kind [] now l = l"
| "charge_each kind ((k, limit) # bs) now l =
     charge_each kind bs now
       (set_window k (snd (decideSlidingWindow (window_of l k) kind limit WINDOW_MS now)) l)"

datatype otp_decision = Otp_admitted | Otp_refused js_number

definition partner_admit ::
  "(string \<Rightarrow> string) \<Rightarrow> partner_attempt \<Rightarrow> js_number \<Rightarrow> partner_limiter
     \<Rightarrow> (clock_error, otp_decision) result \<times> partner_limiter" where
  "partner_admit sha i nowValue l =
     (case slidingWindowClock nowValue of
        Inl e \<Rightarrow> (Inl e, l)
      | Inr now \<Rightarrow>
          (case budgetsFor sha i now l of (budgets, l1) \<Rightarrow>
             (case exhaustedBudget budgets now l1 of
                (Some (k, _), l2) \<Rightarrow> (Inr (Otp_refused (retry_after (admitted (window_of l2 k)) WINDOW_MS now)), l2)
              | (None, l2) \<Rightarrow>
                  (Inr Otp_admitted, charge_each (attempt_kind_name (pt_kind i)) budgets now l2))))"

definition partner_allows ::
  "(string \<Rightarrow> string) \<Rightarrow> partner_attempt \<Rightarrow> js_number \<Rightarrow> partner_limiter
     \<Rightarrow> (clock_error, bool) result \<times> partner_limiter" where
  "partner_allows sha i nowValue l =
     (case slidingWindowClock nowValue of
        Inl e \<Rightarrow> (Inl e, l)
      | Inr now \<Rightarrow>
          (case budgetsFor sha i now l of (budgets, l1) \<Rightarrow>
             (case exhaustedBudget budgets now l1 of (b, l2) \<Rightarrow> (Inr (b = None), l2))))"

fun push_each :: "budget list \<Rightarrow> int \<Rightarrow> partner_limiter \<Rightarrow> partner_limiter" where
  "push_each [] now l = l"
| "push_each ((k, limit) # bs) now l =
     (let w = pruneSlidingWindow (window_of l k) (now - WINDOW_MS)
      in push_each bs now (set_window k (w\<lparr>admitted := admitted w @ [now]\<rparr>) l))"

definition partner_charge ::
  "(string \<Rightarrow> string) \<Rightarrow> partner_attempt \<Rightarrow> js_number \<Rightarrow> partner_limiter
     \<Rightarrow> (clock_error, unit) result \<times> partner_limiter" where
  "partner_charge sha i nowValue l =
     (case slidingWindowClock nowValue of
        Inl e \<Rightarrow> (Inl e, l)
      | Inr now \<Rightarrow> (case budgetsFor sha i now l of (budgets, l1) \<Rightarrow> (Inr (), push_each budgets now l1)))"

section \<open>What is charged\<close>

text \<open>The charges of a key that still count at some instant.\<close>

definition charges :: "partner_limiter \<Rightarrow> string \<Rightarrow> int \<Rightarrow> int list" where
  "charges l k now = recent (now - WINDOW_MS) (admitted (window_of l k))"

lemma charges_set_window:
  "charges (set_window k w l) j now = (if j = k then recent (now - WINDOW_MS) (admitted w) else charges l j now)"
  by (simp add: charges_def window_of_def set_window_def)

lemma charges_windowFor: "now \<le> t \<Longrightarrow> charges (windowFor k now l) j t = charges l j t"
proof -
  assume t: "now \<le> t"
  have "charges (swept_windows now l) j t = charges l j t"
    using t by (auto simp: swept_windows_def charges_def window_of_def Let_def prune_recent isSlidingWindowEmpty_def
        recent_recent max_absorb1 createSlidingWindow_def recent_def [of _ "[]"] split: option.split
        dest: recent_empty_later [where d = "t - WINDOW_MS"])
  moreover have "charges (windowFor k now l) j t = charges (swept_windows now l) j t"
    by (auto simp: windowFor_def charges_def window_of_def Let_def split: option.split)
  ultimately show ?thesis by simp
qed

lemma charges_exhausted:
  "now \<le> t \<Longrightarrow> charges (snd (exhaustedBudget bs now l)) j t = charges l j t"
proof (induction bs now l rule: exhaustedBudget.induct)
  case (2 k limit bs now l)
  let ?l = "set_window k (pruneSlidingWindow (window_of l k) (now - WINDOW_MS)) l"
  have "charges ?l j t = charges l j t"
    using 2(2) by (simp add: charges_set_window prune_recent recent_recent max_absorb1) (simp add: charges_def)
  then show ?case using 2 by (simp add: Let_def)
qed simp

lemma exhausted_iff:
  "fst (exhaustedBudget bs now l) = None
     \<longleftrightarrow> (\<forall>(k, limit) \<in> set bs. int (length (charges l k now)) < limit)"
proof (induction bs now l rule: exhaustedBudget.induct)
  case (2 k limit bs now l)
  let ?l = "set_window k (pruneSlidingWindow (window_of l k) (now - WINDOW_MS)) l"
  have "charges ?l j now = charges l j now" for j
    by (simp add: charges_set_window prune_recent recent_recent) (simp add: charges_def)
  then show ?case using 2 by (auto simp: Let_def charges_def prune_recent not_le)
qed simp

lemma decide_admits:
  assumes "int (length (charges l k now)) < limit"
  shows "admitted (snd (decideSlidingWindow (window_of l k) kind limit WINDOW_MS now)) = charges l k now @ [now]"
  using assms by (simp add: decideSlidingWindow_def Let_def prune_recent charges_def)

section \<open>Both budgets of an attempt\<close>

lemma email_client_keys: "email_key sha i \<noteq> client_key sha j"
  by (simp add: email_key_def client_key_def keyDigest_def)

definition budget_keys :: "(string \<Rightarrow> string) \<Rightarrow> partner_attempt \<Rightarrow> string set" where
  "budget_keys sha i = {email_key sha i, client_key sha i}"

lemma charges_budgetsFor: "now \<le> t \<Longrightarrow> charges (snd (budgetsFor sha i now l)) j t = charges l j t"
  by (simp add: budgetsFor_def charges_windowFor)

lemma clock_of_int [simp]: "slidingWindowClock (Finite (of_int t)) = Inr t"
  by (simp add: slidingWindowClock_def)

lemma recent_charges:
  "now \<le> t \<Longrightarrow> recent (t - WINDOW_MS) (charges l k now) = charges l k t"
  by (simp add: charges_def recent_recent max_absorb1)

definition new_charge :: "int \<Rightarrow> int \<Rightarrow> int list" where
  "new_charge now t = (if t - WINDOW_MS < now then [now] else [])"

lemma recent_single: "recent (t - WINDOW_MS) [now] = new_charge now t"
  by (simp add: recent_def new_charge_def)

lemma has_room:
  "fst (exhaustedBudget (fst (budgetsFor sha i now l)) now (snd (budgetsFor sha i now l))) = None
     \<longleftrightarrow> int (length (charges l (email_key sha i) now)) < PER_EMAIL (pt_kind i)
       \<and> int (length (charges l (client_key sha i) now)) < PER_CLIENT (pt_kind i)"
  by (simp add: exhausted_iff charges_budgetsFor) (simp add: budgetsFor_def)

lemma partner_allows_iff:
  "fst (partner_allows sha i (Finite (of_int now)) l) = Inr b \<longleftrightarrow>
     b = (int (length (charges l (email_key sha i) now)) < PER_EMAIL (pt_kind i)
          \<and> int (length (charges l (client_key sha i) now)) < PER_CLIENT (pt_kind i))"
  using has_room [of sha i now l] by (auto simp: partner_allows_def split: prod.splits)

lemma partner_allows_value:
  "fst (partner_allows sha i (Finite (of_int now)) l)
     = Inr (int (length (charges l (email_key sha i) now)) < PER_EMAIL (pt_kind i)
          \<and> int (length (charges l (client_key sha i) now)) < PER_CLIENT (pt_kind i))"
  by (simp add: partner_allows_iff)

lemma charges_charge_each:
  assumes "int (length (charges l (email_key sha i) now)) < PER_EMAIL (pt_kind i)"
    and "int (length (charges l (client_key sha i) now)) < PER_CLIENT (pt_kind i)" and "now \<le> t"
  shows "charges (charge_each k (fst (budgetsFor sha i now l0)) now l) j t
    = charges l j t @ (if j \<in> budget_keys sha i then new_charge now t else [])"
proof -
  let ?e = "email_key sha i" and ?c = "client_key sha i"
  obtain l1 where step1:
    "l1 = set_window ?e (snd (decideSlidingWindow (window_of l ?e) k (PER_EMAIL (pt_kind i)) WINDOW_MS now)) l"
    by blast
  have ne: "?e \<noteq> ?c" by (rule email_client_keys)
  have l1: "charges l1 u s = charges l u s @ (if u = ?e then new_charge now s else [])" if "now \<le> s" for u s
    using that decide_admits [OF assms(1)]
    by (simp add: step1 charges_set_window recent_charges recent_single)
  have c: "int (length (charges l1 ?c now)) < PER_CLIENT (pt_kind i)"
    using assms(2) ne by (simp add: l1)
  have "charge_each k (fst (budgetsFor sha i now l0)) now l
      = set_window ?c (snd (decideSlidingWindow (window_of l1 ?c) k (PER_CLIENT (pt_kind i)) WINDOW_MS now)) l1"
    by (simp add: budgetsFor_def step1)
  then have "charges (charge_each k (fst (budgetsFor sha i now l0)) now l) j t
      = charges l1 j t @ (if j = ?c then new_charge now t else [])"
    using decide_admits [OF c] assms(3) by (simp add: charges_set_window recent_charges recent_single)
  then show ?thesis using ne assms(3) by (auto simp: l1 budget_keys_def)
qed

text \<open>A sign-in attempt is admitted exactly when both its
  budgets have room, the one of its address and the one of its caller. An admitted attempt is
  charged to these two and to no other budget; a refused one is charged to none, so neither
  allowance is spent by the other's refusal.\<close>

theorem partner_attempt_charges_both:
  "\<exists>d l'. partner_admit sha i (Finite (of_int now)) l = (Inr d, l')
    \<and> (d = Otp_admitted) = (int (length (charges l (email_key sha i) now)) < PER_EMAIL (pt_kind i)
         \<and> int (length (charges l (client_key sha i) now)) < PER_CLIENT (pt_kind i))
    \<and> charges l' j (now + delay) = charges l j (now + delay)
        @ (if d = Otp_admitted \<and> j \<in> budget_keys sha i then new_charge now (now + delay) else [])"
  if "0 \<le> delay"
proof -
  obtain bs l1 where b: "budgetsFor sha i now l = (bs, l1)" by (cases "budgetsFor sha i now l")
  obtain x l2 where x: "exhaustedBudget bs now l1 = (x, l2)" by (cases "exhaustedBudget bs now l1")
  let ?t = "now + delay"
  let ?room = "int (length (charges l (email_key sha i) now)) < PER_EMAIL (pt_kind i)
      \<and> int (length (charges l (client_key sha i) now)) < PER_CLIENT (pt_kind i)"
  have room: "x = None \<longleftrightarrow> ?room" using has_room [of sha i now l] by (simp add: b x)
  have l2: "charges l2 j t = charges l j t" if "now \<le> t" for j t
    using that charges_exhausted [of now t bs l1 j] charges_budgetsFor [of now t sha i l j] by (simp add: b x)
  show ?thesis
  proof (cases x)
    case None
    then have r: ?room using room by simp
    have "charges (charge_each (attempt_kind_name (pt_kind i)) bs now l2) j ?t
        = charges l2 j ?t @ (if j \<in> budget_keys sha i then new_charge now ?t else [])"
      using charges_charge_each [of l2 sha i now ?t _ l] r that by (simp add: l2 b)
    then show ?thesis using None r that by (simp add: partner_admit_def b x l2)
  next
    case (Some y)
    then show ?thesis
      using room that by (cases y) (auto simp: partner_admit_def b x l2)
  qed
qed

section \<open>The factors do not spend each other's allowance\<close>

lemma budget_keys_kind:
  "pt_kind i \<noteq> pt_kind j \<Longrightarrow> k \<in> budget_keys sha i \<Longrightarrow> k \<notin> budget_keys sha j"
  by (cases "pt_kind i"; cases "pt_kind j")
    (auto simp: budget_keys_def email_key_def client_key_def keyDigest_def)

datatype partner_call =
  P_admit (partner_input: partner_attempt) (partner_time: int)
| P_allows (partner_input: partner_attempt) (partner_time: int)
| P_charge (partner_input: partner_attempt) (partner_time: int)

fun partner_step :: "(string \<Rightarrow> string) \<Rightarrow> partner_call \<Rightarrow> partner_limiter \<Rightarrow> partner_limiter" where
  "partner_step sha (P_admit i t) l = snd (partner_admit sha i (Finite (of_int t)) l)"
| "partner_step sha (P_allows i t) l = snd (partner_allows sha i (Finite (of_int t)) l)"
| "partner_step sha (P_charge i t) l = snd (partner_charge sha i (Finite (of_int t)) l)"

definition partner_run :: "(string \<Rightarrow> string) \<Rightarrow> partner_call list \<Rightarrow> partner_limiter \<Rightarrow> partner_limiter" where
  "partner_run sha cs l = fold (partner_step sha) cs l"

lemma charges_push_each:
  assumes "now \<le> t" and "j \<notin> fst ` set bs"
  shows "charges (push_each bs now l) j t = charges l j t"
  using assms(2)
proof (induction bs now l rule: push_each.induct)
  case (2 k limit bs now l)
  then show ?case by (simp add: Let_def charges_set_window)
qed simp

lemma charges_charge_other:
  assumes "j \<notin> fst ` set bs"
  shows "charges (charge_each k bs now l) j t = charges l j t"
  using assms
proof (induction k bs now l rule: charge_each.induct)
  case (2 kind k limit bs now l)
  then show ?case by (simp add: charges_set_window)
qed simp

lemma budget_keys_fst: "fst ` set (fst (budgetsFor sha i now l)) = budget_keys sha i"
  by (simp add: budgetsFor_def budget_keys_def)

lemma partner_step_other:
  assumes "partner_time c \<le> t" and "j \<notin> budget_keys sha (partner_input c)"
  shows "charges (partner_step sha c l) j t = charges l j t"
proof -
  let ?i = "partner_input c" and ?now = "partner_time c"
  obtain bs l1 where b: "budgetsFor sha ?i ?now l = (bs, l1)" by (cases "budgetsFor sha ?i ?now l")
  obtain x l2 where x: "exhaustedBudget bs ?now l1 = (x, l2)" by (cases "exhaustedBudget bs ?now l1")
  have j: "j \<notin> fst ` set bs" using assms(2) budget_keys_fst [of sha ?i ?now l] by (simp add: b)
  have l1: "charges l1 j t = charges l j t"
    using charges_budgetsFor [OF assms(1), of sha ?i l j] by (simp add: b)
  have l2: "charges l2 j t = charges l j t"
    using charges_exhausted [OF assms(1), of bs l1 j] by (simp add: x l1)
  show ?thesis
  proof (cases c)
    case (P_admit i t0)
    then show ?thesis
      using b x l2 charges_charge_other [OF j]
      by (cases x) (simp_all add: partner_admit_def split: prod.split)
  next
    case (P_allows i t0)
    then show ?thesis using b x l2 by (simp add: partner_allows_def)
  next
    case (P_charge i t0)
    then show ?thesis using b l1 charges_push_each [OF assms(1) j] by (simp add: partner_charge_def)
  qed
qed

lemma partner_run_other:
  assumes "\<forall>c \<in> set cs. partner_time c \<le> t \<and> j \<notin> budget_keys sha (partner_input c)"
  shows "charges (partner_run sha cs l) j t = charges l j t"
  using assms by (induction cs arbitrary: l) (simp_all add: partner_run_def partner_step_other)

text \<open>The two sign-in factors never spend each other's
  allowance. Whatever attempts of other kinds were admitted, tried or charged up to now, for any
  address and any caller, whether an attempt has room is as if they had not been made: exhausting
  the passkey budget of an address leaves its emailed code as it was.\<close>

theorem partner_factors_independent:
  "\<forall>c \<in> set cs. partner_time c \<le> now \<and> pt_kind (partner_input c) \<noteq> pt_kind i
    \<Longrightarrow> fst (partner_allows sha i (Finite (of_int now)) (partner_run sha cs l))
        = fst (partner_allows sha i (Finite (of_int now)) l)"
proof -
  assume a: "\<forall>c \<in> set cs. partner_time c \<le> now \<and> pt_kind (partner_input c) \<noteq> pt_kind i"
  have same: "charges (partner_run sha cs l) k now = charges l k now" if "k \<in> budget_keys sha i" for k
    by (rule partner_run_other) (metis a that budget_keys_kind)
  have "charges (partner_run sha cs l) (email_key sha i) now = charges l (email_key sha i) now"
    "charges (partner_run sha cs l) (client_key sha i) now = charges l (client_key sha i) now"
    by (simp_all add: same budget_keys_def)
  then show ?thesis by (simp add: partner_allows_value)
qed

text \<open>A caller spends the whole passkey budget of an address; its emailed code still has room.\<close>

definition sample_partner :: "attempt_kind \<Rightarrow> partner_attempt" where
  "sample_partner k = \<lparr>pt_kind = k, pt_email = ''Ada@example.org '', pt_client = None\<rparr>"

definition sample_burn :: "partner_call list" where
  "sample_burn = replicate 10 (P_admit (sample_partner Passkey_verify) 1000)"

lemma partner_factors_independent_witness:
  "fst (partner_allows id (sample_partner Verify_code) (Finite 2000) (partner_run id sample_burn createPartnerOtpLimiter))
     = Inr True"
proof -
  have "fst (partner_allows id (sample_partner Verify_code) (Finite (of_int 2000))
        (partner_run id sample_burn createPartnerOtpLimiter))
      = fst (partner_allows id (sample_partner Verify_code) (Finite (of_int 2000)) createPartnerOtpLimiter)"
    by (rule partner_factors_independent) (simp add: sample_burn_def sample_partner_def)
  moreover have "fst (partner_allows id (sample_partner Verify_code) (Finite (of_int 2000)) createPartnerOtpLimiter)
      = Inr True"
    by code_simp
  ultimately show ?thesis by simp
qed

lemma partner_attempt_charges_both_witness:
  "\<exists>d l'. partner_admit id (sample_partner Send_code) (Finite (of_int 1000)) createPartnerOtpLimiter = (Inr d, l')
    \<and> d = Otp_admitted
    \<and> charges l' (email_key id (sample_partner Send_code)) (1000 + 5) = [1000]"
proof -
  let ?i = "sample_partner Send_code"
  have empty: "charges createPartnerOtpLimiter k t = []" for k t
    by (simp add: charges_def window_of_def createPartnerOtpLimiter_def createSlidingWindow_def recent_def)
  have "new_charge 1000 (1000 + 5) = [1000]" by code_simp
  moreover have "email_key id ?i \<in> budget_keys id ?i" by (simp add: budget_keys_def)
  ultimately show ?thesis
    using partner_attempt_charges_both [of 5 id ?i 1000 createPartnerOtpLimiter "email_key id ?i"]
    by (auto simp: empty sample_partner_def)
qed

end
