(* ===== verification/Audit_Log.thy ===== *)
theory Audit_Log
  imports Catalog
begin

text \<open>
  The security audit log: the entry schema of \<open>packages/contracts/src/audit.ts\<close> and
  \<open>packages/server/lib/audit/\<close> (\<open>model.ts\<close>, \<open>canonical.ts\<close>, \<open>entry.ts\<close>, \<open>verification.ts\<close> and the
  writer and verification session of \<open>drizzle-repository.ts\<close>). The hash of a payload is an
  argument; two facts have the same canonical JSON when they are equal. The columns that a row
  holds twice, \<open>principal_kind\<close> and the split target, are one field.
\<close>

section \<open>Facts and entries\<close>

datatype audit_category =
  Sign_in | Access_denial | Admin_change | Agent_access | Session_revocation
| Human_only_rejection | Capability_execution | Audit_query

datatype audit_outcome = Audit_success | Audit_denied | Audit_failure

datatype audit_principal = Actor_principal actor | Unauthenticated "digest option"

datatype audit_target_kind =
  Target_user | Target_session | Target_device | Target_agent | Target_configuration
| Target_capability | Target_audit_query

record audit_fact =
  au_category :: audit_category
  au_action :: string
  au_actionIds :: "human_only_action list"
  au_confirmationId :: "uuid option"
  au_outcome :: audit_outcome
  au_principal :: audit_principal
  au_source :: invocation_source
  au_facilityId :: "uuid option"
  au_target :: "(audit_target_kind \<times> string) option"
  au_requestId :: uuid
  au_reasonCode :: "string option"
  au_occurredAt :: timestamp

record audit_payload = audit_fact +
  ae_id :: uuid
  ae_sequence :: int
  ae_previousHash :: "digest option"

record audit_entry = audit_payload +
  ae_entryHash :: digest

text \<open>A fact without its extensions, and the payload and the entry made from parts.\<close>

definition fact_of :: "'a audit_fact_scheme \<Rightarrow> audit_fact" where
  "fact_of f = audit_fact.truncate f"

definition payload_of :: "'a audit_fact_scheme \<Rightarrow> uuid \<Rightarrow> int \<Rightarrow> digest option \<Rightarrow> audit_payload" where
  "payload_of f i n p =
     \<lparr>au_category = au_category f, au_action = au_action f, au_actionIds = au_actionIds f,
      au_confirmationId = au_confirmationId f, au_outcome = au_outcome f, au_principal = au_principal f,
      au_source = au_source f, au_facilityId = au_facilityId f, au_target = au_target f,
      au_requestId = au_requestId f, au_reasonCode = au_reasonCode f, au_occurredAt = au_occurredAt f,
      ae_id = i, ae_sequence = n, ae_previousHash = p\<rparr>"

definition entry_of :: "'a audit_payload_scheme \<Rightarrow> digest \<Rightarrow> audit_entry" where
  "entry_of p h =
     \<lparr>au_category = au_category p, au_action = au_action p, au_actionIds = au_actionIds p,
      au_confirmationId = au_confirmationId p, au_outcome = au_outcome p, au_principal = au_principal p,
      au_source = au_source p, au_facilityId = au_facilityId p, au_target = au_target p,
      au_requestId = au_requestId p, au_reasonCode = au_reasonCode p, au_occurredAt = au_occurredAt p,
      ae_id = ae_id p, ae_sequence = ae_sequence p, ae_previousHash = ae_previousHash p, ae_entryHash = h\<rparr>"

definition securityAuditHashPayload :: "audit_entry \<Rightarrow> audit_payload" where
  "securityAuditHashPayload e = payload_of e (ae_id e) (ae_sequence e) (ae_previousHash e)"

section \<open>The entry schema\<close>

text \<open>The schema trims four kinds of text and hands the trimmed entry on.\<close>

fun trim_principal :: "audit_principal \<Rightarrow> audit_principal" where
  "trim_principal (Actor_principal (System_actor s)) = Actor_principal (System_actor (js_trim s))"
| "trim_principal p = p"

definition trim_entry :: "audit_entry \<Rightarrow> audit_entry" where
  "trim_entry e =
     e\<lparr>au_action := js_trim (au_action e), au_principal := trim_principal (au_principal e),
       au_target := map_option (\<lambda>(k, i). (k, js_trim i)) (au_target e),
       au_reasonCode := map_option js_trim (au_reasonCode e)\<rparr>"

fun principal_ok :: "audit_principal \<Rightarrow> bool" where
  "principal_ok (Actor_principal a) = ActorSchema a"
| "principal_ok (Unauthenticated d) = pred_option digest_ok d"

definition audit_fields_ok :: "'a audit_fact_scheme \<Rightarrow> bool" where
  "audit_fields_ok f =
     (CapabilityIdSchema (au_action f)
      \<and> length (au_actionIds f) \<le> 4 \<and> distinct (au_actionIds f)
      \<and> pred_option uuid_ok (au_confirmationId f)
      \<and> principal_ok (au_principal f)
      \<and> pred_option uuid_ok (au_facilityId f)
      \<and> pred_option (\<lambda>(_, i). 1 \<le> length i \<and> length i \<le> 255) (au_target f)
      \<and> uuid_ok (au_requestId f)
      \<and> pred_option safe_code (au_reasonCode f))"

text \<open>The refinements of the schema that look at the fact alone.\<close>

definition audit_fact_consistent :: "'a audit_fact_scheme \<Rightarrow> bool" where
  "audit_fact_consistent f =
     ((case au_principal f of
         Actor_principal a \<Rightarrow> isActorSourceCompatible a (au_source f)
       | Unauthenticated _ \<Rightarrow> au_outcome f \<noteq> Audit_success)
      \<and> (au_category f \<in> {Access_denial, Human_only_rejection} \<longrightarrow> au_outcome f = Audit_denied)
      \<and> (au_outcome f = Audit_success) = (au_reasonCode f = None)
      \<and> \<not> (au_category f = Human_only_rejection \<and> au_actionIds f = [])
      \<and> (au_actionIds f \<noteq> [] \<and> au_outcome f = Audit_success \<longrightarrow>
           au_confirmationId f \<noteq> None
           \<and> (case au_principal f of Actor_principal a \<Rightarrow> actor_kind a = Human | Unauthenticated _ \<Rightarrow> False))
      \<and> \<not> (au_confirmationId f \<noteq> None \<and> au_actionIds f = []))"

definition MAX_SAFE_INTEGER :: int where
  "MAX_SAFE_INTEGER = 9007199254740991"

definition SecurityAuditEntrySchema :: "audit_entry \<Rightarrow> audit_entry option" where
  "SecurityAuditEntrySchema row =
     (let e = trim_entry row
      in if uuid_ok (ae_id e) \<and> 1 \<le> ae_sequence e \<and> ae_sequence e \<le> MAX_SAFE_INTEGER
            \<and> pred_option digest_ok (ae_previousHash e) \<and> digest_ok (ae_entryHash e)
            \<and> audit_fields_ok e
            \<and> (ae_sequence e = 1) = (ae_previousHash e = None)
            \<and> audit_fact_consistent e
         then Some e else None)"

section \<open>Canonical facts\<close>

datatype audit_error =
  Audit_schema_refused | Audit_action_refused | Audit_target_refused | Audit_predecessor_invalid
| Audit_integrity int | Audit_chain_mismatch | Audit_request_conflict | Audit_page_invalid | Audit_anchor_malformed
| Audit_not_advanced | Audit_insert_refused | Audit_result_only | Audit_context_refused
| Audit_forbidden | Audit_input_refused

record audit_env =
  env_hash :: "audit_payload \<Rightarrow> digest"
  env_registered :: "string \<Rightarrow> bool"

fun canonical_actor :: "actor \<Rightarrow> actor" where
  "canonical_actor (Human_actor u s) = Human_actor (lower_case u) (lower_case s)"
| "canonical_actor (Agent_actor a k) = Agent_actor (lower_case a) (lower_case k)"
| "canonical_actor (System_actor s) = System_actor s"

fun canonicalPrincipal :: "audit_principal \<Rightarrow> audit_principal" where
  "canonicalPrincipal (Actor_principal a) = Actor_principal (canonical_actor a)"
| "canonicalPrincipal (Unauthenticated d) = Unauthenticated d"

fun canonicalTarget :: "(audit_target_kind \<times> string) option \<Rightarrow> (audit_target_kind \<times> string) option" where
  "canonicalTarget None = None"
| "canonicalTarget (Some (k, i)) = Some (k, if k = Target_capability then i else lower_case i)"

definition securityAuditFactFromEntry :: "'a audit_fact_scheme \<Rightarrow> audit_fact" where
  "securityAuditFactFromEntry f =
     (fact_of f)\<lparr>au_confirmationId := map_option lower_case (au_confirmationId f),
       au_principal := canonicalPrincipal (au_principal f),
       au_facilityId := map_option lower_case (au_facilityId f),
       au_target := canonicalTarget (au_target f),
       au_requestId := lower_case (au_requestId f)\<rparr>"

definition VALIDATION_ENTRY_ID :: uuid where
  "VALIDATION_ENTRY_ID = ''00000000-0000-4000-8000-000000000001''"

definition parseSecurityAuditFact :: "audit_env \<Rightarrow> 'a audit_fact_scheme \<Rightarrow> (audit_error, audit_fact) result" where
  "parseSecurityAuditFact env f =
     (case SecurityAuditEntrySchema
             (entry_of (payload_of f VALIDATION_ENTRY_ID 1 None) (replicate 64 (CHR ''0''))) of
        None \<Rightarrow> Inl Audit_schema_refused
      | Some p \<Rightarrow>
          if \<not> env_registered env (au_action p) then Inl Audit_action_refused
          else if (case au_target p of None \<Rightarrow> False
                   | Some (k, i) \<Rightarrow>
                       if k = Target_capability then \<not> env_registered env i \<or> i \<noteq> au_action p
                       else \<not> uuid_ok i)
          then Inl Audit_target_refused
          else Inr (securityAuditFactFromEntry p))"

section \<open>Building an entry\<close>

type_synonym chain_anchor = "int \<times> digest"

definition safe_sequence :: "int \<Rightarrow> bool" where
  "safe_sequence n = (1 \<le> n \<and> n \<le> MAX_SAFE_INTEGER)"

definition buildSecurityAuditEntry ::
  "audit_env \<Rightarrow> uuid \<Rightarrow> 'a audit_fact_scheme \<Rightarrow> chain_anchor option \<Rightarrow> (audit_error, audit_entry) result" where
  "buildSecurityAuditEntry env newId factValue previous =
     bindR (parseSecurityAuditFact env factValue) (\<lambda>fact.
       if (case previous of None \<Rightarrow> False | Some (n, h) \<Rightarrow> \<not> safe_sequence n \<or> \<not> digest_ok h)
       then Inl Audit_predecessor_invalid
       else if \<not> uuid_ok newId then Inl Audit_schema_refused
       else let p = payload_of fact (lower_case newId)
                      ((case previous of None \<Rightarrow> 0 | Some (n, _) \<Rightarrow> n) + 1) (map_option snd previous)
            in (case SecurityAuditEntrySchema (entry_of p (env_hash env p)) of
                  None \<Rightarrow> Inl Audit_schema_refused | Some e \<Rightarrow> Inr e))"

section \<open>The tables\<close>

text \<open>
  \<open>security_audit_entries\<close> and \<open>security_audit_chain_anchors\<close>, with the number of
  identifiers drawn so far. The triggers of migration 0003 refuse a row that does not extend the
  last anchor and add its anchor; \<open>references\<close> says whether the foreign keys of a row exist. The
  checks on the format of columns are part of the entry schema.
\<close>

record audit_tables =
  rows :: "audit_entry list"
  anchors :: "chain_anchor list"
  idsDrawn :: nat

definition empty_log :: audit_tables where
  "empty_log = \<lparr>rows = [], anchors = [], idsDrawn = 0\<rparr>"

definition ordered_rows :: "audit_tables \<Rightarrow> audit_entry list" where
  "ordered_rows st = sort_key ae_sequence (rows st)"

definition ordered_anchors :: "audit_tables \<Rightarrow> chain_anchor list" where
  "ordered_anchors st = sort_key fst (anchors st)"

definition last_option :: "'a list \<Rightarrow> 'a option" where
  "last_option xs = (if xs = [] then None else Some (last xs))"

definition refused_by_table :: "(audit_entry \<Rightarrow> bool) \<Rightarrow> audit_entry \<Rightarrow> audit_tables \<Rightarrow> bool" where
  "refused_by_table references e st =
     (ae_id e \<in> ae_id ` set (rows st) \<or> ae_sequence e \<in> ae_sequence ` set (rows st)
      \<or> ae_entryHash e \<in> ae_entryHash ` set (rows st)
      \<or> au_requestId e \<in> au_requestId ` set (rows st)
      \<or> ae_sequence e > 2147483647 \<or> \<not> references e)"

definition extends_last_anchor :: "audit_entry \<Rightarrow> audit_tables \<Rightarrow> bool" where
  "extends_last_anchor e st =
     (case last_option (ordered_anchors st) of
        None \<Rightarrow> ae_sequence e = 1 \<and> ae_previousHash e = None
      | Some (n, h) \<Rightarrow> ae_sequence e = n + 1 \<and> ae_previousHash e = Some h)"

definition insert_row :: "(audit_entry \<Rightarrow> bool) \<Rightarrow> audit_entry \<Rightarrow> (audit_tables, audit_error, unit) comp" where
  "insert_row references e st =
     (if refused_by_table references e st \<or> \<not> extends_last_anchor e st
         \<or> ae_entryHash e \<in> snd ` set (anchors st)
      then (Inl Audit_insert_refused, st)
      else (Inr (), st\<lparr>rows := rows st @ [e], anchors := anchors st @ [(ae_sequence e, ae_entryHash e)]\<rparr>))"

definition parseChainAnchor :: "chain_anchor \<Rightarrow> (audit_error, chain_anchor) result" where
  "parseChainAnchor a =
     (if \<not> safe_sequence (fst a) \<or> \<not> digest_ok (snd a) then Inl Audit_anchor_malformed else Inr a)"

definition rowToEntry :: "audit_env \<Rightarrow> audit_entry \<Rightarrow> (audit_error, audit_entry) result" where
  "rowToEntry env row =
     (case SecurityAuditEntrySchema row of
        None \<Rightarrow> Inl Audit_schema_refused
      | Some e \<Rightarrow> bindR (parseSecurityAuditFact env (securityAuditFactFromEntry e)) (\<lambda>_. Inr e))"

definition rowToVerifiedEntry :: "audit_env \<Rightarrow> audit_entry \<Rightarrow> (audit_error, audit_entry) result" where
  "rowToVerifiedEntry env row =
     bindR (rowToEntry env row) (\<lambda>e.
       if env_hash env (securityAuditHashPayload e) \<noteq> ae_entryHash e
       then Inl (Audit_integrity (ae_sequence e)) else Inr e)"

fun firstAnchorMismatchSequence :: "chain_anchor option \<Rightarrow> chain_anchor option \<Rightarrow> int option" where
  "firstAnchorMismatchSequence None None = None"
| "firstAnchorMismatchSequence None (Some _) = Some 1"
| "firstAnchorMismatchSequence (Some _) None = Some 1"
| "firstAnchorMismatchSequence (Some a) (Some h) =
     (if fst a \<noteq> fst h then Some (min (fst a) (fst h) + 1)
      else if snd a = snd h then None else Some (fst a))"

definition head_of :: "audit_entry \<Rightarrow> chain_anchor" where
  "head_of e = (ae_sequence e, ae_entryHash e)"

end
