(* ===== verification/Audit_Verify.thy ===== *)
theory Audit_Verify
  imports Audit_Log
begin

text \<open>
  The writers of the audit log (\<open>drizzle-repository.ts\<close>, and \<open>appendSharedCapabilityAuditEntry\<close> of
  \<open>lib/capabilities/persistence.ts\<close>), the incremental verifier (\<open>verification.ts\<close>), the pages it
  reads, and the verification of \<open>service.ts\<close>. Writers hold one advisory lock, so a transaction is
  one step. \<open>references\<close> says whether the foreign keys of a row exist and \<open>gen\<close> gives the random
  identifiers.
\<close>

section \<open>Appending\<close>

text \<open>The entry that already carries the request ID, or a new one after the anchor.\<close>

definition bind_request ::
  "(audit_entry \<Rightarrow> bool) \<Rightarrow> (nat \<Rightarrow> uuid) \<Rightarrow> audit_env \<Rightarrow> (audit_entry \<Rightarrow> (audit_error, audit_entry) result)
     \<Rightarrow> audit_fact \<Rightarrow> chain_anchor option \<Rightarrow> (audit_tables, audit_error, audit_entry) comp" where
  "bind_request references gen env read newFact anchor st =
     (case find (\<lambda>r. au_requestId r = au_requestId newFact) (rows st) of
        Some row \<Rightarrow>
          (bindR (read row) (\<lambda>e. if securityAuditFactFromEntry e = newFact then Inr e
                                   else Inl Audit_request_conflict), st)
      | None \<Rightarrow>
          (case buildSecurityAuditEntry env (gen (idsDrawn st)) newFact anchor of
             Inl x \<Rightarrow> (Inl x, st)
           | Inr e \<Rightarrow>
               (case insert_row references e (st\<lparr>idsDrawn := Suc (idsDrawn st)\<rparr>) of
                  (Inl x, st') \<Rightarrow> (Inl x, st')
                | (Inr _, st') \<Rightarrow> (Inr e, st'))))"

text \<open>The writer of the capability engine targets the capability that it names.\<close>

definition appendSharedCapabilityAuditEntry ::
  "(audit_entry \<Rightarrow> bool) \<Rightarrow> (nat \<Rightarrow> uuid) \<Rightarrow> audit_env \<Rightarrow> audit_fact
     \<Rightarrow> (audit_tables, audit_error, unit) comp" where
  "appendSharedCapabilityAuditEntry references gen env event =
     bindC (liftR (parseSecurityAuditFact env
              (event\<lparr>au_target := Some (Target_capability, au_action event)\<rparr>)))
       (\<lambda>fact st.
         bindC (bind_request references gen env
           (\<lambda>row. case SecurityAuditEntrySchema row of None \<Rightarrow> Inl Audit_schema_refused | Some e \<Rightarrow> Inr e)
           fact (last_option (ordered_anchors st))) (\<lambda>_. retC ()) st)"

definition read_anchor :: "audit_tables \<Rightarrow> (audit_error, chain_anchor option) result" where
  "read_anchor st =
     (case last_option (ordered_anchors st) of
        None \<Rightarrow> Inr None | Some a \<Rightarrow> bindR (parseChainAnchor a) (\<lambda>x. Inr (Some x)))"

definition read_head :: "audit_env \<Rightarrow> audit_tables \<Rightarrow> (audit_error, chain_anchor option) result" where
  "read_head env st =
     (case last_option (ordered_rows st) of
        None \<Rightarrow> Inr None
      | Some row \<Rightarrow> bindR (rowToVerifiedEntry env row) (\<lambda>e. Inr (Some (head_of e))))"

definition repository_append ::
  "(audit_entry \<Rightarrow> bool) \<Rightarrow> (nat \<Rightarrow> uuid) \<Rightarrow> audit_env \<Rightarrow> 'a audit_fact_scheme
     \<Rightarrow> (audit_tables, audit_error, audit_entry) comp" where
  "repository_append references gen env f =
     bindC (liftR (parseSecurityAuditFact env f)) (\<lambda>fact. transactionC (\<lambda>st.
       bindC (liftR (read_anchor st)) (\<lambda>anchor.
       bindC (liftR (read_head env st)) (\<lambda>head.
         (case firstAnchorMismatchSequence anchor head of
            Some n \<Rightarrow> throwC (Audit_integrity n)
          | None \<Rightarrow> bind_request references gen env (rowToEntry env) fact anchor))) st))"

text \<open>The writer inside a verification session takes a verification result only.\<close>

definition session_append ::
  "(audit_entry \<Rightarrow> bool) \<Rightarrow> (nat \<Rightarrow> uuid) \<Rightarrow> audit_env \<Rightarrow> 'a audit_fact_scheme
     \<Rightarrow> (audit_tables, audit_error, audit_entry) comp" where
  "session_append references gen env f =
     bindC (liftR (parseSecurityAuditFact env f)) (\<lambda>fact.
       if au_category fact \<noteq> Audit_query \<or> au_action fact \<noteq> ''verify-security-audit-chain''
          \<or> (au_outcome fact \<noteq> Audit_success \<and> au_outcome fact \<noteq> Audit_failure)
       then throwC Audit_result_only
       else (\<lambda>st. bindC (liftR (read_anchor st)) (\<lambda>anchor.
            bindC (liftR (if au_outcome fact = Audit_success then read_head env st
                          else Inr (map_option head_of (last_option (ordered_rows st))))) (\<lambda>head.
              let mismatch = firstAnchorMismatchSequence anchor head
              in if au_outcome fact = Audit_success \<and> mismatch \<noteq> None
                 then throwC (Audit_integrity (the mismatch))
                 else if anchor = None \<and> head \<noteq> None then throwC (Audit_integrity 1)
                 else bind_request references gen env (rowToEntry env) fact anchor)) st))"

section \<open>The incremental verifier\<close>

datatype verification = Chain_valid int | Chain_invalid int

record verifier =
  vf_through :: "int option"
  vf_expected :: int
  vf_previous :: "digest option"
  vf_anchorPending :: bool
  vf_verified :: int
  vf_failure :: "verification option"
  vf_ids :: "uuid set"
  vf_hashes :: "digest set"
  vf_requests :: "uuid set"

definition VerifySecurityAuditChainInputSchema :: "int option \<Rightarrow> int option \<Rightarrow> bool" where
  "VerifySecurityAuditChainInputSchema from through =
     (pred_option safe_sequence from \<and> pred_option safe_sequence through
      \<and> \<not> (case (from, through) of (Some f, Some t) \<Rightarrow> t < f | _ \<Rightarrow> False))"

definition new_verifier :: "int option \<Rightarrow> int option \<Rightarrow> (audit_error, verifier) result" where
  "new_verifier from through =
     (if \<not> VerifySecurityAuditChainInputSchema from through then Inl Audit_input_refused
      else let start = (case from of None \<Rightarrow> 1 | Some f \<Rightarrow> f);
               pending = (start > 1);
               expected = (if pending then start - 1 else 1)
           in Inr \<lparr>vf_through = through, vf_expected = expected, vf_previous = None,
                   vf_anchorPending = pending, vf_verified = expected - 1, vf_failure = None,
                   vf_ids = {}, vf_hashes = {}, vf_requests = {}\<rparr>)"

definition afterSequence :: "verifier \<Rightarrow> int" where
  "afterSequence v = vf_expected v - 1"

definition fail_with :: "int \<Rightarrow> verifier \<Rightarrow> verification option \<times> verifier" where
  "fail_with n v = (Some (Chain_invalid n), v\<lparr>vf_failure := Some (Chain_invalid n)\<rparr>)"

definition add_row :: "audit_env \<Rightarrow> audit_entry \<Rightarrow> verifier \<Rightarrow> verification option \<times> verifier" where
  "add_row env raw v =
     (if \<not> (safe_sequence (ae_sequence raw) \<and> ae_sequence raw = vf_expected v)
      then fail_with (if safe_sequence (ae_sequence raw) then min (ae_sequence raw) (vf_expected v)
                      else vf_expected v) v
      else case SecurityAuditEntrySchema raw of
        None \<Rightarrow> fail_with (vf_expected v) v
      | Some e \<Rightarrow>
          if \<not> is_ok (parseSecurityAuditFact env (securityAuditFactFromEntry e))
          then fail_with (vf_expected v) v
          else if \<not> (vf_anchorPending v \<or> ae_previousHash e = vf_previous v)
               \<or> ae_id e \<in> vf_ids v \<or> ae_entryHash e \<in> vf_hashes v \<or> au_requestId e \<in> vf_requests v
               \<or> env_hash env (securityAuditHashPayload e) \<noteq> ae_entryHash e
          then fail_with (ae_sequence e) v
          else (None, v\<lparr>vf_ids := insert (ae_id e) (vf_ids v),
                  vf_hashes := insert (ae_entryHash e) (vf_hashes v),
                  vf_requests := insert (au_requestId e) (vf_requests v),
                  vf_anchorPending := False, vf_previous := Some (ae_entryHash e),
                  vf_expected := ae_sequence e + 1, vf_verified := ae_sequence e\<rparr>))"

fun add_rows :: "audit_env \<Rightarrow> audit_entry list \<Rightarrow> verifier \<Rightarrow> verification option \<times> verifier" where
  "add_rows env [] v = (None, v)"
| "add_rows env (r # rs) v =
     (case add_row env r v of (Some f, v') \<Rightarrow> (Some f, v') | (None, v') \<Rightarrow> add_rows env rs v')"

definition add_page :: "audit_env \<Rightarrow> audit_entry list \<Rightarrow> verifier \<Rightarrow> verification option \<times> verifier" where
  "add_page env rs v = (if vf_failure v \<noteq> None then (vf_failure v, v) else add_rows env rs v)"

definition finish :: "verifier \<Rightarrow> verification" where
  "finish v =
     (case vf_failure v of
        Some f \<Rightarrow> f
      | None \<Rightarrow>
          if vf_anchorPending v then Chain_invalid (vf_expected v)
          else if (case vf_through v of None \<Rightarrow> False | Some t \<Rightarrow> vf_verified v < t)
          then Chain_invalid (vf_expected v)
          else Chain_valid (vf_verified v))"

definition verifiedAnchor :: "verifier \<Rightarrow> chain_anchor option" where
  "verifiedAnchor v =
     (if vf_verified v < 1 then None else map_option (\<lambda>h. (vf_verified v, h)) (vf_previous v))"

section \<open>Reading the chain in pages\<close>

record chain_page =
  pg_entries :: "audit_entry list"
  pg_last :: "int option"
  pg_more :: bool
  pg_mismatch :: "int option"

text \<open>The row of a sequence: the map built from the rows keeps the last one.\<close>

definition row_at :: "audit_entry list \<Rightarrow> int \<Rightarrow> audit_entry option" where
  "row_at rs n = last_option (filter (\<lambda>r. ae_sequence r = n) rs)"

fun scan_anchors ::
  "audit_entry list \<Rightarrow> chain_anchor list \<Rightarrow> int \<Rightarrow> int option \<Rightarrow> audit_entry list
     \<Rightarrow> int option \<times> audit_entry list" where
  "scan_anchors rs [] expected mismatch visible = (mismatch, visible)"
| "scan_anchors rs (a # as) expected mismatch visible =
     (let m = (if mismatch = None \<and> fst a \<noteq> expected then Some expected else mismatch)
      in case row_at rs (fst a) of
           Some row \<Rightarrow>
             if ae_entryHash row = snd a then scan_anchors rs as (fst a + 1) m (visible @ [row])
             else scan_anchors rs as (fst a + 1) (if m = None then Some (fst a) else m) visible
         | None \<Rightarrow> scan_anchors rs as (fst a + 1) (if m = None then Some (fst a) else m) visible)"

definition chainPageFromRows ::
  "chain_anchor list \<Rightarrow> audit_entry list \<Rightarrow> int \<Rightarrow> nat \<Rightarrow> (audit_error, chain_page) result" where
  "chainPageFromRows anchorValues rs after limit =
     bindR (sequenceR (map parseChainAnchor (take limit anchorValues))) (\<lambda>visibleAnchors.
       case scan_anchors rs visibleAnchors (after + 1) None [] of
         (m, visible) \<Rightarrow>
           Inr \<lparr>pg_entries = visible, pg_last = map_option fst (last_option visibleAnchors),
                pg_more = (length anchorValues > limit), pg_mismatch = m\<rparr>)"

definition anchors_in :: "audit_tables \<Rightarrow> int \<Rightarrow> int option \<Rightarrow> chain_anchor list" where
  "anchors_in st after through =
     filter (\<lambda>a. fst a > after \<and> (case through of None \<Rightarrow> True | Some t \<Rightarrow> fst a \<le> t)) (ordered_anchors st)"

definition readChainPage ::
  "audit_tables \<Rightarrow> int \<Rightarrow> int option \<Rightarrow> nat \<Rightarrow> (audit_error, chain_page) result" where
  "readChainPage st after through limit =
     (if after < 0 \<or> after > MAX_SAFE_INTEGER \<or> limit < 1 \<or> limit > 200 then Inl Audit_page_invalid
      else let anchorRows = take (limit + 1) (anchors_in st after through);
               visibleSequences = map fst (take limit anchorRows)
           in chainPageFromRows anchorRows
                (filter (\<lambda>r. ae_sequence r \<in> set visibleSequences) (ordered_rows st)) after limit)"

definition readChainAnchor :: "audit_tables \<Rightarrow> int option \<Rightarrow> (audit_error, chain_anchor option) result" where
  "readChainAnchor st through =
     (case last_option (filter (\<lambda>a. case through of None \<Rightarrow> True | Some t \<Rightarrow> fst a = t) (ordered_anchors st)) of
        None \<Rightarrow> Inr None | Some a \<Rightarrow> bindR (parseChainAnchor a) (\<lambda>x. Inr (Some x)))"

definition VERIFICATION_PAGE_SIZE :: nat where
  "VERIFICATION_PAGE_SIZE = 200"

text \<open>The loop over the pages; every round reads anchors after those of the round before.\<close>

lemma parsed_anchors: "sequenceR (map parseChainAnchor as) = Inr bs \<Longrightarrow> bs = as"
  by (induction as arbitrary: bs) (auto simp: bindR_Inr_iff parseChainAnchor_def split: if_splits)

definition visible_anchors :: "audit_tables \<Rightarrow> int \<Rightarrow> int option \<Rightarrow> nat \<Rightarrow> chain_anchor list" where
  "visible_anchors st after through limit = take limit (anchors_in st after through)"

lemma page_facts:
  assumes "readChainPage st after through limit = Inr pg"
  shows "pg_last pg = map_option fst (last_option (visible_anchors st after through limit))"
    and "pg_more pg = (limit < length (anchors_in st after through))"
    and "scan_anchors (filter (\<lambda>r. ae_sequence r \<in> fst ` set (visible_anchors st after through limit)) (ordered_rows st))
           (visible_anchors st after through limit) (after + 1) None [] = (pg_mismatch pg, pg_entries pg)"
  using assms
  by (auto simp: readChainPage_def chainPageFromRows_def visible_anchors_def Let_def bindR_Inr_iff case_prod_beta
      split: if_splits dest!: parsed_anchors)

lemma page_last:
  assumes "readChainPage st after through limit = Inr pg" and "pg_last pg = Some l"
  shows "l \<in> fst ` set (anchors st)"
proof -
  have "map_option fst (last_option (visible_anchors st after through limit)) = Some l"
    using page_facts(1) [OF assms(1)] assms(2) by simp
  then have "l \<in> fst ` set (visible_anchors st after through limit)"
    by (auto simp: last_option_def split: if_splits dest!: last_in_set) force
  then have "l \<in> fst ` set (anchors_in st after through)"
    by (auto simp: visible_anchors_def dest!: in_set_takeD)
  then show ?thesis by (auto simp: anchors_in_def ordered_anchors_def)
qed

lemma fewer_after:
  fixes a :: chain_anchor
  assumes "a \<in> set xs" and "\<not> fst a \<le> after"
  shows "length (filter (\<lambda>x. fst x > fst a) xs) < length (filter (\<lambda>x. fst x > after) xs)"
proof -
  have sub: "filter (\<lambda>x. fst x > fst a) xs = filter (\<lambda>x. fst x > fst a) (filter (\<lambda>x. fst x > after) xs)"
    using assms(2) by (auto intro: filter_cong)
  have "a \<in> set (filter (\<lambda>x. fst x > after) xs)" using assms by simp
  then show ?thesis unfolding sub by (rule length_filter_less) simp
qed

function verify_pages ::
  "audit_env \<Rightarrow> audit_tables \<Rightarrow> int option \<Rightarrow> verifier \<Rightarrow> int
     \<Rightarrow> (audit_error, verification \<times> verifier) result" where
  "verify_pages env st through v after =
     (case readChainPage st after through VERIFICATION_PAGE_SIZE of
        Inl e \<Rightarrow> Inl e
      | Inr pg \<Rightarrow>
          (case pg_mismatch pg of
             Some n \<Rightarrow> Inr (Chain_invalid n, v)
           | None \<Rightarrow>
               (case add_page env (pg_entries pg) v of
                  (Some f, v') \<Rightarrow> Inr (f, v')
                | (None, v') \<Rightarrow>
                    if \<not> pg_more pg then Inr (finish v', v')
                    else (case pg_last pg of
                            None \<Rightarrow> Inl Audit_not_advanced
                          | Some l \<Rightarrow> if l \<le> after then Inl Audit_not_advanced
                                      else verify_pages env st through v' l))))"
  by pat_completeness auto

termination
proof (relation "measure (\<lambda>(env, st, through, v, after). length (filter (\<lambda>a. fst a > after) (anchors st)))")
  fix env :: audit_env and st through after pg l and v v' :: verifier
  assume pg: "readChainPage st after through VERIFICATION_PAGE_SIZE = Inr pg" and l: "pg_last pg = Some l"
    and adv: "\<not> l \<le> after"
  obtain a where a: "a \<in> set (anchors st)" "fst a = l" using page_last [OF pg l] by auto
  then have "length (filter (\<lambda>a. fst a > l) (anchors st)) < length (filter (\<lambda>a. fst a > after) (anchors st))"
    using fewer_after [OF a(1)] adv by simp
  then show "((env, st, through, v', l), (env, st, through, v, after))
      \<in> measure (\<lambda>(env, st, through, v, after). length (filter (\<lambda>a. fst a > after) (anchors st)))"
    by simp
qed simp

declare verify_pages.simps [simp del]

section \<open>The verification capability\<close>

text \<open>What the session of \<open>verify\<close> finds, before it is recorded.\<close>

definition verify_chain ::
  "audit_env \<Rightarrow> audit_tables \<Rightarrow> int option \<Rightarrow> int option \<Rightarrow> (audit_error, verification) result" where
  "verify_chain env st from through =
     bindR (readChainAnchor st through) (\<lambda>persisted.
       let effective = (case through of Some t \<Rightarrow> Some t | None \<Rightarrow> map_option fst persisted)
       in bindR (new_verifier from effective) (\<lambda>v.
          bindR (if through = None \<and> persisted = None then Inr (finish v, v)
                 else verify_pages env st effective v (afterSequence v)) (\<lambda>(found, v').
            Inr (case found of
                   Chain_invalid n \<Rightarrow> Chain_invalid n
                 | Chain_valid n \<Rightarrow>
                     (case persisted of
                        None \<Rightarrow>
                          if verifiedAnchor v' \<noteq> None \<or> through \<noteq> None
                          then Chain_invalid (case through of Some t \<Rightarrow> t
                                 | None \<Rightarrow> (case verifiedAnchor v' of Some a \<Rightarrow> fst a | None \<Rightarrow> 1))
                          else Chain_valid n
                      | Some a \<Rightarrow>
                          if verifiedAnchor v' = Some a then Chain_valid n
                          else Chain_invalid (fst a))))))"

datatype role = Staff_role | Admin_role | Partner_role

record audit_access =
  ax_actor :: actor
  ax_source :: invocation_source
  ax_scope :: facility_scope
  ax_roles :: "role list"
  ax_grants :: "string list"
  ax_requestId :: uuid
  ax_serverTime :: timestamp

definition parseSecurityAuditAccessContext :: "audit_access \<Rightarrow> (audit_error, audit_access) result" where
  "parseSecurityAuditAccessContext c =
     (if ActorSchema (ax_actor c) \<and> FacilityScopeSchema (ax_scope c)
         \<and> list_all isAgentKeyGrantableCapabilityId (ax_grants c) \<and> uuid_ok (ax_requestId c)
         \<and> isActorSourceCompatible (ax_actor c) (ax_source c)
         \<and> distinct (ax_roles c) \<and> distinct (ax_grants c)
         \<and> \<not> (actor_kind (ax_actor c) = Human \<and> ax_grants c \<noteq> [])
         \<and> \<not> (actor_kind (ax_actor c) \<noteq> Human \<and> ax_roles c \<noteq> [])
         \<and> \<not> (actor_kind (ax_actor c) \<noteq> Agent \<and> ax_grants c \<noteq> [])
      then Inr c else Inl Audit_context_refused)"

fun isAuthorizedForCapability :: "string \<Rightarrow> audit_access \<Rightarrow> bool" where
  "isAuthorizedForCapability i c =
     (case ax_actor c of
        Human_actor _ _ \<Rightarrow> Admin_role \<in> set (ax_roles c)
      | Agent_actor _ _ \<Rightarrow> i \<in> set (ax_grants c)
      | System_actor _ \<Rightarrow> i = ''verify-security-audit-chain'' \<and> ax_source c = Scheduled_job)"

definition auditFacility :: "audit_access \<Rightarrow> uuid option \<Rightarrow> uuid option" where
  "auditFacility c requested =
     (if (case requested of None \<Rightarrow> False
          | Some f \<Rightarrow> (case ax_scope c of District \<Rightarrow> True | Facilities ids \<Rightarrow> f \<in> set ids))
      then requested
      else case ax_scope c of Facilities [f] \<Rightarrow> Some f | _ \<Rightarrow> None)"

definition queryAuditFact ::
  "audit_env \<Rightarrow> audit_access \<Rightarrow> string \<Rightarrow> audit_outcome \<Rightarrow> string option \<Rightarrow> uuid option
     \<Rightarrow> (audit_error, audit_fact) result" where
  "queryAuditFact env c i outcome reason requested =
     parseSecurityAuditFact env
       \<lparr>au_category = Audit_query, au_action = i, au_actionIds = [], au_confirmationId = None,
        au_outcome = outcome, au_principal = Actor_principal (ax_actor c), au_source = ax_source c,
        au_facilityId = auditFacility c requested,
        au_target = Some (Target_audit_query, ax_requestId c),
        au_requestId = ax_requestId c, au_reasonCode = reason, au_occurredAt = ax_serverTime c\<rparr>"

text \<open>\<open>authorize\<close> for the verification, which asks for no facility.\<close>

definition authorize_verification ::
  "(audit_entry \<Rightarrow> bool) \<Rightarrow> (nat \<Rightarrow> uuid) \<Rightarrow> audit_env \<Rightarrow> invocation_policy \<Rightarrow> audit_access
     \<Rightarrow> (audit_tables, audit_error, audit_access) comp" where
  "authorize_verification references gen env policy contextValue =
     bindC (liftR (parseSecurityAuditAccessContext contextValue)) (\<lambda>c.
       if actor_kind (ax_actor c) \<in> set (principalKinds policy) \<and> ax_source c \<in> set (sources policy)
          \<and> isAuthorizedForCapability ''verify-security-audit-chain'' c \<and> ax_scope c = District
       then retC c
       else bindC (liftR (queryAuditFact env c ''verify-security-audit-chain'' Audit_denied
                            (Some ''AUDIT_QUERY_FORBIDDEN'') None)) (\<lambda>denial.
            bindC (repository_append references gen env denial) (\<lambda>_. throwC Audit_forbidden)))"

definition append_verification ::
  "(audit_entry \<Rightarrow> bool) \<Rightarrow> (nat \<Rightarrow> uuid) \<Rightarrow> audit_env \<Rightarrow> audit_access \<Rightarrow> verification
     \<Rightarrow> (audit_tables, audit_error, audit_entry) comp" where
  "append_verification references gen env c found =
     bindC (liftR (case found of
         Chain_valid _ \<Rightarrow> queryAuditFact env c ''verify-security-audit-chain'' Audit_success None None
       | Chain_invalid _ \<Rightarrow> queryAuditFact env c ''verify-security-audit-chain'' Audit_failure
                              (Some ''AUDIT_CHAIN_INVALID'') None))
       (session_append references gen env)"

definition record_verification ::
  "(audit_entry \<Rightarrow> bool) \<Rightarrow> (nat \<Rightarrow> uuid) \<Rightarrow> audit_env \<Rightarrow> audit_access \<Rightarrow> verification
     \<Rightarrow> (audit_tables, audit_error, verification) comp" where
  "record_verification references gen env c found =
     catchC (bindC (append_verification references gen env c found) (\<lambda>_. retC found))
       (\<lambda>e. case (e, found) of
             (Audit_integrity n, Chain_valid _) \<Rightarrow>
               bindC (append_verification references gen env c (Chain_invalid n))
                 (\<lambda>_. retC (Chain_invalid n))
           | _ \<Rightarrow> throwC e)"

definition verify_audit ::
  "(audit_entry \<Rightarrow> bool) \<Rightarrow> (nat \<Rightarrow> uuid) \<Rightarrow> audit_env \<Rightarrow> invocation_policy \<Rightarrow> audit_access
     \<Rightarrow> int option \<Rightarrow> int option \<Rightarrow> (audit_tables, audit_error, verification) comp" where
  "verify_audit references gen env policy contextValue from through =
     (if \<not> VerifySecurityAuditChainInputSchema from through then throwC Audit_input_refused
      else bindC (authorize_verification references gen env policy contextValue) (\<lambda>c.
        catchC
          (transactionC (\<lambda>st.
             bindC (liftR (verify_chain env st from through)) (record_verification references gen env c) st))
          (\<lambda>e. bindC (liftR (queryAuditFact env c ''verify-security-audit-chain'' Audit_failure
                               (Some ''AUDIT_VERIFICATION_FAILED'') None)) (\<lambda>failed.
               bindC (repository_append references gen env failed) (\<lambda>_. throwC e)))))"

end
