(* ===== verification/Audit_Writers.thy ===== *)
theory Audit_Writers
  imports Audit_Verify
begin

text \<open>
  The writers that insert into \<open>security_audit_entries\<close> without the repository of \<open>lib/audit/\<close>: those
  of the stores of \<open>capabilities/events.ts\<close>, \<open>media/repository.ts\<close> and
  \<open>agents/drizzle-prepared-activation-store.ts\<close>, which hash the event as it is given to them, the
  sign-in audit of \<open>auth/sign-in-audit.ts\<close>, which the session stores share, those of
  \<open>capabilities/start.ts\<close> and of the activation limit, and that of \<open>capabilities/admin.ts\<close>. All take
  the advisory lock, so a call is one step. Their three renderings of a payload (\<open>stableJson\<close> twice,
  \<open>canonicalSecurityAuditJson\<close>) sort the keys and are one hash here.
\<close>

section \<open>After the last entry\<close>

text \<open>The columns of type uuid give their values back in lower case.\<close>

definition uuid_columns :: "audit_entry \<Rightarrow> audit_entry" where
  "uuid_columns e =
     e\<lparr>ae_id := lower_case (ae_id e), au_confirmationId := map_option lower_case (au_confirmationId e),
       au_facilityId := map_option lower_case (au_facilityId e), au_requestId := lower_case (au_requestId e)\<rparr>"

definition last_head :: "audit_tables \<Rightarrow> chain_anchor option" where
  "last_head st = map_option head_of (last_option (ordered_rows st))"

text \<open>
  The entry built with a new identifier (\<open>randomUUID\<close> writes lower case) after the last entry of the
  table, whatever the anchors say, and inserted; the insert triggers decide.
\<close>

definition append_entry ::
  "(audit_entry \<Rightarrow> bool) \<Rightarrow> (nat \<Rightarrow> uuid) \<Rightarrow> (uuid \<Rightarrow> chain_anchor option \<Rightarrow> (audit_error, audit_entry) result)
     \<Rightarrow> (audit_tables, audit_error, audit_entry) comp" where
  "append_entry references gen build st =
     (case build (lower_case (gen (idsDrawn st))) (last_head st) of
        Inl x \<Rightarrow> (Inl x, st)
      | Inr e \<Rightarrow>
          (case insert_row references (uuid_columns e) (st\<lparr>idsDrawn := Suc (idsDrawn st)\<rparr>) of
             (Inl x, st') \<Rightarrow> (Inl x, st')
           | (Inr _, st') \<Rightarrow> (Inr e, st')))"

text \<open>The capability that an event names is its target.\<close>

definition capability_fact :: "audit_fact \<Rightarrow> audit_fact" where
  "capability_fact event = event\<lparr>au_target := Some (Target_capability, au_action event)\<rparr>"

section \<open>Writers that hash what they are given\<close>

definition direct_entry ::
  "audit_env \<Rightarrow> audit_fact \<Rightarrow> uuid \<Rightarrow> chain_anchor option \<Rightarrow> (audit_error, audit_entry) result" where
  "direct_entry env f newId previous =
     (let p = payload_of f newId ((case previous of None \<Rightarrow> 0 | Some (n, _) \<Rightarrow> n) + 1) (map_option snd previous)
      in case SecurityAuditEntrySchema (entry_of p (env_hash env p)) of
           None \<Rightarrow> Inl Audit_schema_refused | Some e \<Rightarrow> Inr e)"

definition direct_append ::
  "(audit_entry \<Rightarrow> bool) \<Rightarrow> (nat \<Rightarrow> uuid) \<Rightarrow> audit_env \<Rightarrow> audit_fact
     \<Rightarrow> (audit_tables, audit_error, audit_entry) comp" where
  "direct_append references gen env event =
     append_entry references gen (direct_entry env (capability_fact event))"

text \<open>The events of the sign-in audit.\<close>

datatype access_gate_event =
  Gate_denied (gate_requestId: uuid) (gate_occurredAt: timestamp) (gate_source: invocation_source)
    (gate_subjectDigest: "digest option") (gate_reasonCode: string) (gate_deniedUser: "uuid option")
| Gate_success (gate_requestId: uuid) (gate_occurredAt: timestamp) (gate_source: invocation_source)
    (gate_userId: uuid) (gate_sessionId: uuid)

definition access_gate_checks :: "access_gate_event \<Rightarrow> bool" where
  "access_gate_checks event =
     (uuid_ok (gate_requestId event) \<and> gate_source event \<in> {Web, Mobile}
      \<and> (case event of
           Gate_denied _ _ _ subject _ user \<Rightarrow> pred_option digest_ok subject \<and> pred_option uuid_ok user
         | Gate_success _ _ _ user session \<Rightarrow> uuid_ok user \<and> uuid_ok session))"

definition access_gate_fact :: "access_gate_event \<Rightarrow> audit_fact" where
  "access_gate_fact event =
     \<lparr>au_category = (case event of Gate_denied _ _ _ _ _ _ \<Rightarrow> Access_denial | Gate_success _ _ _ _ _ \<Rightarrow> Sign_in),
      au_action = ''complete-oidc-sign-in'', au_actionIds = [], au_confirmationId = None,
      au_outcome = (case event of Gate_denied _ _ _ _ _ _ \<Rightarrow> Audit_denied | Gate_success _ _ _ _ _ \<Rightarrow> Audit_success),
      au_principal = (case event of
          Gate_denied _ _ _ subject _ _ \<Rightarrow> Unauthenticated subject
        | Gate_success _ _ _ user session \<Rightarrow> Actor_principal (Human_actor user session)),
      au_source = gate_source event, au_facilityId = None,
      au_target = (case event of
          Gate_denied _ _ _ _ _ user \<Rightarrow> map_option (Pair Target_user) user
        | Gate_success _ _ _ _ session \<Rightarrow> Some (Target_session, session)),
      au_requestId = gate_requestId event,
      au_reasonCode = (case event of Gate_denied _ _ _ _ reason _ \<Rightarrow> Some reason | Gate_success _ _ _ _ _ \<Rightarrow> None),
      au_occurredAt = gate_occurredAt event\<rparr>"

definition buildAccessGateAuditEntry ::
  "audit_env \<Rightarrow> access_gate_event \<Rightarrow> uuid \<Rightarrow> chain_anchor option \<Rightarrow> (audit_error, audit_entry) result" where
  "buildAccessGateAuditEntry env event newId previous =
     (if \<not> access_gate_checks event then Inl Audit_input_refused
      else direct_entry env (access_gate_fact event) newId previous)"

definition gate_append ::
  "(audit_entry \<Rightarrow> bool) \<Rightarrow> (nat \<Rightarrow> uuid) \<Rightarrow> audit_env \<Rightarrow> access_gate_event
     \<Rightarrow> (audit_tables, audit_error, audit_entry) comp" where
  "gate_append references gen env event =
     append_entry references gen (buildAccessGateAuditEntry env event)"

section \<open>Writers that build canonical entries\<close>

definition built_append ::
  "(audit_entry \<Rightarrow> bool) \<Rightarrow> (nat \<Rightarrow> uuid) \<Rightarrow> audit_env \<Rightarrow> audit_fact
     \<Rightarrow> (audit_tables, audit_error, audit_entry) comp" where
  "built_append references gen env f =
     bindC (liftR (parseSecurityAuditFact env f)) (\<lambda>fact.
       append_entry references gen (\<lambda>newId. buildSecurityAuditEntry env newId fact))"

definition start_append ::
  "(audit_entry \<Rightarrow> bool) \<Rightarrow> (nat \<Rightarrow> uuid) \<Rightarrow> audit_env \<Rightarrow> audit_fact
     \<Rightarrow> (audit_tables, audit_error, audit_entry) comp" where
  "start_append references gen env event = built_append references gen env (capability_fact event)"

definition ADMIN_MUTATION_IDS :: "string list" where
  "ADMIN_MUTATION_IDS =
     [''create-facility'', ''create-group-source'', ''create-neighborhood-version'', ''set-channel-enabled'',
      ''update-facility'', ''update-group-source'', ''set-user-facility-scope'', ''admit-account'',
      ''revoke-admitted-account'', ''invite-partner'', ''disable-partner'', ''reconcile-partner-access'',
      ''set-partner-alert-settings'', ''create-event-type-draft'', ''update-event-type-draft'',
      ''publish-event-type-version'', ''issue-agent-api-key'', ''revoke-agent-api-key'']"

definition auditCategory :: "audit_fact \<Rightarrow> audit_category" where
  "auditCategory event =
     (if au_outcome event = Audit_success
         \<and> (case au_principal event of Actor_principal a \<Rightarrow> actor_kind a = Human | Unauthenticated _ \<Rightarrow> False)
         \<and> au_action event \<in> set ADMIN_MUTATION_IDS
      then Admin_change else au_category event)"

definition admin_fact :: "audit_fact \<Rightarrow> (audit_target_kind \<times> string) option \<Rightarrow> audit_fact" where
  "admin_fact event target =
     event\<lparr>au_category := auditCategory event,
       au_target := (if target = None then Some (Target_capability, au_action event) else target)\<rparr>"

text \<open>A failure under a request identifier that has its entry already is not written again.\<close>

definition admin_append ::
  "(audit_entry \<Rightarrow> bool) \<Rightarrow> (nat \<Rightarrow> uuid) \<Rightarrow> audit_env \<Rightarrow> audit_fact \<Rightarrow> (audit_target_kind \<times> string) option
     \<Rightarrow> (audit_tables, audit_error, unit) comp" where
  "admin_append references gen env event target st =
     (let anchor = last_option (ordered_anchors st)
      in if anchor \<noteq> last_head st then (Inl Audit_chain_mismatch, st)
         else if find (\<lambda>r. au_requestId r = lower_case (au_requestId event)) (rows st) \<noteq> None
         then (if au_outcome event = Audit_success then Inl Audit_request_conflict else Inr (), st)
         else case buildSecurityAuditEntry env (lower_case (gen (idsDrawn st))) (admin_fact event target) anchor of
                Inl x \<Rightarrow> (Inl x, st)
              | Inr e \<Rightarrow> insert_row references e (st\<lparr>idsDrawn := Suc (idsDrawn st)\<rparr>))"

end
