(* ===== verification/Audit_Chain.thy ===== *)
theory Audit_Chain
  imports Audit_Writers
begin

text \<open>
  What the audit log promises: whatever the writers append, verification accepts the log; and a
  log that verification accepts against its anchors holds every entry that was appended, unchanged.
\<close>

section \<open>Facts about the schema\<close>

lemma trim_principal_idem [simp]: "trim_principal (trim_principal p) = trim_principal p"
  by (cases p rule: trim_principal.cases) simp_all

lemma trim_entry_idem [simp]: "trim_entry (trim_entry e) = trim_entry e"
  by (cases "au_target e") (auto simp: trim_entry_def option.map_comp comp_def)

lemma schema_idem: "SecurityAuditEntrySchema r = Some e \<Longrightarrow> SecurityAuditEntrySchema e = Some e"
  by (auto simp: SecurityAuditEntrySchema_def Let_def split: if_splits)

lemma canonical_actor_idem [simp]: "canonical_actor (canonical_actor a) = canonical_actor a"
  by (cases a) simp_all

lemma canonicalPrincipal_idem [simp]: "canonicalPrincipal (canonicalPrincipal p) = canonicalPrincipal p"
  by (cases p) simp_all

lemma canonicalTarget_idem [simp]: "canonicalTarget (canonicalTarget t) = canonicalTarget t"
  by (cases t rule: canonicalTarget.cases) simp_all

lemma fact_of_fact [simp]: "fact_of (f :: audit_fact) = f"
  by (simp add: fact_of_def audit_fact.truncate_def)

lemma fact_of_simps [simp]:
  "au_category (fact_of f) = au_category f" "au_action (fact_of f) = au_action f"
  "au_actionIds (fact_of f) = au_actionIds f" "au_confirmationId (fact_of f) = au_confirmationId f"
  "au_outcome (fact_of f) = au_outcome f" "au_principal (fact_of f) = au_principal f"
  "au_source (fact_of f) = au_source f" "au_facilityId (fact_of f) = au_facilityId f"
  "au_target (fact_of f) = au_target f" "au_requestId (fact_of f) = au_requestId f"
  "au_reasonCode (fact_of f) = au_reasonCode f" "au_occurredAt (fact_of f) = au_occurredAt f"
  by (simp_all add: fact_of_def audit_fact.truncate_def)

lemma securityAuditFactFromEntry_idem [simp]:
  "securityAuditFactFromEntry (securityAuditFactFromEntry f) = securityAuditFactFromEntry f"
  by (simp add: securityAuditFactFromEntry_def option.map_comp comp_def)

text \<open>A fact as the validation of \<open>model.ts\<close> sees it.\<close>

definition validation_entry :: "'a audit_fact_scheme \<Rightarrow> audit_entry" where
  "validation_entry f = entry_of (payload_of f VALIDATION_ENTRY_ID 1 None) (replicate 64 (CHR ''0''))"

lemma fact_of_parts [simp]:
  "fact_of (entry_of p h) = fact_of p" "fact_of (payload_of f i n q) = fact_of f"
  by (simp_all add: fact_of_def audit_fact.truncate_def entry_of_def payload_of_def)

lemma entry_parts [simp]:
  "ae_id (entry_of p h) = ae_id p" "ae_sequence (entry_of p h) = ae_sequence p"
  "ae_previousHash (entry_of p h) = ae_previousHash p" "ae_entryHash (entry_of p h) = h"
  "ae_id (payload_of f i n q) = i" "ae_sequence (payload_of f i n q) = n"
  "ae_previousHash (payload_of f i n q) = q"
  by (simp_all add: entry_of_def payload_of_def)

section \<open>Sound logs\<close>

text \<open>The log as the writers build it, entry by entry.\<close>

inductive sound_log :: "audit_env \<Rightarrow> audit_entry list \<Rightarrow> bool" for env where
  empty: "sound_log env []"
| append: "sound_log env es \<Longrightarrow> ae_sequence e = int (length es) + 1 \<Longrightarrow>
    ae_previousHash e = map_option ae_entryHash (last_option es) \<Longrightarrow>
    SecurityAuditEntrySchema e = Some e \<Longrightarrow>
    is_ok (parseSecurityAuditFact env (securityAuditFactFromEntry e)) \<Longrightarrow>
    env_hash env (securityAuditHashPayload e) = ae_entryHash e \<Longrightarrow>
    ae_id e \<notin> ae_id ` set es \<Longrightarrow> ae_entryHash e \<notin> ae_entryHash ` set es \<Longrightarrow>
    au_requestId e \<notin> au_requestId ` set es \<Longrightarrow> sound_log env (es @ [e])"

inductive_simps sound_log_Nil [simp]: "sound_log env []"
inductive_simps sound_log_snoc: "sound_log env (es @ [e])"

lemma last_option_simps [simp]: "last_option [] = None" "last_option (xs @ [x]) = Some x"
  "last_option xs = None \<longleftrightarrow> xs = []" "last_option (map f xs) = map_option f (last_option xs)"
  by (simp_all add: last_option_def last_map)

lemma sound_prefix: "sound_log env (xs @ ys) \<Longrightarrow> sound_log env xs"
proof (induction ys rule: rev_induct)
  case (snoc y ys)
  then show ?case by (metis append_assoc sound_log_snoc)
qed simp

lemma sound_sequences: "sound_log env es \<Longrightarrow> map ae_sequence es = map (\<lambda>k. int k + 1) [0..<length es]"
  by (induction rule: sound_log.induct) simp_all

lemma sound_nth: "sound_log env es \<Longrightarrow> k < length es \<Longrightarrow> ae_sequence (es ! k) = int k + 1"
  using arg_cong [OF sound_sequences, of env es "\<lambda>ns. ns ! k"] by simp

lemma sound_member:
  "sound_log env es \<Longrightarrow> e \<in> set es \<Longrightarrow> SecurityAuditEntrySchema e = Some e
     \<and> env_hash env (securityAuditHashPayload e) = ae_entryHash e"
  by (induction rule: sound_log.induct) auto

lemma sound_sorted: "sound_log env es \<Longrightarrow> sort_key ae_sequence es = es"
proof -
  assume "sound_log env es"
  then have "sorted (map ae_sequence es)" by (simp add: sound_sequences sorted_iff_nth_mono)
  then show ?thesis by (rule sort_key_id_if_sorted)
qed

lemma sound_distinct: "sound_log env es \<Longrightarrow> distinct (map ae_sequence es)"
  by (simp add: sound_sequences distinct_conv_nth)

section \<open>The verifier on a sound log\<close>

definition verified_state :: "int option \<Rightarrow> audit_entry list \<Rightarrow> verifier" where
  "verified_state through es =
     \<lparr>vf_through = through, vf_expected = int (length es) + 1,
      vf_previous = map_option ae_entryHash (last_option es), vf_anchorPending = False,
      vf_verified = int (length es), vf_failure = None, vf_ids = ae_id ` set es,
      vf_hashes = ae_entryHash ` set es, vf_requests = au_requestId ` set es\<rparr>"

lemma add_rows_append:
  "add_rows env (xs @ ys) v =
     (case add_rows env xs v of (Some f, v') \<Rightarrow> (Some f, v') | (None, v') \<Rightarrow> add_rows env ys v')"
  by (induction xs arbitrary: v) (simp_all split: prod.split option.split)

lemma schema_sequence: "SecurityAuditEntrySchema e = Some e' \<Longrightarrow> safe_sequence (ae_sequence e') \<and> digest_ok (ae_entryHash e')"
  by (auto simp: SecurityAuditEntrySchema_def Let_def safe_sequence_def split: if_splits)

lemma add_sound_rows:
  "sound_log env es \<Longrightarrow> add_rows env es (verified_state through []) = (None, verified_state through es)"
proof (induction rule: sound_log.induct)
  case (append es e)
  have "safe_sequence (ae_sequence e)" using schema_sequence append(4) by blast
  then have "add_row env e (verified_state through es) = (None, verified_state through (es @ [e]))"
    using append by (simp add: add_row_def verified_state_def)
  then show ?case using append by (simp add: add_rows_append)
qed simp

lemma add_page_sound:
  assumes "sound_log env (xs @ ys)"
  shows "add_page env ys (verified_state through xs) = (None, verified_state through (xs @ ys))"
  using add_sound_rows [OF assms, of through] add_sound_rows [OF sound_prefix [OF assms], of through]
  by (simp add: add_rows_append add_page_def) (simp add: verified_state_def)

section \<open>Pages of a sound log\<close>

text \<open>The tables as the writers leave them: one anchor for every row.\<close>

definition log_inv :: "audit_env \<Rightarrow> audit_tables \<Rightarrow> bool" where
  "log_inv env st =
     (sound_log env (rows st) \<and> anchors st = map head_of (rows st) \<and> length (rows st) \<le> 2147483647)"

lemma head_of_simps [simp]: "fst (head_of e) = ae_sequence e" "snd (head_of e) = ae_entryHash e"
  by (simp_all add: head_of_def)

lemma ordered_rows_inv: "log_inv env st \<Longrightarrow> ordered_rows st = rows st"
  by (auto simp: log_inv_def ordered_rows_def intro: sound_sorted)

lemma ordered_anchors_inv: "log_inv env st \<Longrightarrow> ordered_anchors st = map head_of (rows st)"
proof -
  assume inv: "log_inv env st"
  then have "map fst (anchors st) = map (\<lambda>k. int k + 1) [0..<length (rows st)]"
    using sound_sequences [of env "rows st"] by (simp add: log_inv_def comp_def)
  then have "sorted (map fst (anchors st))" by (simp add: sorted_iff_nth_mono)
  then show ?thesis using inv by (simp add: log_inv_def ordered_anchors_def sort_key_id_if_sorted)
qed

lemma sequence_bounds:
  assumes "sound_log env (xs @ ys)"
  shows "x \<in> set xs \<Longrightarrow> ae_sequence x \<le> int (length xs)"
    and "y \<in> set ys \<Longrightarrow> int (length xs) < ae_sequence y \<and> ae_sequence y \<le> int (length (xs @ ys))"
proof -
  show "ae_sequence x \<le> int (length xs)" if "x \<in> set xs"
    using that sound_nth [OF sound_prefix [OF assms]] by (auto simp: in_set_conv_nth)
  show "int (length xs) < ae_sequence y \<and> ae_sequence y \<le> int (length (xs @ ys))" if y: "y \<in> set ys"
  proof -
    obtain k where "k < length ys" "ys ! k = y" using y by (auto simp: in_set_conv_nth)
    then show ?thesis using sound_nth [OF assms, of "length xs + k"] by (simp add: nth_append)
  qed
qed

lemma anchors_in_sound:
  assumes "log_inv env st" and "rows st = xs @ ys"
  shows "anchors_in st (int (length xs)) (Some (int (length (rows st)))) = map head_of ys"
proof -
  have s: "sound_log env (xs @ ys)" using assms by (simp add: log_inv_def)
  have "filter (\<lambda>a. int (length xs) < ae_sequence a \<and> ae_sequence a \<le> int (length (xs @ ys))) xs = []"
    using sequence_bounds(1) [OF s] by (force simp: filter_empty_conv)
  moreover have "filter (\<lambda>a. int (length xs) < ae_sequence a \<and> ae_sequence a \<le> int (length (xs @ ys))) ys = ys"
    using sequence_bounds(2) [OF s] by (auto simp: filter_id_conv)
  ultimately show ?thesis
    by (simp add: anchors_in_def ordered_anchors_inv [OF assms(1)] assms(2) filter_map comp_def)
qed

lemma row_at_unique: "distinct (map ae_sequence rs) \<Longrightarrow> z \<in> set rs \<Longrightarrow> row_at rs (ae_sequence z) = Some z"
proof (induction rs)
  case (Cons r rs)
  have "filter (\<lambda>x. ae_sequence x = ae_sequence z) rs = []" if "r = z"
    using that Cons(2) by (auto simp: filter_empty_conv) (metis imageI)
  then show ?case
    using Cons by (cases "r = z") (auto simp: row_at_def last_option_def image_iff)
qed simp

lemma scan_sound:
  assumes "\<And>z. z \<in> set zs \<Longrightarrow> row_at rs (ae_sequence z) = Some z"
    and "\<And>k. k < length zs \<Longrightarrow> ae_sequence (zs ! k) = n + int k"
  shows "scan_anchors rs (map head_of zs) n None seen = (None, seen @ zs)"
  using assms
proof (induction zs arbitrary: n seen)
  case (Cons z zs)
  have "ae_sequence z = n" using Cons(3) [of 0] by simp
  moreover have "scan_anchors rs (map head_of zs) (n + 1) None (seen @ [z]) = (None, (seen @ [z]) @ zs)"
  proof (rule Cons.IH)
    show "row_at rs (ae_sequence y) = Some y" if "y \<in> set zs" for y using Cons(2) that by simp
    show "ae_sequence (zs ! k) = n + 1 + int k" if "k < length zs" for k
      using Cons(3) [of "Suc k"] that by simp
  qed
  ultimately show ?case using Cons(2) [of z] by simp
qed simp

lemma parse_sound_anchors:
  assumes "\<And>z. z \<in> set zs \<Longrightarrow> SecurityAuditEntrySchema z = Some z"
  shows "sequenceR (map parseChainAnchor (map head_of zs)) = Inr (map head_of zs)"
  using assms
proof (induction zs)
  case (Cons z zs)
  then show ?case
    using schema_sequence [of z z] by (simp add: parseChainAnchor_def)
qed simp

lemma page_of_sound_log:
  assumes "log_inv env st" and "rows st = xs @ ys" and "1 \<le> limit" and "limit \<le> 200"
  shows "readChainPage st (int (length xs)) (Some (int (length (rows st)))) limit
    = Inr \<lparr>pg_entries = take limit ys, pg_last = map_option ae_sequence (last_option (take limit ys)),
           pg_more = (limit < length ys), pg_mismatch = None\<rparr>"
proof -
  let ?vis = "take limit ys"
  let ?rs = "filter (\<lambda>r. ae_sequence r \<in> ae_sequence ` set ?vis) (rows st)"
  have s: "sound_log env (xs @ ys)" using assms by (simp add: log_inv_def)
  have "distinct (map ae_sequence ?rs)"
    using distinct_map_filter [OF sound_distinct [OF s]] by (simp add: assms(2))
  then have at: "row_at ?rs (ae_sequence z) = Some z" if "z \<in> set ?vis" for z
    using that by (intro row_at_unique) (auto simp: assms(2) dest: in_set_takeD)
  have "ae_sequence (?vis ! k) = int (length xs) + 1 + int k" if "k < length ?vis" for k
    using sound_nth [OF s, of "length xs + k"] that by (simp add: nth_append)
  then have scan: "scan_anchors ?rs (map head_of ?vis) (int (length xs) + 1) None [] = (None, ?vis)"
    using scan_sound [of ?vis ?rs "int (length xs) + 1" "[]"] at by simp
  have parse: "sequenceR (map parseChainAnchor (map head_of ?vis)) = Inr (map head_of ?vis)"
    using sound_member [OF s] by (intro parse_sound_anchors) (auto dest: in_set_takeD)
  have "int (length xs) \<le> MAX_SAFE_INTEGER"
    using assms(1,2) by (simp add: log_inv_def MAX_SAFE_INTEGER_def)
  then show ?thesis
    using assms(3,4) scan parse
    by (simp add: readChainPage_def anchors_in_sound [OF assms(1,2)] ordered_rows_inv [OF assms(1)] Let_def
        take_map chainPageFromRows_def option.map_comp comp_def image_image)
qed

section \<open>Verification of a sound log\<close>

lemma verify_pages_sound:
  assumes "log_inv env st" and "rows st = xs @ ys"
  shows "verify_pages env st (Some (int (length (rows st)))) (verified_state through xs) (int (length xs))
    = Inr (finish (verified_state through (rows st)), verified_state through (rows st))"
  using assms(2)
proof (induction "length ys" arbitrary: xs ys rule: less_induct)
  case less
  let ?zs = "take 200 ys" and ?after = "int (length xs)"
  have rows: "rows st = (xs @ ?zs) @ drop 200 ys" using less.prems by simp
  have s: "sound_log env (xs @ ?zs)"
    using assms(1) rows sound_prefix by (metis log_inv_def)
  note page = page_of_sound_log [OF assms(1) less.prems, of 200]
  show ?case
  proof (cases "200 < length ys")
    case False
    then show ?thesis
      using add_page_sound [OF s, of through] rows page
      by (simp add: verify_pages.simps [of env st _ _ ?after] VERIFICATION_PAGE_SIZE_def)
  next
    case True
    then have "?zs \<noteq> []" by auto
    then obtain us z where us: "?zs = us @ [z]" by (meson rev_exhaust)
    have len: "length (xs @ us) + 1 = length (xs @ ?zs)" using us by simp
    have "sound_log env ((xs @ us) @ [z])" using s us by simp
    then have z: "ae_sequence z = int (length (xs @ ?zs))"
      unfolding sound_log_snoc using len by (simp del: length_append)
    have "verify_pages env st (Some (int (length (rows st)))) (verified_state through (xs @ ?zs))
        (int (length (xs @ ?zs))) = Inr (finish (verified_state through (rows st)), verified_state through (rows st))"
      using less.hyps [OF _ rows] True by simp
    moreover have "\<not> int (length (xs @ ?zs)) \<le> ?after" using True by simp
    ultimately show ?thesis
      using add_page_sound [OF s, of through] page True z
      by (subst verify_pages.simps) (simp add: VERIFICATION_PAGE_SIZE_def us del: length_append)
  qed
qed

lemma verify_chain_sound:
  assumes "log_inv env st"
  shows "verify_chain env st None None = Inr (Chain_valid (int (length (rows st))))"
proof (cases "rows st" rule: rev_cases)
  case Nil
  then show ?thesis
    by (simp add: verify_chain_def readChainAnchor_def ordered_anchors_inv [OF assms] new_verifier_def
        VerifySecurityAuditChainInputSchema_def Let_def finish_def verifiedAnchor_def)
next
  case (snoc us z)
  let ?n = "int (length (rows st))"
  have s: "sound_log env (us @ [z])" using assms snoc by (simp add: log_inv_def)
  then have z: "ae_sequence z = ?n" "safe_sequence (ae_sequence z)" "digest_ok (ae_entryHash z)"
    using schema_sequence [of z z] by (simp_all add: sound_log_snoc snoc)
  have anchor: "readChainAnchor st None = Inr (Some (head_of z))"
    using z by (simp add: readChainAnchor_def ordered_anchors_inv [OF assms] snoc parseChainAnchor_def)
  have new: "new_verifier None (Some ?n) = Inr (verified_state (Some ?n) [])"
    using z by (simp add: new_verifier_def VerifySecurityAuditChainInputSchema_def verified_state_def Let_def)
  have "verify_pages env st (Some ?n) (verified_state (Some ?n) []) (afterSequence (verified_state (Some ?n) []))
      = Inr (finish (verified_state (Some ?n) (rows st)), verified_state (Some ?n) (rows st))"
    using verify_pages_sound [OF assms, of "[]" "rows st" "Some ?n"]
    by (simp add: afterSequence_def verified_state_def [of _ "[]"])
  moreover have "finish (verified_state (Some ?n) (rows st)) = Chain_valid ?n"
    by (simp add: finish_def verified_state_def)
  moreover have "verifiedAnchor (verified_state (Some ?n) (rows st)) = Some (head_of z)"
    using z by (simp add: verifiedAnchor_def verified_state_def snoc head_of_def)
  ultimately show ?thesis
    using z by (simp add: verify_chain_def anchor new)
qed

section \<open>The writers keep the log sound\<close>

lemma js_space_lower [simp]: "js_space (lower_char c) = js_space c"
  by (cases c) (simp add: lower_char_bits ascii_bits js_space_bits)

lemma js_trim_lower [simp]: "js_trim (lower_case s) = lower_case (js_trim s)"
  by (simp add: js_trim_def lower_case_def dropWhile_map rev_map comp_def)

lemma hexa_lower: "hexa c \<Longrightarrow> hexa (lower_char c)"
  by (cases c) (auto simp: hexa_def hex_char_bits lower_char_bits ascii_bits)

lemma uuid_digit_lower:
  "c \<in> set ''12345678'' \<Longrightarrow> lower_char c \<in> set ''12345678''"
  "c \<in> set ''89abAB'' \<Longrightarrow> lower_char c \<in> set ''89abAB''"
  "lower_char (CHR ''-'') = CHR ''-''"
  by (auto simp: lower_char_bits ascii_bits)

lemma uuid_lower: "uuid_ok s \<Longrightarrow> uuid_ok (lower_case s)"
proof -
  assume "uuid_ok s"
  have "list_all2 (\<lambda>p c. p c) uuid_pattern (lower_case s)" if "list_all2 (\<lambda>p c. p c) uuid_pattern s"
  proof -
    have "list_all (\<lambda>p. \<forall>c. p c \<longrightarrow> p (lower_char c)) uuid_pattern"
      using hexa_lower uuid_digit_lower by (simp add: uuid_pattern_def Let_def)
    then have "p c \<Longrightarrow> p (lower_char c)" if "p \<in> set uuid_pattern" for p c
      using that by (auto simp: list_all_iff)
    then show ?thesis
      using that by (simp add: lower_case_def list.rel_map) (auto intro: list.rel_mono_strong)
  qed
  moreover have "lower_case nil_uuid = nil_uuid" "lower_case max_uuid = max_uuid"
    by code_simp+
  ultimately show ?thesis using \<open>uuid_ok s\<close> by (auto simp: uuid_ok_def)
qed

text \<open>A canonical fact: what \<open>parseSecurityAuditFact\<close> returns.\<close>

lemma entry_of_fields [simp]:
  "audit_fields_ok (entry_of (payload_of f i n q) h) = audit_fields_ok f"
  "audit_fact_consistent (entry_of (payload_of f i n q) h) = audit_fact_consistent f"
  "au_action (entry_of (payload_of f i n q) h) = au_action f"
  "au_target (entry_of (payload_of f i n q) h) = au_target f"
  "au_requestId (entry_of (payload_of f i n q) h) = au_requestId f"
  "securityAuditHashPayload (entry_of (payload_of f i n q) h) = payload_of f i n q"
  "securityAuditFactFromEntry (entry_of (payload_of f i n q) h) = securityAuditFactFromEntry f"
  by (simp_all add: audit_fields_ok_def audit_fact_consistent_def entry_of_def payload_of_def
      securityAuditHashPayload_def securityAuditFactFromEntry_def fact_of_def audit_fact.truncate_def
      cong: audit_principal.case_cong)

definition trimmed :: "audit_fact \<Rightarrow> bool" where
  "trimmed f =
     (js_trim (au_action f) = au_action f \<and> trim_principal (au_principal f) = au_principal f
      \<and> map_option (\<lambda>(k, i). (k, js_trim i)) (au_target f) = au_target f
      \<and> map_option js_trim (au_reasonCode f) = au_reasonCode f)"

lemma trim_entry_trimmed: "trimmed f \<Longrightarrow> trim_entry (entry_of (payload_of f i n q) h) = entry_of (payload_of f i n q) h"
  by (simp add: trimmed_def trim_entry_def entry_of_def payload_of_def)

lemma canonical_trimmed: "trimmed (securityAuditFactFromEntry (trim_entry e))"
proof -
  have "trim_principal (canonicalPrincipal (trim_principal p)) = canonicalPrincipal (trim_principal p)" for p
    by (cases p rule: trim_principal.cases) simp_all
  moreover have "map_option (\<lambda>(k, i). (k, js_trim i)) (canonicalTarget (map_option (\<lambda>(k, i). (k, js_trim i)) t))
      = canonicalTarget (map_option (\<lambda>(k, i). (k, js_trim i)) t)" for t
    by (cases t) auto
  ultimately show ?thesis
    by (simp add: trimmed_def securityAuditFactFromEntry_def trim_entry_def option.map_comp comp_def)
qed

lemma schema_entry_of:
  assumes "trimmed f"
  shows "SecurityAuditEntrySchema (entry_of (payload_of f i n q) h) =
    (if uuid_ok i \<and> 1 \<le> n \<and> n \<le> MAX_SAFE_INTEGER \<and> pred_option digest_ok q \<and> digest_ok h
        \<and> audit_fields_ok f \<and> (n = 1) = (q = None) \<and> audit_fact_consistent f
     then Some (entry_of (payload_of f i n q) h) else None)"
  by (simp add: SecurityAuditEntrySchema_def trim_entry_trimmed [OF assms] Let_def)

definition target_ok :: "audit_env \<Rightarrow> 'a audit_fact_scheme \<Rightarrow> bool" where
  "target_ok env f =
     (case au_target f of None \<Rightarrow> True
      | Some (k, i) \<Rightarrow> if k = Target_capability then env_registered env i \<and> i = au_action f else uuid_ok i)"

lemma target_ok_entry [simp]: "target_ok env (entry_of (payload_of f i n q) h) = target_ok env f"
  by (simp add: target_ok_def cong: option.case_cong)

lemma parse_fact_Inr:
  "parseSecurityAuditFact env f = Inr g \<longleftrightarrow>
     (\<exists>p. SecurityAuditEntrySchema (validation_entry f) = Some p \<and> env_registered env (au_action p)
        \<and> target_ok env p \<and> g = securityAuditFactFromEntry p)"
  by (auto simp: parseSecurityAuditFact_def validation_entry_def target_ok_def split: option.splits if_splits)

lemma target_ok_canonical: "target_ok env p \<Longrightarrow> target_ok env (securityAuditFactFromEntry p)"
  by (auto simp: target_ok_def securityAuditFactFromEntry_def uuid_lower split: option.splits prod.splits if_splits)

lemma parse_fact_facts:
  assumes "parseSecurityAuditFact env f = Inr g"
  shows "trimmed g" and "env_registered env (au_action g)" and "target_ok env g"
    and "securityAuditFactFromEntry g = g"
proof -
  obtain p where p: "SecurityAuditEntrySchema (validation_entry f) = Some p" "env_registered env (au_action p)"
    "target_ok env p" "g = securityAuditFactFromEntry p"
    using assms by (auto simp: parse_fact_Inr)
  have "p = trim_entry p" using p(1) by (auto simp: SecurityAuditEntrySchema_def Let_def split: if_splits)
  then show "trimmed g" using p(4) canonical_trimmed [of p] by simp
  show "env_registered env (au_action g)" using p by (simp add: securityAuditFactFromEntry_def)
  show "target_ok env g" using p target_ok_canonical by simp
  show "securityAuditFactFromEntry g = g" using p(4) by simp
qed

lemma digest_zeros: "digest_ok (replicate 64 (CHR ''0''))"
  using zero_digest_ok by (simp add: zero_digest_def)

lemma reparse_fact:
  assumes "parseSecurityAuditFact env f = Inr g" and "audit_fields_ok g" and "audit_fact_consistent g"
  shows "parseSecurityAuditFact env g = Inr g"
proof -
  note facts = parse_fact_facts [OF assms(1)]
  have "uuid_ok VALIDATION_ENTRY_ID" by (simp add: VALIDATION_ENTRY_ID_def) code_simp
  then have "SecurityAuditEntrySchema (validation_entry g) = Some (validation_entry g)"
    using assms(2,3) digest_zeros
    by (simp add: validation_entry_def schema_entry_of [OF facts(1)] MAX_SAFE_INTEGER_def)
  moreover have "target_ok env (validation_entry g)"
    using facts(3) by (simp add: validation_entry_def)
  ultimately show ?thesis
    using facts by (auto simp: parse_fact_Inr) (simp_all add: validation_entry_def)
qed

lemma build_entry_facts:
  assumes "parseSecurityAuditFact env f = Inr g" and "buildSecurityAuditEntry env i f prev = Inr e"
  shows "SecurityAuditEntrySchema e = Some e"
    and "env_hash env (securityAuditHashPayload e) = ae_entryHash e"
    and "is_ok (parseSecurityAuditFact env (securityAuditFactFromEntry e))"
    and "securityAuditFactFromEntry e = g" and "au_requestId e = au_requestId g"
proof -
  define q where "q = payload_of g (lower_case i) ((case prev of None \<Rightarrow> 0 | Some (n, _) \<Rightarrow> n) + 1) (map_option snd prev)"
  have e: "SecurityAuditEntrySchema (entry_of q (env_hash env q)) = Some e"
    using assms by (auto simp: buildSecurityAuditEntry_def q_def Let_def split: if_splits option.splits)
  note facts = parse_fact_facts [OF assms(1)]
  have eq: "e = entry_of q (env_hash env q)" and ok: "audit_fields_ok g" "audit_fact_consistent g"
    using e by (auto simp: q_def schema_entry_of [OF facts(1)] split: if_splits)
  show "SecurityAuditEntrySchema e = Some e" using schema_idem [OF e] .
  show "env_hash env (securityAuditHashPayload e) = ae_entryHash e"
    and same: "securityAuditFactFromEntry e = g" and "au_requestId e = au_requestId g"
    by (simp_all add: eq q_def facts(4))
  show "is_ok (parseSecurityAuditFact env (securityAuditFactFromEntry e))"
    using reparse_fact [OF assms(1) ok] by (simp add: same)
qed

lemma insert_row_inv:
  assumes "log_inv env st" and "insert_row references e st = (Inr u, st')"
    and "SecurityAuditEntrySchema e = Some e" and "env_hash env (securityAuditHashPayload e) = ae_entryHash e"
    and "is_ok (parseSecurityAuditFact env (securityAuditFactFromEntry e))"
  shows "log_inv env st'" and "rows st' = rows st @ [e]"
proof -
  have new: "ae_id e \<notin> ae_id ` set (rows st)" "ae_entryHash e \<notin> ae_entryHash ` set (rows st)"
    "au_requestId e \<notin> au_requestId ` set (rows st)" "ae_sequence e \<le> 2147483647"
    and after: "case last_option (ordered_anchors st) of
        None \<Rightarrow> ae_sequence e = 1 \<and> ae_previousHash e = None
      | Some (n, h) \<Rightarrow> ae_sequence e = n + 1 \<and> ae_previousHash e = Some h"
    and st': "rows st' = rows st @ [e]" "anchors st' = anchors st @ [head_of e]"
    using assms(2) by (auto simp: insert_row_def refused_by_table_def extends_last_anchor_def head_of_def split: if_splits option.splits)
  have sound: "sound_log env (rows st)" using assms(1) by (simp add: log_inv_def)
  have "ae_sequence e = int (length (rows st)) + 1
      \<and> ae_previousHash e = map_option ae_entryHash (last_option (rows st))"
  proof (cases "rows st" rule: rev_cases)
    case Nil
    then show ?thesis using after by (simp add: ordered_anchors_inv [OF assms(1)])
  next
    case (snoc us z)
    then show ?thesis
      using after sound by (simp add: ordered_anchors_inv [OF assms(1)] sound_log_snoc head_of_def)
  qed
  then have "sound_log env (rows st @ [e])"
    using sound new assms(3-5) by (intro sound_log.append) simp_all
  then show "log_inv env st'"
    using assms(1) st' new(4) \<open>ae_sequence e = _ \<and> _\<close> by (simp add: log_inv_def)
  show "rows st' = rows st @ [e]" by (rule st'(1))
qed

text \<open>
  Entries that the uuid columns do not change. The built ones are such; an entry that is hashed as
  it was given is one when its fact is in the form in which the table gives it back: the parser of
  \<open>model.ts\<close> takes it, its texts are trimmed and its uuid columns in lower case.
\<close>

lemma fields_canonical: "audit_fields_ok f \<Longrightarrow> audit_fields_ok (securityAuditFactFromEntry f)"
proof -
  assume ok: "audit_fields_ok f"
  have "principal_ok (canonicalPrincipal p)" if "principal_ok p" for p
  proof (cases p)
    case (Actor_principal a)
    then show ?thesis using that by (cases a) (auto simp: uuid_lower)
  qed (use that in simp)
  moreover have "length (lower_case s) = length s" for s by (simp add: lower_case_def)
  then have "pred_option (\<lambda>(_, i). 1 \<le> length i \<and> length i \<le> 255) (canonicalTarget t)"
    if "pred_option (\<lambda>(_, i). 1 \<le> length i \<and> length i \<le> 255) t" for t
    using that by (cases t rule: canonicalTarget.cases) auto
  moreover have "pred_option uuid_ok (map_option lower_case x)" if "pred_option uuid_ok x" for x
    using that by (cases x) (auto simp: uuid_lower)
  ultimately show ?thesis
    using ok by (simp add: audit_fields_ok_def securityAuditFactFromEntry_def uuid_lower)
qed

lemma consistent_canonical: "audit_fact_consistent f \<Longrightarrow> audit_fact_consistent (securityAuditFactFromEntry f)"
proof -
  have "actor_kind (canonical_actor a) = actor_kind a" for a by (cases a) simp_all
  moreover have "isActorSourceCompatible (canonical_actor a) s = isActorSourceCompatible a s" for a s
    by (cases a) (simp_all add: isActorSourceCompatible_def)
  ultimately show "audit_fact_consistent f \<Longrightarrow> audit_fact_consistent (securityAuditFactFromEntry f)"
    by (cases "au_principal f") (auto simp: audit_fact_consistent_def securityAuditFactFromEntry_def)
qed

definition stored_as_written :: "audit_env \<Rightarrow> audit_fact \<Rightarrow> bool" where
  "stored_as_written env f =
     (is_ok (parseSecurityAuditFact env f) \<and> trimmed f
      \<and> map_option lower_case (au_confirmationId f) = au_confirmationId f
      \<and> map_option lower_case (au_facilityId f) = au_facilityId f
      \<and> lower_case (au_requestId f) = au_requestId f)"

definition settled_entry :: "audit_env \<Rightarrow> audit_entry \<Rightarrow> bool" where
  "settled_entry env e =
     (uuid_columns e = e \<and> SecurityAuditEntrySchema e = Some e
      \<and> env_hash env (securityAuditHashPayload e) = ae_entryHash e
      \<and> is_ok (parseSecurityAuditFact env (securityAuditFactFromEntry e)))"

lemma columns_of_parts:
  "uuid_columns (entry_of (payload_of f i n q) h) = entry_of (payload_of f i n q) h
     \<longleftrightarrow> lower_case i = i \<and> map_option lower_case (au_confirmationId f) = au_confirmationId f
       \<and> map_option lower_case (au_facilityId f) = au_facilityId f \<and> lower_case (au_requestId f) = au_requestId f"
  by (auto simp: uuid_columns_def entry_of_def payload_of_def)

lemma canonical_columns:
  assumes "securityAuditFactFromEntry g = (g :: audit_fact)"
  shows "map_option lower_case (au_confirmationId g) = au_confirmationId g"
    and "map_option lower_case (au_facilityId g) = au_facilityId g" and "lower_case (au_requestId g) = au_requestId g"
  using arg_cong [OF assms, of au_confirmationId] arg_cong [OF assms, of au_facilityId]
    arg_cong [OF assms, of au_requestId]
  by (simp_all add: securityAuditFactFromEntry_def)

lemma built_settled:
  assumes "buildSecurityAuditEntry env i f prev = Inr e"
  shows "settled_entry env e"
proof -
  obtain g where g: "parseSecurityAuditFact env f = Inr g"
    using assms by (auto simp: buildSecurityAuditEntry_def bindR_Inr_iff)
  note facts = parse_fact_facts [OF g]
  obtain n q h where "SecurityAuditEntrySchema (entry_of (payload_of g (lower_case i) n q) h) = Some e"
    using assms g by (auto simp: buildSecurityAuditEntry_def Let_def split: if_splits option.splits)
  then have "e = entry_of (payload_of g (lower_case i) n q) h"
    by (auto simp: schema_entry_of [OF facts(1)] split: if_splits)
  then have "uuid_columns e = e"
    using canonical_columns [OF facts(4)] by (simp add: columns_of_parts)
  then show ?thesis using build_entry_facts [OF g assms] by (simp add: settled_entry_def)
qed

lemma direct_settled:
  assumes "direct_entry env f i prev = Inr e" and "stored_as_written env f" and "lower_case i = i"
  shows "settled_entry env e"
proof -
  define p where "p = payload_of f i ((case prev of None \<Rightarrow> 0 | Some (n, _) \<Rightarrow> n) + 1) (map_option snd prev)"
  have trim: "trimmed f" using assms(2) by (simp add: stored_as_written_def)
  have schema: "SecurityAuditEntrySchema (entry_of p (env_hash env p)) = Some e"
    using assms(1) by (auto simp: direct_entry_def p_def Let_def split: option.splits)
  then have e: "e = entry_of p (env_hash env p)" and ok: "audit_fields_ok f" "audit_fact_consistent f"
    by (auto simp: p_def schema_entry_of [OF trim] split: if_splits)
  obtain g where g: "parseSecurityAuditFact env f = Inr g"
    using assms(2) by (cases "parseSecurityAuditFact env f") (auto simp: stored_as_written_def)
  then obtain v where "SecurityAuditEntrySchema (validation_entry f) = Some v" "g = securityAuditFactFromEntry v"
    by (auto simp: parse_fact_Inr)
  then have same: "g = securityAuditFactFromEntry f"
    by (auto simp: validation_entry_def schema_entry_of [OF trim] split: if_splits)
  have "parseSecurityAuditFact env g = Inr g"
    using reparse_fact [OF g] fields_canonical [OF ok(1)] consistent_canonical [OF ok(2)] by (simp add: same)
  then have "is_ok (parseSecurityAuditFact env (securityAuditFactFromEntry e))"
    by (simp add: e p_def same)
  moreover have "uuid_columns e = e"
    using assms(2,3) by (simp add: e p_def columns_of_parts stored_as_written_def)
  ultimately show ?thesis using schema_idem [OF schema] by (simp add: settled_entry_def e p_def)
qed

text \<open>What binding a request does to the tables.\<close>

lemma bind_request_inv: "keeps (log_inv env) (bind_request references gen env read g anchor)"
proof (rule keepsI)
  fix st r st'
  assume inv: "log_inv env st" and run: "bind_request references gen env read g anchor st = (r, st')"
  show "log_inv env st'"
  proof (cases "find (\<lambda>r. au_requestId r = au_requestId g) (rows st)")
    case (Some row)
    then show ?thesis using inv run by (simp add: bind_request_def)
  next
    case None
    let ?st = "st\<lparr>idsDrawn := Suc (idsDrawn st)\<rparr>"
    have inv1: "log_inv env ?st" using inv by (simp add: log_inv_def)
    show ?thesis
    proof (cases "buildSecurityAuditEntry env (gen (idsDrawn st)) g anchor")
      case (Inl x)
      then show ?thesis using None inv run by (simp add: bind_request_def)
    next
      case (Inr e)
      then obtain g' where "parseSecurityAuditFact env g = Inr g'"
        by (auto simp: buildSecurityAuditEntry_def bindR_Inr_iff)
      note built = build_entry_facts [OF this Inr]
      obtain x st2 where ins: "insert_row references e ?st = (x, st2)"
        by (cases "insert_row references e ?st")
      then have "st' = st2" using None Inr run by (cases x) (simp_all add: bind_request_def)
      moreover have "log_inv env st2"
      proof (cases x)
        case (Inl y)
        then show ?thesis using ins inv1 by (auto simp: insert_row_def refused_by_table_def extends_last_anchor_def split: if_splits)
      next
        case (Inr u)
        then show ?thesis using insert_row_inv(1) [OF inv1] ins built by blast
      qed
      ultimately show ?thesis by simp
    qed
  qed
qed

lemma keeps_if: "keeps P m \<Longrightarrow> keeps P n \<Longrightarrow> keeps P (if b then m else n)"
  by simp

lemma keeps_under_state: "(\<And>st. keeps P (m st)) \<Longrightarrow> keeps P (\<lambda>st. m st st)"
  by (auto simp: keeps_def)

lemma keeps_parsed:
  assumes "\<And>g. parseSecurityAuditFact env f = Inr g \<Longrightarrow> keeps P (m g)"
  shows "keeps P (bindC (liftR (parseSecurityAuditFact env f)) m)"
  using assms by (cases "parseSecurityAuditFact env f") (auto simp: keeps_def bindC_def liftR_def)

lemma keeps_shared: "keeps (log_inv env) (appendSharedCapabilityAuditEntry references gen env f)"
  unfolding appendSharedCapabilityAuditEntry_def
  by (rule keeps_parsed, rule keeps_under_state) (intro keeps_bindC bind_request_inv keeps_retC)

lemma keeps_repository: "keeps (log_inv env) (repository_append references gen env f)"
  unfolding repository_append_def
  by (rule keeps_parsed, rule keeps_transactionC, rule keeps_under_state)
     (auto intro!: keeps_bindC bind_request_inv split: option.split)

lemma keeps_session: "keeps (log_inv env) (session_append references gen env f)"
  unfolding session_append_def
  unfolding Let_def
  by (rule keeps_parsed, rule keeps_if, rule keeps_throwC, rule keeps_under_state)
     (intro keeps_bindC keeps_liftR keeps_if keeps_throwC bind_request_inv)

lemma keeps_verify: "keeps (log_inv env) (verify_audit references gen env policy c firstSeq through)"
proof -
  have "keeps (log_inv env) (append_verification references gen env d found)" for d found
    unfolding append_verification_def by (intro keeps_bindC keeps_liftR keeps_session)
  then have recorded: "keeps (log_inv env) (record_verification references gen env d found)" for d found
    unfolding record_verification_def
    by (intro keeps_catchC keeps_bindC keeps_retC) (auto split: audit_error.split verification.split)
  have authorize: "keeps (log_inv env) (authorize_verification references gen env policy c)"
    unfolding authorize_verification_def
    by (intro keeps_bindC keeps_liftR keeps_if keeps_retC keeps_throwC keeps_repository)
  have "keeps (log_inv env) (\<lambda>st. bindC (liftR (verify_chain env st firstSeq through))
      (record_verification references gen env d) st)" for d
    by (rule keeps_under_state) (intro keeps_bindC keeps_liftR recorded)
  then show ?thesis
    unfolding verify_audit_def
    by (intro keeps_if keeps_throwC keeps_bindC keeps_catchC keeps_transactionC keeps_liftR
        keeps_repository authorize)
qed

lemma insert_row_keeps: "settled_entry env e \<Longrightarrow> keeps (log_inv env) (insert_row references e)"
proof (rule keepsI)
  fix st x st'
  assume e: "settled_entry env e" and inv: "log_inv env st" and ins: "insert_row references e st = (x, st')"
  show "log_inv env st'"
  proof (cases x)
    case (Inl y)
    then have "st' = st" using ins by (auto simp: insert_row_def split: if_splits)
    then show ?thesis using inv by simp
  next
    case (Inr u)
    then show ?thesis using insert_row_inv(1) [OF inv] ins e by (simp add: settled_entry_def)
  qed
qed

lemma drawn_inv [simp]: "log_inv env (st\<lparr>idsDrawn := n\<rparr>) = log_inv env st"
  by (simp add: log_inv_def)

lemma append_entry_keeps:
  assumes "\<And>i prev e. lower_case i = i \<Longrightarrow> build i prev = Inr e \<Longrightarrow> settled_entry env e"
  shows "keeps (log_inv env) (append_entry references gen build)"
proof (rule keepsI)
  fix st x st'
  assume inv: "log_inv env st" and run: "append_entry references gen build st = (x, st')"
  show "log_inv env st'"
  proof (cases "build (lower_case (gen (idsDrawn st))) (last_head st)")
    case (Inl y)
    then show ?thesis using inv run by (simp add: append_entry_def)
  next
    case (Inr e)
    have e: "settled_entry env e" using assms [OF _ Inr] by simp
    then have columns: "uuid_columns e = e" by (simp add: settled_entry_def)
    obtain y u where ins: "insert_row references e (st\<lparr>idsDrawn := Suc (idsDrawn st)\<rparr>) = (y, u)" by fastforce
    have "log_inv env u" using keepsD [OF insert_row_keeps [OF e] _ ins] inv by simp
    moreover have "st' = u" using run Inr ins columns by (cases y) (simp_all add: append_entry_def)
    ultimately show ?thesis by simp
  qed
qed

lemma keeps_direct:
  assumes "stored_as_written env (capability_fact event)"
  shows "keeps (log_inv env) (direct_append references gen env event)"
  unfolding direct_append_def by (rule append_entry_keeps) (rule direct_settled [OF _ assms])

lemma keeps_gate:
  assumes "stored_as_written env (access_gate_fact event)"
  shows "keeps (log_inv env) (gate_append references gen env event)"
  unfolding gate_append_def
  by (rule append_entry_keeps)
     (auto simp: buildAccessGateAuditEntry_def split: if_splits intro: direct_settled [OF _ assms])

lemma keeps_built: "keeps (log_inv env) (built_append references gen env f)"
  unfolding built_append_def
  by (intro keeps_bindC keeps_liftR append_entry_keeps built_settled)

lemma keeps_admin: "keeps (log_inv env) (admin_append references gen env event target)"
proof (rule keepsI)
  fix st x st'
  assume inv: "log_inv env st" and run: "admin_append references gen env event target st = (x, st')"
  consider "st' = st" | (inserted) e and i and f :: audit_fact and prev where
      "buildSecurityAuditEntry env i f prev = Inr e"
      "insert_row references e (st\<lparr>idsDrawn := Suc (idsDrawn st)\<rparr>) = (x, st')"
    using run by (simp add: admin_append_def Let_def split: if_splits sum.splits)
  then show "log_inv env st'"
  proof cases
    case inserted
    then show ?thesis using keepsD [OF insert_row_keeps [OF built_settled [OF inserted(1)]] _ inserted(2)] inv by simp
  qed (use inv in simp)
qed

section \<open>Reachable logs\<close>

text \<open>
  Every writer of the table takes a step. The writers that hash an event as it was given to them
  step for events that the table gives back as they were written.
\<close>

inductive audit_reach ::
  "(audit_entry \<Rightarrow> bool) \<Rightarrow> (nat \<Rightarrow> uuid) \<Rightarrow> audit_env \<Rightarrow> audit_tables \<Rightarrow> bool"
  for references gen env where
  start: "audit_reach references gen env empty_log"
| shared: "audit_reach references gen env st \<Longrightarrow>
    appendSharedCapabilityAuditEntry references gen env event st = (u, st') \<Longrightarrow>
    audit_reach references gen env st'"
| appended: "audit_reach references gen env st \<Longrightarrow>
    repository_append references gen env (f :: audit_fact) st = (r, st') \<Longrightarrow> audit_reach references gen env st'"
| verified: "audit_reach references gen env st \<Longrightarrow>
    verify_audit references gen env policy c firstSeq through st = (v, st') \<Longrightarrow> audit_reach references gen env st'"
| direct: "audit_reach references gen env st \<Longrightarrow> stored_as_written env (capability_fact event) \<Longrightarrow>
    direct_append references gen env event st = (r, st') \<Longrightarrow> audit_reach references gen env st'"
| signed_in: "audit_reach references gen env st \<Longrightarrow> stored_as_written env (access_gate_fact gate) \<Longrightarrow>
    gate_append references gen env gate st = (r, st') \<Longrightarrow> audit_reach references gen env st'"
| built: "audit_reach references gen env st \<Longrightarrow>
    built_append references gen env f st = (r, st') \<Longrightarrow> audit_reach references gen env st'"
| started: "audit_reach references gen env st \<Longrightarrow>
    start_append references gen env event st = (r, st') \<Longrightarrow> audit_reach references gen env st'"
| administered: "audit_reach references gen env st \<Longrightarrow>
    admin_append references gen env event target st = (u, st') \<Longrightarrow> audit_reach references gen env st'"

lemma audit_reach_inv: "audit_reach references gen env st \<Longrightarrow> log_inv env st"
proof (induction rule: audit_reach.induct)
  case start
  then show ?case by (simp add: log_inv_def empty_log_def)
next
  case (shared st event u st')
  then show ?case using keepsD [OF keeps_shared] by blast
next
  case (appended st f r st')
  then show ?case using keepsD [OF keeps_repository] by blast
next
  case (verified st policy c firstSeq through v st')
  then show ?case using keepsD [OF keeps_verify] by blast
next
  case (direct st event r st')
  then show ?case using keepsD [OF keeps_direct] by blast
next
  case (signed_in st gate r st')
  then show ?case using keepsD [OF keeps_gate] by blast
next
  case (built st f r st')
  then show ?case using keepsD [OF keeps_built] by blast
next
  case (started st event r st')
  then show ?case using keepsD [OF keeps_built] unfolding start_append_def by blast
next
  case (administered st event target u st')
  then show ?case using keepsD [OF keeps_admin] by blast
qed

text \<open>C16: the log that the writers build is accepted. In every state that the
  writers of the table (the shared one, the repository, the verification capability, the stores that
  hash an event as it is given to them, the sign-in audit, the start store and the administration)
  can reach, in any order and with any failures, the scan of the whole chain, page by page and
  against the anchors, finds it valid through its last entry. The premise is on the events of the
  writers that hash what they are given, and it is a condition of a step of theirs: the parser of
  the audit model takes the event, its texts are trimmed, and its confirmation, facility and request
  identifiers are in lower case, as the columns return them. \<open>direct_writer_breaks_chain\<close> shows what
  happens without it.\<close>

theorem audit_log_verifies:
  "audit_reach references gen env st
     \<Longrightarrow> verify_chain env st None None = Inr (Chain_valid (int (length (rows st))))"
  by (rule verify_chain_sound [OF audit_reach_inv])

end
