(* ===== verification/Audit_Evidence.thy ===== *)
theory Audit_Evidence
  imports Audit_Chain
begin

text \<open>
  What an accepted audit log proves when the table of entries may have been changed behind the
  application while the anchors are intact, and why the verification of any table returns.
\<close>

section \<open>What an accepted page shows\<close>

definition intact_row :: "audit_env \<Rightarrow> audit_entry list \<Rightarrow> chain_anchor \<Rightarrow> bool" where
  "intact_row env rs a =
     (\<exists>r \<in> set rs. \<exists>e. SecurityAuditEntrySchema r = Some e \<and> ae_sequence e = fst a
        \<and> ae_entryHash e = snd a \<and> env_hash env (securityAuditHashPayload e) = ae_entryHash e)"

lemma add_row_accepts:
  assumes "add_row env r v = (None, v')"
  shows "\<exists>e. SecurityAuditEntrySchema r = Some e
    \<and> env_hash env (securityAuditHashPayload e) = ae_entryHash e"
  using assms by (auto simp: add_row_def fail_with_def split: if_splits option.splits)

lemma add_rows_accept:
  "add_rows env rs v = (None, v') \<Longrightarrow> r \<in> set rs \<Longrightarrow>
     \<exists>e. SecurityAuditEntrySchema r = Some e \<and> env_hash env (securityAuditHashPayload e) = ae_entryHash e"
  using add_row_accepts by (induction rs arbitrary: v) (auto split: prod.splits option.splits)

lemma schema_keeps_keys:
  "SecurityAuditEntrySchema r = Some e \<Longrightarrow> ae_sequence e = ae_sequence r \<and> ae_entryHash e = ae_entryHash r"
  by (auto simp: SecurityAuditEntrySchema_def trim_entry_def Let_def split: if_splits)

lemma scan_matches:
  "scan_anchors rs as n m seen = (None, out) \<Longrightarrow>
     m = None \<and> set seen \<subseteq> set out
     \<and> (\<forall>a \<in> set as. \<exists>r \<in> set out. row_at rs (fst a) = Some r \<and> ae_entryHash r = snd a)"
proof (induction as arbitrary: n m seen)
  case (Cons a as)
  then show ?case
    by (fastforce simp: Let_def split: option.splits if_splits)
qed simp

lemma row_atD: "row_at rs n = Some r \<Longrightarrow> r \<in> set rs \<and> ae_sequence r = n"
  using last_in_set [of "filter (\<lambda>r. ae_sequence r = n) rs"]
  by (auto simp: row_at_def last_option_def split: if_splits)

lemma page_intact:
  assumes "readChainPage st after through limit = Inr pg" and "pg_mismatch pg = None"
    and "add_page env (pg_entries pg) v = (None, v')" and "a \<in> set (visible_anchors st after through limit)"
  shows "intact_row env (rows st) a"
proof -
  let ?rs = "filter (\<lambda>r. ae_sequence r \<in> fst ` set (visible_anchors st after through limit)) (ordered_rows st)"
  obtain r where r: "r \<in> set (pg_entries pg)" "row_at ?rs (fst a) = Some r" "ae_entryHash r = snd a"
    using scan_matches page_facts(3) [OF assms(1)] assms(2,4) by metis
  have "add_rows env (pg_entries pg) v = (None, v')" using assms(3) by (auto simp: add_page_def split: if_splits)
  from add_rows_accept [OF this r(1)] obtain e where e: "SecurityAuditEntrySchema r = Some e"
    "env_hash env (securityAuditHashPayload e) = ae_entryHash e" by blast
  have "r \<in> set (rows st)" "ae_sequence r = fst a"
    using row_atD [OF r(2)] by (auto simp: ordered_rows_def)
  then show ?thesis
    unfolding intact_row_def using e r(3) schema_keeps_keys [OF e(1)] by metis
qed

section \<open>The scan of all pages\<close>

definition anchors_ok :: "audit_tables \<Rightarrow> bool" where
  "anchors_ok st =
     (distinct (map fst (anchors st)) \<and> (\<forall>a \<in> set (anchors st). safe_sequence (fst a) \<and> digest_ok (snd a)))"

lemma anchors_in_ascending:
  assumes "anchors_ok st"
  shows "sorted_wrt (\<lambda>a b. fst a < fst b) (anchors_in st after through)"
proof -
  have "sorted (map fst (ordered_anchors st))" by (simp add: ordered_anchors_def)
  moreover have "distinct (map fst (ordered_anchors st))"
    using assms by (simp add: anchors_ok_def ordered_anchors_def distinct_map distinct_sort)
  ultimately have "sorted_wrt (<) (map fst (ordered_anchors st))" by (simp add: strict_sorted_iff)
  then show ?thesis by (simp add: anchors_in_def sorted_wrt_map sorted_wrt_filter)
qed

lemma later_anchors:
  assumes "anchors_ok st" and "last_option (visible_anchors st after through limit) = Some z"
    and "a \<in> set (anchors_in st after through)"
  shows "a \<in> set (visible_anchors st after through limit) \<or> a \<in> set (anchors_in st (fst z) through)"
proof -
  let ?as = "anchors_in st after through"
  have z: "z \<in> set (take limit ?as)"
    using assms(2) by (auto simp: visible_anchors_def last_option_def split: if_splits dest: last_in_set)
  have "sorted_wrt (\<lambda>a b. fst a < fst b) (take limit ?as @ drop limit ?as)"
    using anchors_in_ascending [OF assms(1)] by simp
  then have "fst z < fst b" if "b \<in> set (drop limit ?as)" for b
    using that z unfolding sorted_wrt_append by blast
  moreover have "a \<in> set (take limit ?as) \<or> a \<in> set (drop limit ?as)"
    using assms(3) by (metis append_take_drop_id in_set_conv_decomp set_append Un_iff)
  ultimately have "a \<in> set (take limit ?as) \<or> fst z < fst a" by blast
  then show ?thesis using assms(3) by (auto simp: visible_anchors_def anchors_in_def)
qed

lemma add_rows_failure:
  "add_rows env rs v = (Some f, v') \<Longrightarrow> \<exists>n. f = Chain_invalid n"
  "add_rows env rs v = (None, v') \<Longrightarrow> vf_failure v' = vf_failure v"
  by (induction rs arbitrary: v)
     (fastforce simp: add_row_def fail_with_def split: if_splits option.splits prod.splits)+

lemma verify_pages_validE:
  assumes "verify_pages env st through v after = Inr (Chain_valid n, v')" and "vf_failure v = None"
  obtains pg v2 where "readChainPage st after through VERIFICATION_PAGE_SIZE = Inr pg"
    "pg_mismatch pg = None" "add_page env (pg_entries pg) v = (None, v2)" "vf_failure v2 = None"
    "\<not> pg_more pg \<and> finish v2 = Chain_valid n \<and> v' = v2
     \<or> (pg_more pg \<and> (\<exists>l. pg_last pg = Some l \<and> \<not> l \<le> after
          \<and> verify_pages env st through v2 l = Inr (Chain_valid n, v')))"
proof -
  note run = assms(1) [unfolded verify_pages.simps [of env st through v after]]
  obtain pg where pg: "readChainPage st after through VERIFICATION_PAGE_SIZE = Inr pg"
    using run by (cases "readChainPage st after through VERIFICATION_PAGE_SIZE") simp_all
  have ok: "pg_mismatch pg = None" using run pg by (cases "pg_mismatch pg") simp_all
  obtain f v2 where add: "add_rows env (pg_entries pg) v = (f, v2)" by (cases "add_rows env (pg_entries pg) v")
  then have page: "add_page env (pg_entries pg) v = (f, v2)" using assms(2) by (simp add: add_page_def)
  have f: "f = None"
    using add_rows_failure(1) [of env "pg_entries pg" v _ v2] add run by (cases f) (auto simp: pg ok page)
  have v2: "vf_failure v2 = None" using add_rows_failure(2) [of env "pg_entries pg" v v2] add f assms(2) by simp
  show ?thesis
  proof (rule that [OF pg ok _ v2])
    show "add_page env (pg_entries pg) v = (None, v2)" using page f by simp
    show "\<not> pg_more pg \<and> finish v2 = Chain_valid n \<and> v' = v2
     \<or> (pg_more pg \<and> (\<exists>l. pg_last pg = Some l \<and> \<not> l \<le> after
          \<and> verify_pages env st through v2 l = Inr (Chain_valid n, v')))"
      using run by (auto simp: pg ok page f split: if_splits option.splits)
  qed
qed

lemma verify_pages_intact:
  assumes "anchors_ok st"
  shows "verify_pages env st through v after = Inr (Chain_valid n, v') \<Longrightarrow> vf_failure v = None
     \<Longrightarrow> (\<forall>a \<in> set (anchors_in st after through). intact_row env (rows st) a)
       \<and> (\<exists>v2. vf_failure v2 = None \<and> finish v2 = Chain_valid n \<and> v' = v2)"
proof (induction "length (filter (\<lambda>a. fst a > after) (anchors st))" arbitrary: v after rule: less_induct)
  case less
  from less.prems obtain pg v2 where pg: "readChainPage st after through VERIFICATION_PAGE_SIZE = Inr pg"
    "pg_mismatch pg = None" "add_page env (pg_entries pg) v = (None, v2)" "vf_failure v2 = None"
    and next_step: "\<not> pg_more pg \<and> finish v2 = Chain_valid n \<and> v' = v2
     \<or> (pg_more pg \<and> (\<exists>l. pg_last pg = Some l \<and> \<not> l \<le> after
          \<and> verify_pages env st through v2 l = Inr (Chain_valid n, v')))"
    by (rule verify_pages_validE)
  note shown = page_intact [OF pg(1-3)]
  show ?case
  proof (cases "pg_more pg")
    case False
    then have "visible_anchors st after through VERIFICATION_PAGE_SIZE = anchors_in st after through"
      using page_facts(2) [OF pg(1)] by (simp add: visible_anchors_def)
    then show ?thesis using shown next_step False pg(4) by auto
  next
    case True
    then obtain l where l: "pg_last pg = Some l" "\<not> l \<le> after"
      "verify_pages env st through v2 l = Inr (Chain_valid n, v')" using next_step by blast
    then obtain z where z: "last_option (visible_anchors st after through VERIFICATION_PAGE_SIZE) = Some z" "fst z = l"
      using page_facts(1) [OF pg(1)] by auto
    obtain a where "a \<in> set (anchors st)" "fst a = l" using page_last [OF pg(1) l(1)] by auto
    then have "length (filter (\<lambda>a. fst a > l) (anchors st)) < length (filter (\<lambda>a. fst a > after) (anchors st))"
      using fewer_after l(2) by blast
    from less.hyps [OF this l(3) pg(4)]
    have rest: "\<forall>a \<in> set (anchors_in st l through). intact_row env (rows st) a"
      and end_state: "\<exists>v2. vf_failure v2 = None \<and> finish v2 = Chain_valid n \<and> v' = v2" by blast+
    have "intact_row env (rows st) a" if "a \<in> set (anchors_in st after through)" for a
      using later_anchors [OF assms z(1) that] shown rest z(2) by blast
    then show ?thesis using end_state by blast
  qed
qed

section \<open>Tampering is detected\<close>

lemma log_anchors_ok: "log_inv env st \<Longrightarrow> anchors_ok st"
proof -
  assume inv: "log_inv env st"
  then have s: "sound_log env (rows st)" by (simp add: log_inv_def)
  have "distinct (map fst (anchors st))" using sound_distinct [OF s] inv by (simp add: log_inv_def comp_def)
  moreover have "safe_sequence (fst a) \<and> digest_ok (snd a)" if "a \<in> set (anchors st)" for a
    using that inv sound_member [OF s] schema_sequence by (fastforce simp: log_inv_def)
  ultimately show ?thesis by (simp add: anchors_ok_def)
qed

lemma entry_from_payload: "e = entry_of (securityAuditHashPayload e) (ae_entryHash e)"
  by (simp add: entry_of_def securityAuditHashPayload_def payload_of_def)

lemma changed_rows [simp]:
  "ordered_anchors (st\<lparr>rows := rs\<rparr>) = ordered_anchors st"
  "anchors_in (st\<lparr>rows := rs\<rparr>) after through = anchors_in st after through"
  "readChainAnchor (st\<lparr>rows := rs\<rparr>) through = readChainAnchor st through"
  "anchors_ok (st\<lparr>rows := rs\<rparr>) = anchors_ok st"
  by (simp_all add: ordered_anchors_def anchors_in_def readChainAnchor_def anchors_ok_def)

text \<open>What a valid verdict on changed rows says about the last anchor and about every anchor.\<close>

lemma valid_verdict:
  assumes inv: "log_inv env st" and rows: "rows st = us @ [z]"
    and run: "verify_chain env (st\<lparr>rows := rs\<rparr>) None None = Inr (Chain_valid n)"
  shows "n = int (length (rows st))" and "\<forall>a \<in> set (anchors st). intact_row env rs a"
proof -
  let ?st = "st\<lparr>rows := rs\<rparr>" and ?n = "int (length (rows st))"
  have s: "sound_log env (us @ [z])" using inv rows by (simp add: log_inv_def)
  then have z: "ae_sequence z = ?n" "safe_sequence (ae_sequence z)" "digest_ok (ae_entryHash z)"
    using schema_sequence [of z z] by (simp_all add: sound_log_snoc rows)
  have anchor: "readChainAnchor st None = Inr (Some (head_of z))"
    using z by (simp add: readChainAnchor_def ordered_anchors_inv [OF inv] rows parseChainAnchor_def)
  have new: "new_verifier None (Some ?n) = Inr (verified_state (Some ?n) [])"
    using z by (simp add: new_verifier_def VerifySecurityAuditChainInputSchema_def verified_state_def Let_def)
  have after: "afterSequence (verified_state (Some ?n) []) = int (length ([] :: audit_entry list))"
    by (simp add: afterSequence_def verified_state_def)
  obtain v' where pages: "verify_pages env ?st (Some ?n) (verified_state (Some ?n) []) (int (length ([] :: audit_entry list)))
      = Inr (Chain_valid n, v')" and last: "verifiedAnchor v' = Some (head_of z)"
    using run z(1)
    by (auto simp: verify_chain_def anchor new Let_def bindR_Inr_iff after split: verification.splits if_splits)
       (metis verification.exhaust)
  have "vf_failure (verified_state (Some ?n) []) = None" by (simp add: verified_state_def)
  from verify_pages_intact [OF _ pages this] log_anchors_ok [OF inv]
  have "\<forall>a \<in> set (anchors_in st (int (length ([] :: audit_entry list))) (Some ?n)). intact_row env rs a"
    and "finish v' = Chain_valid n" "vf_failure v' = None" by auto
  then show "\<forall>a \<in> set (anchors st). intact_row env rs a"
    using anchors_in_sound [OF inv, of "[]"] inv by (simp add: log_inv_def)
  show "n = ?n"
    using \<open>finish v' = Chain_valid n\<close> \<open>vf_failure v' = None\<close> last z(1)
    by (auto simp: finish_def verifiedAnchor_def head_of_def split: if_splits option.splits)
qed

section \<open>Verification returns\<close>

lemma parse_anchors_ok:
  assumes "anchors_ok st" and "set as \<subseteq> set (anchors st)"
  shows "sequenceR (map parseChainAnchor as) = Inr as"
  using assms(2)
proof (induction as)
  case (Cons a as)
  then show ?case using assms(1) by (auto simp: anchors_ok_def parseChainAnchor_def)
qed simp

lemma anchors_in_subset: "set (anchors_in st after through) \<subseteq> set (anchors st)"
  by (auto simp: anchors_in_def ordered_anchors_def)

lemma page_returns:
  assumes "anchors_ok st" and "0 \<le> after" and "after \<le> MAX_SAFE_INTEGER"
  obtains pg where "readChainPage st after through VERIFICATION_PAGE_SIZE = Inr pg"
proof -
  have "set (take 200 (anchors_in st after through)) \<subseteq> set (anchors st)"
    using anchors_in_subset set_take_subset by fast
  from parse_anchors_ok [OF assms(1) this]
  have "\<exists>pg. readChainPage st after through VERIFICATION_PAGE_SIZE = Inr pg"
    using assms(2,3)
    by (simp add: readChainPage_def chainPageFromRows_def VERIFICATION_PAGE_SIZE_def Let_def case_prod_beta)
  then show thesis using that by blast
qed

lemma page_advances:
  assumes "readChainPage st after through VERIFICATION_PAGE_SIZE = Inr pg" and "pg_more pg"
  obtains a where "pg_last pg = Some (fst a)" "a \<in> set (anchors st)" "after < fst a"
proof -
  let ?vis = "visible_anchors st after through VERIFICATION_PAGE_SIZE"
  have "?vis \<noteq> []"
    using page_facts(2) [OF assms(1)] assms(2) by (auto simp: visible_anchors_def VERIFICATION_PAGE_SIZE_def)
  then have last: "pg_last pg = Some (fst (last ?vis))" and "last ?vis \<in> set ?vis"
    using page_facts(1) [OF assms(1)] by (simp_all add: last_option_def)
  then have "last ?vis \<in> set (anchors_in st after through)"
    by (auto simp: visible_anchors_def dest: in_set_takeD)
  then show thesis using that [OF last] by (auto simp: anchors_in_def ordered_anchors_def)
qed

lemma verify_pages_returns:
  assumes "anchors_ok st"
  shows "0 \<le> after \<Longrightarrow> after \<le> MAX_SAFE_INTEGER \<Longrightarrow> is_ok (verify_pages env st through v after)"
proof (induction "length (filter (\<lambda>a. fst a > after) (anchors st))" arbitrary: v after rule: less_induct)
  case less
  obtain pg where pg: "readChainPage st after through VERIFICATION_PAGE_SIZE = Inr pg"
    using page_returns [OF assms less.prems] .
  have "is_ok (verify_pages env st through w l)" if l: "pg_last pg = Some l" and more: "pg_more pg" for w l
  proof -
    obtain a where "pg_last pg = Some (fst a)" and a: "a \<in> set (anchors st)" "after < fst a"
      using page_advances [OF pg more] .
    then have l': "fst a = l" using l by simp
    have "length (filter (\<lambda>a. fst a > l) (anchors st)) < length (filter (\<lambda>a. fst a > after) (anchors st))"
      using fewer_after [OF a(1)] a(2) l' by auto
    moreover have "0 \<le> l" "l \<le> MAX_SAFE_INTEGER"
      using a l' assms by (auto simp: anchors_ok_def safe_sequence_def)
    ultimately show ?thesis using less.hyps by blast
  qed
  moreover have "\<exists>l. pg_last pg = Some l \<and> \<not> l \<le> after" if "pg_more pg"
    using page_advances [OF pg that] by (metis not_le)
  moreover obtain x w where "add_page env (pg_entries pg) v = (x, w)"
    by (cases "add_page env (pg_entries pg) v")
  ultimately show ?case
    by (subst verify_pages.simps) (auto simp: pg split: option.split)
qed

text \<open>C30: the verification of the audit log always comes to a verdict.
  Whatever the rows hold, for anchors that satisfy the constraints of their table it returns a
  verdict exactly when the requested range is one the schema accepts, the range ending at the last
  anchor when no end is given: no page is malformed and every page advances the scan.\<close>

theorem audit_verification_returns:
  assumes "anchors_ok st"
  shows "(\<exists>found. verify_chain env st firstSeq through = Inr found)
    = VerifySecurityAuditChainInputSchema firstSeq
        (case through of Some t \<Rightarrow> Some t | None \<Rightarrow> map_option fst (last_option (ordered_anchors st)))"
proof -
  let ?as = "filter (\<lambda>a. case through of None \<Rightarrow> True | Some t \<Rightarrow> fst a = t) (ordered_anchors st)"
  let ?last = "case through of Some t \<Rightarrow> Some t | None \<Rightarrow> map_option fst (last_option (ordered_anchors st))"
  have "a \<in> set (anchors st)" if "last_option ?as = Some a" for a
    using that last_in_set [of ?as] by (auto simp: last_option_def ordered_anchors_def split: if_splits)
  then have anchor: "readChainAnchor st through = Inr (last_option ?as)"
    using assms
    by (auto simp: readChainAnchor_def anchors_ok_def parseChainAnchor_def split: option.split)
  have eff: "(case through of Some t \<Rightarrow> Some t | None \<Rightarrow> map_option fst (last_option ?as)) = ?last"
    by (cases through) simp_all
  show ?thesis
  proof (cases "new_verifier firstSeq ?last")
    case (Inl x)
    then show ?thesis
      by (auto simp: verify_chain_def anchor eff new_verifier_def Let_def split: if_splits)
  next
    case (Inr v)
    have "0 \<le> afterSequence v" "afterSequence v \<le> MAX_SAFE_INTEGER"
      using Inr by (auto simp: new_verifier_def VerifySecurityAuditChainInputSchema_def Let_def
          afterSequence_def safe_sequence_def MAX_SAFE_INTEGER_def split: if_splits option.splits)
    from verify_pages_returns [OF assms this, of env ?last v] obtain found v'
      where "verify_pages env st ?last v (afterSequence v) = Inr (found, v')"
      by (cases "verify_pages env st ?last v (afterSequence v)") auto
    moreover have "VerifySecurityAuditChainInputSchema firstSeq ?last"
      using Inr by (simp add: new_verifier_def split: if_splits)
    ultimately show ?thesis
      by (simp add: verify_chain_def anchor eff Inr Let_def)
  qed
qed

section \<open>Tampering\<close>

text \<open>C17: if somebody rewrites the table of entries in any way and leaves
  the anchors, and the verification still calls the chain valid, then no appended entry was
  changed or removed: every one of them is read from some row of the table, and the verdict covers
  as many entries as were appended. The hash must not collide on the entries compared.\<close>

theorem audit_tampering_detected:
  assumes "audit_reach references gen env st"
    and "verify_chain env (st\<lparr>rows := rs\<rparr>) None None = Inr (Chain_valid n)"
    and "inj_on (env_hash env) (securityAuditHashPayload `
           (set (rows st) \<union> {e. \<exists>r \<in> set rs. SecurityAuditEntrySchema r = Some e}))"
  shows "n = int (length (rows st))
    \<and> (\<forall>e \<in> set (rows st). \<exists>r \<in> set rs. SecurityAuditEntrySchema r = Some e)"
proof (cases "rows st" rule: rev_cases)
  case Nil
  have inv: "log_inv env st" using assms(1) by (rule audit_reach_inv)
  then have "ordered_anchors st = []" using Nil by (simp add: ordered_anchors_inv)
  then show ?thesis
    using assms(2) Nil
    by (auto simp: verify_chain_def readChainAnchor_def new_verifier_def VerifySecurityAuditChainInputSchema_def
        Let_def finish_def split: if_splits)
next
  case (snoc us z)
  have inv: "log_inv env st" using assms(1) by (rule audit_reach_inv)
  note verdict = valid_verdict [OF inv snoc assms(2)]
  have "\<exists>r \<in> set rs. SecurityAuditEntrySchema r = Some e" if e: "e \<in> set (rows st)" for e
  proof -
    have "head_of e \<in> set (anchors st)" using e inv by (simp add: log_inv_def)
    then obtain r e' where r: "r \<in> set rs" "SecurityAuditEntrySchema r = Some e'"
      "ae_entryHash e' = ae_entryHash e" "env_hash env (securityAuditHashPayload e') = ae_entryHash e'"
      using verdict(2) by (fastforce simp: intact_row_def)
    moreover have "env_hash env (securityAuditHashPayload e) = ae_entryHash e"
      using sound_member e inv by (auto simp: log_inv_def)
    ultimately have "securityAuditHashPayload e' = securityAuditHashPayload e"
      using inj_onD [OF assms(3)] e by (metis (mono_tags, lifting) UnCI imageI mem_Collect_eq)
    then have "e' = e" using r(3) entry_from_payload by metis
    then show ?thesis using r by blast
  qed
  then show ?thesis using verdict(1) by blast
qed

section \<open>The laws at work\<close>

definition sample_audit_env :: audit_env where
  "sample_audit_env =
     \<lparr>env_hash = (\<lambda>p. replicate 63 (CHR ''0'') @ (if ae_sequence p = 1 then ''1'' else ''2'')),
      env_registered = (\<lambda>i. i = ''start-event'')\<rparr>"

definition sample_fact :: audit_fact where
  "sample_fact =
     \<lparr>au_category = Capability_execution, au_action = ''start-event'', au_actionIds = [],
      au_confirmationId = None, au_outcome = Audit_success,
      au_principal = Actor_principal (Human_actor nil_uuid nil_uuid), au_source = Web,
      au_facilityId = None, au_target = None, au_requestId = nil_uuid, au_reasonCode = None,
      au_occurredAt = 0\<rparr>"

definition sample_append :: "audit_tables \<Rightarrow> (audit_error, audit_entry) result \<times> audit_tables" where
  "sample_append = repository_append (\<lambda>_. True) (\<lambda>_. VALIDATION_ENTRY_ID) sample_audit_env sample_fact"

definition sample_log :: audit_tables where
  "sample_log = snd (sample_append empty_log)"

lemma sample_log_reached: "audit_reach (\<lambda>_. True) (\<lambda>_. VALIDATION_ENTRY_ID) sample_audit_env sample_log"
  unfolding sample_log_def sample_append_def
  by (rule audit_reach.appended [OF audit_reach.start, OF surjective_pairing])

lemma sample_log_length: "length (rows sample_log) = 1"
  by code_simp

theorem audit_log_verifies_witness: "verify_chain sample_audit_env sample_log None None = Inr (Chain_valid 1)"
  using audit_log_verifies [OF sample_log_reached] by (simp add: sample_log_length)

text \<open>
  The condition on the events that are hashed as given is needed. \<open>list-active-events\<close> takes the
  facility of its audit entry from the request (\<open>events.ts\<close> 1434) and the schema of identifiers admits
  upper case; the entry is hashed with the identifier as it came, the column returns it in lower case.
\<close>

definition upper_facility :: uuid where
  "upper_facility = ''ABCDEFAB-CDEF-4ABC-8ABC-ABCDEFABCDEF''"

definition listing_env :: audit_env where
  "listing_env =
     \<lparr>env_hash = (\<lambda>p. replicate 63 (CHR ''0'') @ (if au_facilityId p = Some upper_facility then ''1'' else ''2'')),
      env_registered = (\<lambda>i. i = ''list-active-events'')\<rparr>"

definition listing_event :: audit_fact where
  "listing_event = sample_fact\<lparr>au_action := ''list-active-events'', au_facilityId := Some upper_facility\<rparr>"

lemma direct_writer_breaks_chain:
  "case direct_append (\<lambda>_. True) (\<lambda>_. VALIDATION_ENTRY_ID) listing_env listing_event empty_log of
     (r, st) \<Rightarrow> is_ok r \<and> verify_chain listing_env st None None = Inr (Chain_invalid 1)"
  by code_simp

text \<open>The same log with a forged row in front that no page reads.\<close>

definition forged_rows :: "audit_entry list" where
  "forged_rows = map (\<lambda>e. e\<lparr>ae_sequence := 0\<rparr>) (rows sample_log) @ rows sample_log"

lemma forged_accepted:
  "verify_chain sample_audit_env (sample_log\<lparr>rows := forged_rows\<rparr>) None None = Inr (Chain_valid 1)"
  by code_simp

lemma forged_parse: "SecurityAuditEntrySchema (e\<lparr>ae_sequence := 0\<rparr>) = None"
  by (simp add: SecurityAuditEntrySchema_def trim_entry_def)

theorem audit_tampering_detected_witness:
  "\<exists>e r. rows sample_log = [e] \<and> r \<in> set forged_rows \<and> SecurityAuditEntrySchema r = Some e"
proof -
  obtain e where e: "rows sample_log = [e]" using sample_log_length by (auto simp: length_Suc_conv)
  have "sound_log sample_audit_env (rows sample_log)"
    using audit_reach_inv [OF sample_log_reached] by (simp add: log_inv_def)
  then have "SecurityAuditEntrySchema e = Some e" using sound_member e by auto
  then have all: "set (rows sample_log) \<union> {x. \<exists>r \<in> set forged_rows. SecurityAuditEntrySchema r = Some x} = {e}"
    using forged_parse by (auto simp: forged_rows_def e)
  have "\<forall>e \<in> set (rows sample_log). \<exists>r \<in> set forged_rows. SecurityAuditEntrySchema r = Some e"
    by (rule audit_tampering_detected [OF sample_log_reached forged_accepted, THEN conjunct2])
       (simp only: all image_insert image_empty inj_on_insert inj_on_empty, simp)
  then show ?thesis using e by auto
qed

theorem audit_verification_returns_witness:
  "\<exists>found. verify_chain sample_audit_env (sample_log\<lparr>rows := forged_rows\<rparr>) (Some 1) None = Inr found"
proof -
  have ok: "anchors_ok (sample_log\<lparr>rows := forged_rows\<rparr>)"
    using log_anchors_ok [OF audit_reach_inv [OF sample_log_reached]] by simp
  have "VerifySecurityAuditChainInputSchema (Some 1)
      (map_option fst (last_option (ordered_anchors (sample_log\<lparr>rows := forged_rows\<rparr>))))"
    by code_simp
  then show ?thesis using audit_verification_returns [OF ok, of sample_audit_env "Some 1" None] by simp
qed

end
