(* ===== verification/Capability_Safety.thy ===== *)
theory Capability_Safety
  imports Event_Contracts Catalog
begin

text \<open>
  What the capability contracts say of one execution: human confirmations and their records, the
  envelopes of queries and mutations, the two special principals before a session
  (\<open>packages/contracts/src/capability.ts\<close>), and the derivation of the protected actions of an
  execution (\<open>deriveHumanOnlyActionIds\<close>, \<open>capability-catalog.ts\<close>). A record stands for a value
  of the right shape; its schema holds of the values that the schema returns.
\<close>

section \<open>Human confirmations\<close>

record human_confirmation =
  hc_id :: uuid
  hc_capabilityId :: string
  hc_actionIds :: "human_only_action list"
  hc_epoch :: uuid
  hc_user :: uuid
  hc_session :: uuid
  hc_digest :: digest
  hc_issuedAt :: timestamp
  hc_expiresAt :: timestamp

definition HUMAN_CONFIRMATION_MAX_AGE_SECONDS :: int where
  "HUMAN_CONFIRMATION_MAX_AGE_SECONDS = 5 * 60"

definition HumanConfirmationSchema :: "human_confirmation \<Rightarrow> bool" where
  "HumanConfirmationSchema c =
     (uuid_ok (hc_id c)
      \<and> CapabilityIdSchema (hc_capabilityId c) \<and> js_trim (hc_capabilityId c) = hc_capabilityId c
      \<and> 1 \<le> length (hc_actionIds c) \<and> length (hc_actionIds c) \<le> 4 \<and> distinct (hc_actionIds c)
      \<and> uuid_ok (hc_epoch c) \<and> uuid_ok (hc_user c) \<and> uuid_ok (hc_session c)
      \<and> digest_ok (hc_digest c)
      \<and> \<not> isHumanOnlyActionId (hc_capabilityId c)
      \<and> isAtOrAfter (hc_expiresAt c) (hc_issuedAt c)
      \<and> \<not> hc_expiresAt c - hc_issuedAt c > HUMAN_CONFIRMATION_MAX_AGE_SECONDS * 1000)"

datatype confirmation_status = Issued | Consumed | Expired

record confirmation_record =
  cr_confirmation :: human_confirmation
  cr_status :: confirmation_status
  cr_consumedAt :: "timestamp option"
  cr_consumedFor :: "uuid option"
  cr_expiredAt :: "timestamp option"

definition HumanConfirmationRecordSchema :: "confirmation_record \<Rightarrow> bool" where
  "HumanConfirmationRecordSchema r =
     (HumanConfirmationSchema (cr_confirmation r)
      \<and> pred_option uuid_ok (cr_consumedFor r)
      \<and> (cr_status r = Consumed) = (cr_consumedAt r \<noteq> None \<and> cr_consumedFor r \<noteq> None)
      \<and> \<not> (cr_status r \<noteq> Consumed \<and> (cr_consumedAt r \<noteq> None \<or> cr_consumedFor r \<noteq> None))
      \<and> \<not> (cr_status r = Consumed \<and> cr_expiredAt r \<noteq> None)
      \<and> pred_option (\<lambda>t. isAtOrAfter t (hc_issuedAt (cr_confirmation r))
             \<and> isAtOrAfter (hc_expiresAt (cr_confirmation r)) t) (cr_consumedAt r)
      \<and> (cr_status r = Expired) = (cr_expiredAt r \<noteq> None)
      \<and> pred_option (\<lambda>t. isAtOrAfter t (hc_expiresAt (cr_confirmation r))) (cr_expiredAt r))"

section \<open>Scopes and special principals\<close>

definition CapabilityScopeSchema :: "capability_scope \<Rightarrow> bool" where
  "CapabilityScopeSchema s =
     (FacilityScopeSchema (facilityScope s)
      \<and> pred_option (\<lambda>ids. length ids \<le> 500 \<and> list_all uuid_ok ids) (campusFacilityIds s))"

text \<open>The issuer URL of one Cognito user pool.\<close>

definition host_char :: "char \<Rightarrow> bool" where
  "host_char c = (kebab_char c \<or> c = CHR ''-'')"

fun split_dots :: "string \<Rightarrow> string list" where
  "split_dots [] = [[]]"
| "split_dots (c # cs) =
     (if c = CHR ''.'' then [] # split_dots cs
      else case split_dots cs of [] \<Rightarrow> [[c]] | l # ls \<Rightarrow> (c # l) # ls)"

definition COGNITO_PREFIX :: string where
  "COGNITO_PREFIX = ''https://cognito-idp.''"

definition isPartnerIssuer :: "string \<Rightarrow> bool" where
  "isPartnerIssuer v =
     (let rest = drop (length COGNITO_PREFIX) v;
          host = takeWhile (\<lambda>c. c \<noteq> CHR ''/'') rest;
          pool = drop (length host + 1) rest;
          labels = split_dots host
      in startsWith v COGNITO_PREFIX \<and> length host < length rest
         \<and> 2 \<le> length labels \<and> length labels \<le> 4
         \<and> list_all (\<lambda>l. 1 \<le> length l \<and> length l \<le> 40 \<and> list_all host_char l) labels
         \<and> 1 \<le> length pool \<and> length pool \<le> 64
         \<and> list_all (\<lambda>c. host_char c \<or> ascii_upper c \<or> c = CHR ''_'') pool)"

definition PartnerIdentityIssuerSchema :: "string \<Rightarrow> bool" where
  "PartnerIdentityIssuerSchema v = (length v \<le> 255 \<and> isPartnerIssuer v)"

record oidc_principal =
  op_issuer :: string
  op_audience :: string
  op_subject :: string
  op_subjectDigest :: digest
  op_claimsDigest :: digest
  op_hostedDomain :: "string option"
  op_email :: string
  op_displayName :: string

text \<open>\<open>email\<close> is the e-mail pattern of the validation library.\<close>

definition PreSessionOidcPrincipalSchema :: "(string \<Rightarrow> bool) \<Rightarrow> oidc_principal \<Rightarrow> bool" where
  "PreSessionOidcPrincipalSchema email p =
     ((op_issuer p = ''https://accounts.google.com'' \<or> PartnerIdentityIssuerSchema (op_issuer p))
      \<and> bounded_text 255 (op_audience p) \<and> bounded_text 255 (op_subject p)
      \<and> digest_ok (op_subjectDigest p) \<and> digest_ok (op_claimsDigest p)
      \<and> pred_option (bounded_text 255) (op_hostedDomain p)
      \<and> js_trim (op_email p) = op_email p \<and> email (op_email p) \<and> length (op_email p) \<le> 320
      \<and> op_email p = lower_case (op_email p)
      \<and> bounded_text 160 (op_displayName p)
      \<and> \<not> (isPartnerIssuer (op_issuer p) \<and> op_hostedDomain p \<noteq> None))"

datatype credential_record_ref = Initial_issuance uuid | Rotation_successor uuid

fun RefreshCredentialRecordRefSchema :: "credential_record_ref \<Rightarrow> bool" where
  "RefreshCredentialRecordRefSchema (Initial_issuance i) = uuid_ok i"
| "RefreshCredentialRecordRefSchema (Rotation_successor i) = uuid_ok i"

record refresh_credential =
  rf_verificationId :: uuid
  rf_userId :: uuid
  rf_sessionId :: uuid
  rf_deviceEnrollmentId :: uuid
  rf_recordRef :: credential_record_ref
  rf_presentedTokenDigest :: digest
  rf_generation :: int
  rf_sessionExpiresAt :: timestamp
  rf_verifiedAt :: timestamp

definition VerifiedCurrentRefreshCredentialSchema :: "refresh_credential \<Rightarrow> bool" where
  "VerifiedCurrentRefreshCredentialSchema c =
     (uuid_ok (rf_verificationId c) \<and> uuid_ok (rf_userId c) \<and> uuid_ok (rf_sessionId c)
      \<and> uuid_ok (rf_deviceEnrollmentId c) \<and> RefreshCredentialRecordRefSchema (rf_recordRef c)
      \<and> digest_ok (rf_presentedTokenDigest c)
      \<and> 1 \<le> rf_generation c \<and> rf_generation c \<le> 9007199254740991
      \<and> \<not> rf_sessionExpiresAt c \<le> rf_verifiedAt c)"

datatype special_principal = Oidc_claims oidc_principal | Refresh_evidence refresh_credential

datatype oidc_transport =
  Oidc_code_callback | Mobile_oidc_code_exchange | Partner_email_otp | Partner_passkey

datatype refresh_transport = Web_refresh_cookie | Mobile_refresh_bearer

text \<open>A transport as it reaches the engine; the mode \<open>sameSite\<close> of the cookie is left out.\<close>

datatype engine_transport =
  Ordinary mutation_transport | Oidc_completion oidc_transport | Session_refresh refresh_transport

section \<open>Envelopes\<close>

record query_envelope =
  en_capabilityId :: string
  en_actor :: actor
  en_source :: invocation_source
  en_scope :: capability_scope
  en_requestId :: uuid
  en_serverTime :: timestamp
  en_input :: js_value

definition envelope_common_ok :: "'a query_envelope_scheme \<Rightarrow> bool" where
  "envelope_common_ok e =
     (CapabilityIdSchema (en_capabilityId e) \<and> ActorSchema (en_actor e)
      \<and> CapabilityScopeSchema (en_scope e) \<and> uuid_ok (en_requestId e)
      \<and> isActorSourceCompatible (en_actor e) (en_source e))"

definition QueryCapabilityEnvelopeSchema :: "capability_views option \<Rightarrow> query_envelope \<Rightarrow> bool" where
  "QueryCapabilityEnvelopeSchema installed e =
     (envelope_common_ok e
      \<and> \<not> isInstalledMutationCapabilityId installed (en_capabilityId e)
      \<and> isInstalledQueryCapabilityId installed (en_capabilityId e)
      \<and> \<not> isHumanOnlyActionId (en_capabilityId e))"

record mutation_envelope = query_envelope +
  en_key :: string
  en_transport :: engine_transport
  en_epoch :: "uuid option"
  en_requiredActionIds :: "human_only_action list"
  en_requiredDigest :: "digest option"
  en_confirmation :: "human_confirmation option"

definition confirmation_binds :: "mutation_envelope \<Rightarrow> human_confirmation \<Rightarrow> bool" where
  "confirmation_binds e c =
     (sort (en_requiredActionIds e) = sort (hc_actionIds c)
      \<and> hc_capabilityId c = en_capabilityId e
      \<and> Some (hc_digest c) = en_requiredDigest e
      \<and> Some (hc_epoch c) = en_epoch e
      \<and> isAtOrAfter (en_serverTime e) (hc_issuedAt c) \<and> isAtOrAfter (hc_expiresAt c) (en_serverTime e)
      \<and> (case en_actor e of Human_actor u s \<Rightarrow> hc_user c = u \<and> hc_session c = s | _ \<Rightarrow> True))"

fun nested_key_matches :: "js_value \<Rightarrow> string \<Rightarrow> bool" where
  "nested_key_matches (JObj fs) k =
     (''idempotencyKey'' \<notin> fst ` set fs \<or> js_field fs ''idempotencyKey'' = JStr k)"
| "nested_key_matches _ k = True"

definition MutationCapabilityEnvelopeSchema :: "capability_views option \<Rightarrow> mutation_envelope \<Rightarrow> bool" where
  "MutationCapabilityEnvelopeSchema installed e =
     (envelope_common_ok e
      \<and> (case IdempotencyKeySchema (en_key e) of
           None \<Rightarrow> False | Some k \<Rightarrow> nested_key_matches (en_input e) k)
      \<and> (case en_transport e of
           Ordinary t \<Rightarrow> mutationTransportKindBySource (en_source e) = kind_of_transport t
         | _ \<Rightarrow> False)
      \<and> pred_option uuid_ok (en_epoch e)
      \<and> length (en_requiredActionIds e) \<le> 4 \<and> distinct (en_requiredActionIds e)
      \<and> pred_option digest_ok (en_requiredDigest e)
      \<and> pred_option HumanConfirmationSchema (en_confirmation e)
      \<and> isInstalledMutationCapabilityId installed (en_capabilityId e)
      \<and> en_capabilityId e \<noteq> ''complete-oidc-sign-in'' \<and> en_capabilityId e \<noteq> ''refresh-session''
      \<and> \<not> isHumanOnlyActionId (en_capabilityId e)
      \<and> (actor_kind (en_actor e) = Human) = (en_epoch e \<noteq> None)
      \<and> (en_requiredActionIds e \<noteq> []) = (en_requiredDigest e \<noteq> None)
      \<and> (if en_requiredActionIds e \<noteq> []
         then actor_kind (en_actor e) = Human
              \<and> (case en_confirmation e of None \<Rightarrow> False | Some c \<Rightarrow> confirmation_binds e c)
         else en_confirmation e = None))"

text \<open>The envelopes of the two special principals.\<close>

definition AuthenticationCapabilityEnvelopeSchema ::
  "(string \<Rightarrow> bool) \<Rightarrow> special_principal option \<Rightarrow> invocation_source \<Rightarrow> uuid \<Rightarrow> string \<Rightarrow> engine_transport \<Rightarrow> bool" where
  "AuthenticationCapabilityEnvelopeSchema email evidence source requestId key transport =
     (case (evidence, transport) of
        (Some (Oidc_claims p), Oidc_completion t) \<Rightarrow>
          PreSessionOidcPrincipalSchema email p \<and> (source = Web \<or> source = Mobile)
          \<and> uuid_ok requestId \<and> IdempotencyKeySchema key \<noteq> None
          \<and> t \<in> set (if isPartnerIssuer (op_issuer p) then [Partner_email_otp, Partner_passkey]
                      else if source = Web then [Oidc_code_callback] else [Mobile_oidc_code_exchange])
      | _ \<Rightarrow> False)"

definition SessionRefreshCapabilityEnvelopeSchema ::
  "special_principal option \<Rightarrow> invocation_source \<Rightarrow> uuid \<Rightarrow> timestamp \<Rightarrow> js_value \<Rightarrow> string
     \<Rightarrow> engine_transport \<Rightarrow> bool" where
  "SessionRefreshCapabilityEnvelopeSchema evidence source requestId serverTime input key transport =
     (case (evidence, transport) of
        (Some (Refresh_evidence c), Session_refresh t) \<Rightarrow>
          VerifiedCurrentRefreshCredentialSchema c \<and> (source = Web \<or> source = Mobile)
          \<and> uuid_ok requestId \<and> input = JObj [] \<and> IdempotencyKeySchema key \<noteq> None
          \<and> t = (if source = Web then Web_refresh_cookie else Mobile_refresh_bearer)
          \<and> serverTime = rf_verifiedAt c
      | _ \<Rightarrow> False)"

section \<open>Protected actions of an execution\<close>

record requirement =
  rq_actionIds :: "human_only_action list"
  rq_digest :: "digest option"

definition HumanActionRequirementSchema :: "requirement \<Rightarrow> bool" where
  "HumanActionRequirementSchema q =
     (length (rq_actionIds q) \<le> 4 \<and> distinct (rq_actionIds q)
      \<and> pred_option digest_ok (rq_digest q)
      \<and> (rq_actionIds q \<noteq> []) = (rq_digest q \<noteq> None))"

record safety_resolution =
  sr_kind :: event_kind
  sr_population :: roster_population
  sr_digest :: digest

definition CapabilitySafetyResolutionSchema :: "safety_resolution \<Rightarrow> bool" where
  "CapabilitySafetyResolutionSchema r =
     ((sr_kind r, sr_population r) \<in>
        {(Incident, Staff), (Drill, Staff), (Drill, Synthetic), (Test_event, Synthetic)}
      \<and> digest_ok (sr_digest r))"

fun deriveHumanOnlyActionIds :: "safety_effect \<Rightarrow> safety_resolution \<Rightarrow> human_only_action list" where
  "deriveHumanOnlyActionIds No_effect r = []"
| "deriveHumanOnlyActionIds Start_event r =
     (if sr_population r = Staff
      then (if sr_kind r = Incident then [Start_real_incident] else []) @ [Send_real_notification]
      else [])"
| "deriveHumanOnlyActionIds Send_notification r =
     (if sr_population r = Staff then [Send_real_notification] else [])"
| "deriveHumanOnlyActionIds All_clear_event r =
     (if sr_population r = Staff then [All_clear, Send_real_notification] else [])"
| "deriveHumanOnlyActionIds Close_event r =
     (if sr_population r = Staff \<and> sr_kind r = Incident then [Close_real_event] else [])"

definition requirement_of :: "safety_effect \<Rightarrow> safety_resolution \<Rightarrow> requirement" where
  "requirement_of eff r =
     (let ids = deriveHumanOnlyActionIds eff r
      in \<lparr>rq_actionIds = ids, rq_digest = (if ids \<noteq> [] then Some (sr_digest r) else None)\<rparr>)"

lemma derived_ids_small: "length (deriveHumanOnlyActionIds eff r) \<le> 2 \<and> distinct (deriveHumanOnlyActionIds eff r)"
  by (cases "(eff, r)" rule: deriveHumanOnlyActionIds.cases) auto

lemma requirement_of_ok: "CapabilitySafetyResolutionSchema r \<Longrightarrow> HumanActionRequirementSchema (requirement_of eff r)"
  using derived_ids_small [of eff r]
  by (simp add: requirement_of_def HumanActionRequirementSchema_def CapabilitySafetyResolutionSchema_def Let_def)

end
