(* ===== verification/Capability_Engine.thy ===== *)
theory Capability_Engine
  imports Capability_Safety Audit_Writers
begin

text \<open>
  The capability engine, \<open>packages/server/lib/capabilities/engine.ts\<close>: every capability runs
  through one transaction that checks the caller, claims the idempotency key, resolves the
  protected actions, authorizes, runs the registered handler, completes the key and appends the
  audit entry. The tables are those of the shared persistence (\<open>persistence.ts\<close>) and of the
  confirmations (\<open>events.ts\<close>); what handlers keep beside them is the type parameter \<open>'d\<close>.
\<close>

section \<open>Failures\<close>

datatype api_code =
  VALIDATION_ERROR | UNAUTHENTICATED | FORBIDDEN | NOT_FOUND | CONFLICT | IDEMPOTENCY_CONFLICT
| LIVE_ACTION_UNAVAILABLE | RATE_LIMITED | INTERNAL_ERROR

datatype engine_reason =
  CAPABILITY_INPUT_INVALID | CAPABILITY_INVOCATION_DENIED | CAPABILITY_SCOPE_DENIED
| CONFIRMATION_ALREADY_USED | CONFIRMATION_INVALID | CONFIRMATION_REQUIRED | HUMAN_ONLY_REQUIRED
| IDEMPOTENCY_IN_PROGRESS | IDEMPOTENCY_PREVIOUSLY_FAILED | IDEMPOTENCY_REQUEST_MISMATCH
| IDEMPOTENCY_RESULT_UNAVAILABLE | MUTATION_METADATA_INVALID | PERSISTENCE_CONFLICT

fun reason_text :: "engine_reason \<Rightarrow> string" where
  "reason_text CAPABILITY_INPUT_INVALID = ''CAPABILITY_INPUT_INVALID''"
| "reason_text CAPABILITY_INVOCATION_DENIED = ''CAPABILITY_INVOCATION_DENIED''"
| "reason_text CAPABILITY_SCOPE_DENIED = ''CAPABILITY_SCOPE_DENIED''"
| "reason_text CONFIRMATION_ALREADY_USED = ''CONFIRMATION_ALREADY_USED''"
| "reason_text CONFIRMATION_INVALID = ''CONFIRMATION_INVALID''"
| "reason_text CONFIRMATION_REQUIRED = ''CONFIRMATION_REQUIRED''"
| "reason_text HUMAN_ONLY_REQUIRED = ''HUMAN_ONLY_REQUIRED''"
| "reason_text IDEMPOTENCY_IN_PROGRESS = ''IDEMPOTENCY_IN_PROGRESS''"
| "reason_text IDEMPOTENCY_PREVIOUSLY_FAILED = ''IDEMPOTENCY_PREVIOUSLY_FAILED''"
| "reason_text IDEMPOTENCY_REQUEST_MISMATCH = ''IDEMPOTENCY_REQUEST_MISMATCH''"
| "reason_text IDEMPOTENCY_RESULT_UNAVAILABLE = ''IDEMPOTENCY_RESULT_UNAVAILABLE''"
| "reason_text MUTATION_METADATA_INVALID = ''MUTATION_METADATA_INVALID''"
| "reason_text PERSISTENCE_CONFLICT = ''PERSISTENCE_CONFLICT''"

record engine_error =
  ee_code :: api_code
  ee_reason :: engine_reason
  ee_status :: nat
  ee_retryable :: bool

text \<open>
  What may be thrown: an error of the engine, the error that \<open>resolveHumanActionRequirement\<close>
  throws and the engine recognizes by its message, or anything else.
\<close>

datatype thrown = Engine_error engine_error | Staff_roster_error | Other_error string

definition refuse :: "api_code \<Rightarrow> engine_reason \<Rightarrow> nat \<Rightarrow> thrown" where
  "refuse code reason status =
     Engine_error \<lparr>ee_code = code, ee_reason = reason, ee_status = status, ee_retryable = False\<rparr>"

fun errorForUnknownFailure :: "thrown \<Rightarrow> engine_error" where
  "errorForUnknownFailure (Engine_error e) = e"
| "errorForUnknownFailure Staff_roster_error =
     \<lparr>ee_code = FORBIDDEN, ee_reason = HUMAN_ONLY_REQUIRED, ee_status = 403, ee_retryable = False\<rparr>"
| "errorForUnknownFailure (Other_error _) =
     \<lparr>ee_code = INTERNAL_ERROR, ee_reason = PERSISTENCE_CONFLICT, ee_status = 500, ee_retryable = True\<rparr>"

section \<open>Invocations\<close>

record mutation_metadata =
  mm_key :: string
  mm_transport :: engine_transport
  mm_confirmationId :: "uuid option"

record trusted_invocation =
  ti_actor :: actor
  ti_principal :: "special_principal option"
  ti_principalKind :: "principal_kind option"
  ti_source :: invocation_source
  ti_scope :: capability_scope
  ti_requestId :: uuid
  ti_serverTime :: timestamp
  ti_epoch :: "uuid option"
  ti_mutation :: "mutation_metadata option"

definition invoking_kind :: "trusted_invocation \<Rightarrow> principal_kind" where
  "invoking_kind iv = (case ti_principalKind iv of Some k \<Rightarrow> k | None \<Rightarrow> actor_kind (ti_actor iv))"

section \<open>Tables\<close>

datatype idempotency_status = In_progress | Completed | Failed

record idempotency_row =
  ir_id :: nat
  ir_capabilityId :: string
  ir_principalDigest :: digest
  ir_key :: string
  ir_requestDigest :: digest
  ir_status :: idempotency_status
  ir_createdAt :: timestamp
  ir_completedAt :: "timestamp option"
  ir_resultReference :: "string option"

record 'd engine_store =
  idempotency :: "idempotency_row list"
  confirmations :: "confirmation_record list"
  audit_log :: audit_tables
  domain_tables :: 'd

record handler_authorization =
  az_facilityId :: "uuid option"
  az_requirement :: requirement
  az_confirmation :: "human_confirmation option"

type_synonym scratch = "string \<Rightarrow> js_value option"

record handler_context =
  cx_authorization :: "handler_authorization option"
  cx_resolvedFacilityId :: "uuid option"
  cx_safetyResolution :: "safety_resolution option"
  cx_cache :: scratch

definition fresh_context :: handler_context where
  "fresh_context =
     \<lparr>cx_authorization = None, cx_resolvedFacilityId = None, cx_safetyResolution = None,
      cx_cache = (\<lambda>_. None)\<rparr>"

text \<open>The tables, the context of the running transaction, and the readings of the clock so far.\<close>

record 'd world =
  w_store :: "'d engine_store"
  w_context :: handler_context
  w_ticks :: nat

text \<open>
  A callback of a registration reads and writes the tables and the cache of its transaction; the
  other fields of the context it only reads.
\<close>

type_synonym ('d, 'a) callback =
  "trusted_invocation \<Rightarrow> handler_context \<Rightarrow> ('d engine_store \<times> scratch, thrown, 'a) comp"

record 'd registration =
  rg_id :: string
  rg_handler :: "js_value \<Rightarrow> ('d, js_value) callback"
  rg_resolveFacilityId :: "js_value \<Rightarrow> ('d, uuid option) callback"
  rg_campusParticipation :: bool
  rg_resolveSafety :: "(js_value \<Rightarrow> ('d, safety_resolution) callback) option"
  rg_canonicalize :: "(js_value \<Rightarrow> js_value) option"
  rg_resultReference :: "(js_value \<Rightarrow> handler_context \<Rightarrow> string) option"
  rg_loadReplay :: "(string \<Rightarrow> ('d, js_value) callback) option"
  rg_resolveReplayFacilityId :: "(string \<Rightarrow> ('d, uuid option) callback) option"
  rg_replayFacilityId :: "(js_value \<Rightarrow> uuid option) option"
  rg_repositoryOwned :: bool
  rg_classify :: "thrown \<Rightarrow> (engine_error \<times> bool) option"

text \<open>
  What the engine is given: the catalog and the views installed from it, the input and output
  schemas by name, the two digests, the e-mail pattern, the clock, and what the audit log needs,
  with the writer of the store: the one of \<open>persistence.ts\<close> (devices, SMS consent, journal), one that
  hashes the event as given (events, media, prepared activations), the one of the start store, of the
  administration store (administration, sessions, event types, agent keys), or the repository of
  the audit log (event room). The target that a handler sets for the entry of the administration
  store is a function of the event.
\<close>

datatype audit_writer = Shared_writer | Direct_writer | Start_writer | Admin_writer | Repository_writer

record capability_env =
  ce_catalog :: catalog
  ce_views :: "capability_views option"
  ce_schema :: "string \<Rightarrow> js_value \<Rightarrow> js_value option"
  ce_principalDigest :: "actor \<Rightarrow> digest"
  ce_requestDigest :: "string \<Rightarrow> js_value \<Rightarrow> digest"
  ce_email :: "string \<Rightarrow> bool"
  ce_clock :: "nat \<Rightarrow> timestamp"
  ce_audit :: audit_env
  ce_references :: "audit_entry \<Rightarrow> bool"
  ce_ids :: "nat \<Rightarrow> uuid"
  ce_writer :: audit_writer
  ce_target :: "audit_fact \<Rightarrow> (audit_target_kind \<times> string) option"

definition definition_of :: "capability_env \<Rightarrow> string \<Rightarrow> (thrown, capability_definition) result" where
  "definition_of env i =
     (case defineCapability (ce_catalog env) i of
        Inl _ \<Rightarrow> Inl (Other_error ''unregistered capability'') | Inr d \<Rightarrow> Inr d)"

definition parse_by :: "capability_env \<Rightarrow> string \<Rightarrow> js_value \<Rightarrow> (thrown, js_value) result" where
  "parse_by env schema v =
     (case ce_schema env schema v of None \<Rightarrow> Inl (Other_error ''schema refused'') | Some x \<Rightarrow> Inr x)"

definition parseCapabilityInput :: "capability_env \<Rightarrow> string \<Rightarrow> js_value \<Rightarrow> (thrown, js_value) result" where
  "parseCapabilityInput env i v = bindR (definition_of env i) (\<lambda>d. parse_by env (inputSchema d) v)"

definition parseCapabilityOutput :: "capability_env \<Rightarrow> string \<Rightarrow> js_value \<Rightarrow> (thrown, js_value) result" where
  "parseCapabilityOutput env i v = bindR (definition_of env i) (\<lambda>d. parse_by env (outputSchema d) v)"

definition invalid :: thrown where
  "invalid = Other_error ''value refused by its schema''"

section \<open>Checks without side effects\<close>

definition sameStrings :: "human_only_action list \<Rightarrow> human_only_action list \<Rightarrow> bool" where
  "sameStrings l r = (sort l = sort r)"

definition scopeAllowsFacility :: "capability_scope \<Rightarrow> uuid option \<Rightarrow> bool \<Rightarrow> bool" where
  "scopeAllowsFacility scope facilityId campusParticipation =
     (case (facilityId, facilityScope scope) of
        (Some f, Facilities ids) \<Rightarrow>
          f \<in> set ids
          \<or> campusParticipation \<and> (case campusFacilityIds scope of None \<Rightarrow> False | Some cs \<Rightarrow> f \<in> set cs)
      | _ \<Rightarrow> True)"

definition assertInvocationAllowed :: "capability_env \<Rightarrow> string \<Rightarrow> trusted_invocation \<Rightarrow> (thrown, unit) result" where
  "assertInvocationAllowed env i iv =
     bindR (definition_of env i) (\<lambda>d.
       let policy = invocation d
       in guardR (invoking_kind iv \<in> set (principalKinds policy)
                  \<and> ti_source iv \<in> set (sources policy)
                  \<and> \<not> (partner (ti_scope iv)
                       \<and> (actor_kind (ti_actor iv) \<noteq> Human \<or> \<not> isPartnerCapabilityId i)))
            (refuse FORBIDDEN CAPABILITY_INVOCATION_DENIED 403))"

definition transport_ok :: "principal_kind \<Rightarrow> engine_transport \<Rightarrow> bool" where
  "transport_ok kind t =
     (case t of
        Oidc_completion _ \<Rightarrow> kind = Pre_session_oidc
      | Session_refresh _ \<Rightarrow> kind = Verified_refresh_credential
      | Ordinary _ \<Rightarrow> kind \<noteq> Pre_session_oidc \<and> kind \<noteq> Verified_refresh_credential)"

definition evidence_check :: "capability_env \<Rightarrow> trusted_invocation \<Rightarrow> (thrown, unit) result" where
  "evidence_check env iv =
     (if invoking_kind iv = Pre_session_oidc
      then guardR (case ti_principal iv of
                     Some (Oidc_claims p) \<Rightarrow> PreSessionOidcPrincipalSchema (ce_email env) p | _ \<Rightarrow> False) invalid
      else if invoking_kind iv = Verified_refresh_credential
      then guardR (case ti_principal iv of
                     Some (Refresh_evidence c) \<Rightarrow> VerifiedCurrentRefreshCredentialSchema c | _ \<Rightarrow> False) invalid
      else bindR (guardR (ti_principal iv = None) (refuse VALIDATION_ERROR MUTATION_METADATA_INVALID 400)) (\<lambda>_.
           guardR (isActorSourceCompatible (ti_actor iv) (ti_source iv)) invalid))"

definition validateTrustedInvocation :: "capability_env \<Rightarrow> trusted_invocation \<Rightarrow> (thrown, unit) result" where
  "validateTrustedInvocation env iv =
     bindR (guardR (ActorSchema (ti_actor iv)) invalid) (\<lambda>_.
     bindR (evidence_check env iv) (\<lambda>_.
     guardR (CapabilityScopeSchema (ti_scope iv) \<and> uuid_ok (ti_requestId iv)
             \<and> pred_option uuid_ok (ti_epoch iv)
             \<and> pred_option (\<lambda>m. IdempotencyKeySchema (mm_key m) \<noteq> None
                   \<and> transport_ok (invoking_kind iv) (mm_transport m)
                   \<and> pred_option uuid_ok (mm_confirmationId m)) (ti_mutation iv))
       invalid))"

definition mutation_envelope_of ::
  "string \<Rightarrow> js_value \<Rightarrow> trusted_invocation \<Rightarrow> mutation_metadata \<Rightarrow> requirement
     \<Rightarrow> human_confirmation option \<Rightarrow> mutation_envelope" where
  "mutation_envelope_of i input iv m q confirmation =
     \<lparr>en_capabilityId = i, en_actor = ti_actor iv, en_source = ti_source iv, en_scope = ti_scope iv,
      en_requestId = ti_requestId iv, en_serverTime = ti_serverTime iv, en_input = input,
      en_key = mm_key m, en_transport = mm_transport m, en_epoch = ti_epoch iv,
      en_requiredActionIds = rq_actionIds q, en_requiredDigest = rq_digest q,
      en_confirmation = confirmation\<rparr>"

definition no_requirement :: requirement where
  "no_requirement = \<lparr>rq_actionIds = [], rq_digest = None\<rparr>"

definition assertStaticMutationEnvelope ::
  "capability_env \<Rightarrow> string \<Rightarrow> js_value \<Rightarrow> trusted_invocation \<Rightarrow> (thrown, unit) result" where
  "assertStaticMutationEnvelope env i input iv =
     (case ti_mutation iv of
        None \<Rightarrow> Inl (refuse VALIDATION_ERROR MUTATION_METADATA_INVALID 400)
      | Some m \<Rightarrow>
          guardR
            (if i = ''complete-oidc-sign-in'' \<and> ti_principalKind iv = Some Pre_session_oidc
             then AuthenticationCapabilityEnvelopeSchema (ce_email env) (ti_principal iv) (ti_source iv)
                    (ti_requestId iv) (mm_key m) (mm_transport m)
             else if i = ''refresh-session'' \<and> ti_principalKind iv = Some Verified_refresh_credential
             then SessionRefreshCapabilityEnvelopeSchema (ti_principal iv) (ti_source iv)
                    (ti_requestId iv) (ti_serverTime iv) input (mm_key m) (mm_transport m)
             else MutationCapabilityEnvelopeSchema (ce_views env)
                    (mutation_envelope_of i input iv m no_requirement None))
            (refuse VALIDATION_ERROR MUTATION_METADATA_INVALID 400))"

definition preflightCapabilityInvocation ::
  "capability_env \<Rightarrow> string \<Rightarrow> js_value \<Rightarrow> trusted_invocation \<Rightarrow> (thrown, js_value) result" where
  "preflightCapabilityInvocation env i raw iv =
     bindR (validateTrustedInvocation env iv) (\<lambda>_.
     bindR (case parseCapabilityInput env i raw of
              Inl _ \<Rightarrow> Inl (refuse VALIDATION_ERROR CAPABILITY_INPUT_INVALID 400) | Inr x \<Rightarrow> Inr x) (\<lambda>input.
     bindR (assertInvocationAllowed env i iv) (\<lambda>_.
     bindR (definition_of env i) (\<lambda>d.
     bindR (if operation d = Mutation then assertStaticMutationEnvelope env i input iv
            else guardR (ti_mutation iv = None) (refuse VALIDATION_ERROR MUTATION_METADATA_INVALID 400)) (\<lambda>_.
     Inr input)))))"

definition validateConfirmation ::
  "confirmation_record \<Rightarrow> trusted_invocation \<Rightarrow> string \<Rightarrow> requirement \<Rightarrow> timestamp
     \<Rightarrow> (thrown, human_confirmation) result" where
  "validateConfirmation r iv i q now =
     (let c = cr_confirmation r
      in if cr_status r \<noteq> Issued then Inl (refuse CONFLICT CONFIRMATION_ALREADY_USED 409)
         else if \<not> (case ti_actor iv of
                     Human_actor u s \<Rightarrow> hc_user c = u \<and> hc_session c = s | _ \<Rightarrow> False)
            \<or> hc_capabilityId c \<noteq> i
            \<or> Some (hc_epoch c) \<noteq> ti_epoch iv
            \<or> Some (hc_digest c) \<noteq> rq_digest q
            \<or> \<not> sameStrings (hc_actionIds c) (rq_actionIds q)
         then Inl (refuse FORBIDDEN CONFIRMATION_INVALID 403)
         else if now < hc_issuedAt c \<or> now > hc_expiresAt c
         then Inl (refuse FORBIDDEN CONFIRMATION_INVALID 403)
         else Inr c)"

end
