(* ===== verification/Capability_Run.thy ===== *)
theory Capability_Run
  imports Capability_Engine
begin

text \<open>
  One run of the capability engine: the operations of its transaction on the tables, the handler
  invocation of \<open>capability-catalog.ts\<close> and \<open>executeAuditedCapabilityTransaction\<close>.
\<close>

section \<open>The operations of a transaction\<close>

datatype idempotency_claim =
  Claim_new nat | Claim_completed digest string | Claim_in_progress digest | Claim_failed digest string

definition same_key :: "string \<Rightarrow> digest \<Rightarrow> string \<Rightarrow> idempotency_row \<Rightarrow> bool" where
  "same_key i p k r = (ir_capabilityId r = i \<and> ir_principalDigest r = p \<and> ir_key r = k)"

text \<open>The identifier of a new row is the number of rows before it.\<close>

definition claimSharedIdempotency ::
  "string \<Rightarrow> digest \<Rightarrow> string \<Rightarrow> digest \<Rightarrow> timestamp
     \<Rightarrow> ('d engine_store, thrown, idempotency_claim) comp" where
  "claimSharedIdempotency i p k d createdAt s =
     (case find (same_key i p k) (idempotency s) of
        None \<Rightarrow>
          (Inr (Claim_new (length (idempotency s))),
           s\<lparr>idempotency := idempotency s @
               [\<lparr>ir_id = length (idempotency s), ir_capabilityId = i, ir_principalDigest = p, ir_key = k,
                 ir_requestDigest = d, ir_status = In_progress, ir_createdAt = createdAt,
                 ir_completedAt = None, ir_resultReference = None\<rparr>]\<rparr>)
      | Some r \<Rightarrow>
          (Inr (case (ir_status r, ir_resultReference r) of
                  (Completed, Some x) \<Rightarrow> Claim_completed (ir_requestDigest r) x
                | (Failed, Some x) \<Rightarrow> Claim_failed (ir_requestDigest r) x
                | _ \<Rightarrow> Claim_in_progress (ir_requestDigest r)), s))"

definition completeSharedIdempotency ::
  "nat \<Rightarrow> string \<Rightarrow> timestamp \<Rightarrow> ('d engine_store, thrown, unit) comp" where
  "completeSharedIdempotency recordId reference completedAt s =
     (let hit = (\<lambda>r. ir_id r = recordId \<and> ir_status r = In_progress)
      in if list_ex hit (idempotency s)
         then (Inr (), s\<lparr>idempotency := map (\<lambda>r. if hit r
                 then r\<lparr>ir_status := Completed, ir_completedAt := Some completedAt,
                        ir_resultReference := Some reference\<rparr> else r) (idempotency s)\<rparr>)
         else (Inl (refuse CONFLICT PERSISTENCE_CONFLICT 409), s))"

definition confirmation_row :: "uuid \<Rightarrow> 'd engine_store \<Rightarrow> confirmation_record option" where
  "confirmation_row i s = find (\<lambda>r. hc_id (cr_confirmation r) = lower_case i) (confirmations s)"

definition getHumanConfirmation ::
  "uuid \<Rightarrow> ('d engine_store, thrown, confirmation_record option) comp" where
  "getHumanConfirmation i s =
     (case confirmation_row i s of
        None \<Rightarrow> (Inr None, s)
      | Some r \<Rightarrow> if HumanConfirmationRecordSchema r then (Inr (Some r), s) else (Inl invalid, s))"

text \<open>
  Consumption at the time \<open>now\<close> of the database clock. No two rows are consumed for one request.
\<close>

definition consumeHumanConfirmation ::
  "uuid \<Rightarrow> uuid \<Rightarrow> timestamp \<Rightarrow> ('d engine_store, thrown, bool) comp" where
  "consumeHumanConfirmation i requestId now s =
     (let hit = (\<lambda>r. hc_id (cr_confirmation r) = lower_case i \<and> cr_status r = Issued
                 \<and> hc_issuedAt (cr_confirmation r) \<le> now \<and> now \<le> hc_expiresAt (cr_confirmation r))
      in if \<not> list_ex hit (confirmations s) then (Inr False, s)
         else if list_ex (\<lambda>r. cr_consumedFor r = Some (lower_case requestId)) (confirmations s)
         then (Inl (Other_error ''confirmation consumed for the request before''), s)
         else (Inr True, s\<lparr>confirmations := map (\<lambda>r. if hit r
                 then r\<lparr>cr_status := Consumed, cr_consumedAt := Some now,
                        cr_consumedFor := Some (lower_case requestId)\<rparr> else r) (confirmations s)\<rparr>))"

fun audit_thrown :: "audit_error \<Rightarrow> thrown" where
  "audit_thrown Audit_request_conflict = refuse CONFLICT PERSISTENCE_CONFLICT 409"
| "audit_thrown _ = Other_error ''audit refused''"

text \<open>The entry is appended by the writer of the store at hand.\<close>

definition writer_append :: "capability_env \<Rightarrow> audit_fact \<Rightarrow> (audit_tables, audit_error, unit) comp" where
  "writer_append env event =
     (case ce_writer env of
        Shared_writer \<Rightarrow> appendSharedCapabilityAuditEntry (ce_references env) (ce_ids env) (ce_audit env) event
      | Direct_writer \<Rightarrow> bindC (direct_append (ce_references env) (ce_ids env) (ce_audit env) event) (\<lambda>_. retC ())
      | Start_writer \<Rightarrow> bindC (start_append (ce_references env) (ce_ids env) (ce_audit env) event) (\<lambda>_. retC ())
      | Admin_writer \<Rightarrow>
          admin_append (ce_references env) (ce_ids env) (ce_audit env) event (ce_target env event)
      | Repository_writer \<Rightarrow>
          bindC (repository_append (ce_references env) (ce_ids env) (ce_audit env) (capability_fact event))
            (\<lambda>_. retC ()))"

definition appendCapabilityAudit ::
  "capability_env \<Rightarrow> audit_fact \<Rightarrow> ('d engine_store, thrown, unit) comp" where
  "appendCapabilityAudit env event s =
     (case writer_append env event (audit_log s) of
        (Inl e, a) \<Rightarrow> (Inl (audit_thrown e), s\<lparr>audit_log := a\<rparr>)
      | (Inr _, a) \<Rightarrow> (Inr (), s\<lparr>audit_log := a\<rparr>))"

section \<open>Computations over the world\<close>

definition on_store :: "('d engine_store, thrown, 'a) comp \<Rightarrow> ('d world, thrown, 'a) comp" where
  "on_store m w = (case m (w_store w) of (r, s) \<Rightarrow> (r, w\<lparr>w_store := s\<rparr>))"

definition run_callback :: "('d, 'a) callback \<Rightarrow> trusted_invocation \<Rightarrow> ('d world, thrown, 'a) comp" where
  "run_callback f iv w =
     (case f iv (w_context w) (w_store w, cx_cache (w_context w)) of
        (r, (s, c)) \<Rightarrow> (r, w\<lparr>w_store := s, w_context := (w_context w)\<lparr>cx_cache := c\<rparr>\<rparr>))"

definition set_context :: "(handler_context \<Rightarrow> handler_context) \<Rightarrow> ('d world, thrown, unit) comp" where
  "set_context f w = (Inr (), w\<lparr>w_context := f (w_context w)\<rparr>)"

definition get_context :: "('d world, thrown, handler_context) comp" where
  "get_context w = (Inr (w_context w), w)"

definition read_clock :: "capability_env \<Rightarrow> ('d world, thrown, timestamp) comp" where
  "read_clock env w = (Inr (ce_clock env (w_ticks w)), w\<lparr>w_ticks := Suc (w_ticks w)\<rparr>)"

text \<open>A transaction rolls the tables back; the context it filled stays readable.\<close>

definition store_transaction :: "('d world, thrown, 'a) comp \<Rightarrow> ('d world, thrown, 'a) comp" where
  "store_transaction m w =
     (case m w of
        (Inl e, w') \<Rightarrow> (Inl e, w'\<lparr>w_store := w_store w\<rparr>)
      | (Inr a, w') \<Rightarrow> (Inr a, w'))"

section \<open>Audit events\<close>

definition audit_event ::
  "audit_category \<Rightarrow> string \<Rightarrow> human_only_action list \<Rightarrow> uuid option \<Rightarrow> audit_outcome \<Rightarrow> trusted_invocation
     \<Rightarrow> uuid option \<Rightarrow> string option \<Rightarrow> audit_fact" where
  "audit_event category i ids confirmationId outcome iv facilityId reason =
     \<lparr>au_category = category, au_action = i, au_actionIds = ids, au_confirmationId = confirmationId,
      au_outcome = outcome, au_principal = Actor_principal (ti_actor iv), au_source = ti_source iv,
      au_facilityId = facilityId, au_target = None, au_requestId = ti_requestId iv,
      au_reasonCode = reason, au_occurredAt = ti_serverTime iv\<rparr>"

definition execution_category :: "trusted_invocation \<Rightarrow> audit_category" where
  "execution_category iv =
     (if actor_kind (ti_actor iv) = Agent then Agent_access else Capability_execution)"

definition successAuditEvent ::
  "string \<Rightarrow> trusted_invocation \<Rightarrow> handler_context \<Rightarrow> (thrown, audit_fact) result" where
  "successAuditEvent i iv cx =
     (case cx_authorization cx of
        None \<Rightarrow> Inl (refuse INTERNAL_ERROR MUTATION_METADATA_INVALID 500)
      | Some a \<Rightarrow>
          Inr (audit_event (execution_category iv) i (rq_actionIds (az_requirement a))
                 (map_option hc_id (az_confirmation a)) Audit_success iv (az_facilityId a) None))"

definition failureAuditEvent ::
  "capability_definition \<Rightarrow> string \<Rightarrow> trusted_invocation \<Rightarrow> handler_context \<Rightarrow> engine_error \<Rightarrow> audit_fact" where
  "failureAuditEvent d i iv cx e =
     (let ids = (case cx_authorization cx of
                   Some a \<Rightarrow> rq_actionIds (az_requirement a)
                 | None \<Rightarrow> (case cx_safetyResolution cx of
                              None \<Rightarrow> [] | Some r \<Rightarrow> deriveHumanOnlyActionIds (safetyEffect d) r));
          denied = (ee_status e = 401 \<or> ee_status e = 403);
          facilityId = (case cx_authorization cx of
                          Some a \<Rightarrow> (case az_facilityId a of Some f \<Rightarrow> Some f | None \<Rightarrow> cx_resolvedFacilityId cx)
                        | None \<Rightarrow> cx_resolvedFacilityId cx)
      in audit_event
           (if ee_reason e = HUMAN_ONLY_REQUIRED \<and> ids \<noteq> [] then Human_only_rejection
            else if denied then Access_denial else Capability_execution)
           i ids None (if denied then Audit_denied else Audit_failure) iv facilityId
           (Some (reason_text (ee_reason e))))"

section \<open>Authorization\<close>

text \<open>The confirmation that a protected execution consumes.\<close>

definition confirm ::
  "capability_env \<Rightarrow> string \<Rightarrow> trusted_invocation \<Rightarrow> requirement
     \<Rightarrow> ('d world, thrown, human_confirmation) comp" where
  "confirm env i iv q =
     (if actor_kind (ti_actor iv) \<noteq> Human then throwC (refuse FORBIDDEN HUMAN_ONLY_REQUIRED 403)
      else case Option.bind (ti_mutation iv) mm_confirmationId of
        None \<Rightarrow> throwC (refuse FORBIDDEN CONFIRMATION_REQUIRED 403)
      | Some confirmationId \<Rightarrow>
          bindC (on_store (getHumanConfirmation confirmationId)) (\<lambda>row.
            case row of
              None \<Rightarrow> throwC (refuse FORBIDDEN CONFIRMATION_INVALID 403)
            | Some r \<Rightarrow>
                bindC (read_clock env) (\<lambda>now.
                bindC (liftR (validateConfirmation r iv i q now)) (\<lambda>c.
                bindC (read_clock env) (\<lambda>later.
                bindC (on_store (consumeHumanConfirmation confirmationId (ti_requestId iv) later)) (\<lambda>used.
                  if used then retC c
                  else throwC (refuse CONFLICT CONFIRMATION_ALREADY_USED 409)))))))"

definition final_envelope_check ::
  "capability_env \<Rightarrow> capability_definition \<Rightarrow> string \<Rightarrow> js_value \<Rightarrow> trusted_invocation \<Rightarrow> requirement
     \<Rightarrow> human_confirmation option \<Rightarrow> (thrown, unit) result" where
  "final_envelope_check env d i input iv q confirmation =
     (if operation d = Mutation
      then case ti_mutation iv of
             None \<Rightarrow> Inl (refuse VALIDATION_ERROR MUTATION_METADATA_INVALID 400)
           | Some m \<Rightarrow>
               if ti_principalKind iv \<noteq> Some Pre_session_oidc
                  \<and> ti_principalKind iv \<noteq> Some Verified_refresh_credential
               then guardR (MutationCapabilityEnvelopeSchema (ce_views env)
                              (mutation_envelope_of i input iv m q confirmation)) invalid
               else Inr ()
      else if ti_mutation iv \<noteq> None then Inl (refuse VALIDATION_ERROR MUTATION_METADATA_INVALID 400)
      else guardR (QueryCapabilityEnvelopeSchema (ce_views env)
             \<lparr>en_capabilityId = i, en_actor = ti_actor iv, en_source = ti_source iv,
              en_scope = ti_scope iv, en_requestId = ti_requestId iv,
              en_serverTime = ti_serverTime iv, en_input = input\<rparr>) invalid)"

definition authorizeExecution ::
  "capability_env \<Rightarrow> 'd registration \<Rightarrow> capability_definition \<Rightarrow> js_value \<Rightarrow> trusted_invocation \<Rightarrow> requirement
     \<Rightarrow> ('d world, thrown, unit) comp" where
  "authorizeExecution env r d input iv q =
     bindC (liftR (assertInvocationAllowed env (rg_id r) iv)) (\<lambda>_.
     bindC (run_callback (rg_resolveFacilityId r input) iv) (\<lambda>facilityId.
     bindC (set_context (\<lambda>cx. cx\<lparr>cx_resolvedFacilityId := facilityId\<rparr>)) (\<lambda>_.
     bindC (guardC (scopeAllowsFacility (ti_scope iv) facilityId (rg_campusParticipation r))
              (refuse FORBIDDEN CAPABILITY_SCOPE_DENIED 403)) (\<lambda>_.
     bindC (if rq_actionIds q \<noteq> [] then bindC (confirm env (rg_id r) iv q) (\<lambda>c. retC (Some c))
            else if Option.bind (ti_mutation iv) mm_confirmationId \<noteq> None
            then throwC (refuse VALIDATION_ERROR CONFIRMATION_INVALID 400)
            else retC None) (\<lambda>confirmation.
     bindC (set_context (\<lambda>cx. cx\<lparr>cx_authorization := Some
              \<lparr>az_facilityId = facilityId, az_requirement = q, az_confirmation = confirmation\<rparr>\<rparr>)) (\<lambda>_.
     liftR (final_envelope_check env d (rg_id r) input iv q confirmation)))))))"

section \<open>The protected invocation of a handler\<close>

text \<open>The resolver that the engine hands to the contracts, and what they make of its answer.\<close>

definition resolve_safety ::
  "'d registration \<Rightarrow> js_value \<Rightarrow> js_value \<Rightarrow> trusted_invocation \<Rightarrow> ('d world, thrown, safety_resolution) comp" where
  "resolve_safety r input parsed iv =
     (case rg_resolveSafety r of
        None \<Rightarrow> throwC (refuse INTERNAL_ERROR MUTATION_METADATA_INVALID 500)
      | Some resolve \<Rightarrow>
          bindC (run_callback (rg_resolveFacilityId r input) iv) (\<lambda>facilityId.
          bindC (set_context (\<lambda>cx. cx\<lparr>cx_resolvedFacilityId := facilityId\<rparr>)) (\<lambda>_.
          bindC (guardC (scopeAllowsFacility (ti_scope iv) facilityId False)
                   (refuse FORBIDDEN CAPABILITY_SCOPE_DENIED 403)) (\<lambda>_.
          bindC (run_callback (resolve parsed) iv) (\<lambda>resolution.
          bindC (set_context (\<lambda>cx. cx\<lparr>cx_safetyResolution := Some resolution\<rparr>)) (\<lambda>_.
          retC resolution))))))"

definition resolveHumanActionRequirement ::
  "capability_env \<Rightarrow> 'd registration \<Rightarrow> capability_definition \<Rightarrow> js_value \<Rightarrow> js_value \<Rightarrow> trusted_invocation
     \<Rightarrow> ('d world, thrown, requirement) comp" where
  "resolveHumanActionRequirement env r d input parsed iv =
     bindC (liftR (parseCapabilityInput env (rg_id r) parsed)) (\<lambda>again.
       if humanActionPolicy d = Policy_none then retC no_requirement
       else if safetyEffect d = No_effect then throwC (Other_error ''no safety effect'')
       else bindC (resolve_safety r input again iv) (\<lambda>resolution.
         if \<not> CapabilitySafetyResolutionSchema resolution then throwC invalid
         else if sr_population resolution = Staff \<and> actor_kind (ti_actor iv) \<noteq> Human
         then throwC Staff_roster_error
         else let q = requirement_of (safetyEffect d) resolution
              in if HumanActionRequirementSchema q then retC q else throwC invalid))"

text \<open>Everything before the handler, and \<open>invokeAuthorizedCapabilityHandler\<close> as a whole.\<close>

definition authorize_handler ::
  "capability_env \<Rightarrow> 'd registration \<Rightarrow> capability_definition \<Rightarrow> js_value \<Rightarrow> trusted_invocation
     \<Rightarrow> ('d world, thrown, js_value) comp" where
  "authorize_handler env r d input iv =
     bindC (liftR (parseCapabilityInput env (rg_id r) input)) (\<lambda>parsed.
     bindC (if humanActionPolicy d = Policy_none then retC no_requirement
            else resolveHumanActionRequirement env r d input parsed iv) (\<lambda>q.
     bindC (authorizeExecution env r d input iv q) (\<lambda>_. retC parsed)))"

definition invokeAuthorizedCapabilityHandler ::
  "capability_env \<Rightarrow> 'd registration \<Rightarrow> capability_definition \<Rightarrow> js_value \<Rightarrow> trusted_invocation
     \<Rightarrow> ('d world, thrown, js_value) comp" where
  "invokeAuthorizedCapabilityHandler env r d input iv =
     bindC (authorize_handler env r d input iv) (\<lambda>parsed.
     bindC (run_callback (rg_handler r parsed) iv) (\<lambda>out.
     liftR (parseCapabilityOutput env (rg_id r) out)))"

section \<open>The transaction of a capability\<close>

datatype reservation = Replayed js_value | Reserved "nat option"

definition mutation_registration_ok :: "'d registration \<Rightarrow> bool" where
  "mutation_registration_ok r =
     (rg_resultReference r \<noteq> None \<and> rg_loadReplay r \<noteq> None \<and> rg_resolveReplayFacilityId r \<noteq> None
      \<and> rg_replayFacilityId r \<noteq> None)"

text \<open>The replay of a completed request.\<close>

definition replay ::
  "capability_env \<Rightarrow> 'd registration \<Rightarrow> capability_definition \<Rightarrow> trusted_invocation \<Rightarrow> string
     \<Rightarrow> ('d world, thrown, js_value) comp" where
  "replay env r d iv reference =
     bindC (run_callback (the (rg_resolveReplayFacilityId r) reference) iv) (\<lambda>facilityId.
     bindC (set_context (\<lambda>cx. cx\<lparr>cx_resolvedFacilityId := facilityId\<rparr>)) (\<lambda>_.
     bindC (guardC (scopeAllowsFacility (ti_scope iv) facilityId (rg_campusParticipation r))
              (refuse FORBIDDEN CAPABILITY_SCOPE_DENIED 403)) (\<lambda>_.
     bindC (run_callback (the (rg_loadReplay r) reference) iv) (\<lambda>loaded.
     bindC (liftR (parseCapabilityOutput env (rg_id r) loaded)) (\<lambda>out.
     bindC (guardC (the (rg_replayFacilityId r) out = facilityId)
              (refuse INTERNAL_ERROR IDEMPOTENCY_RESULT_UNAVAILABLE 500)) (\<lambda>_.
     bindC (if auditPolicy d = All_outcomes
            then on_store (appendCapabilityAudit env
                   (audit_event (execution_category iv) (rg_id r) [] None Audit_success iv facilityId None))
            else retC ()) (\<lambda>_.
     retC out)))))))"

definition request_digest :: "capability_env \<Rightarrow> 'd registration \<Rightarrow> js_value \<Rightarrow> digest" where
  "request_digest env r input =
     ce_requestDigest env (rg_id r)
       (case rg_canonicalize r of None \<Rightarrow> input | Some f \<Rightarrow> f input)"

definition reserve_mutation ::
  "capability_env \<Rightarrow> 'd registration \<Rightarrow> capability_definition \<Rightarrow> js_value \<Rightarrow> trusted_invocation
     \<Rightarrow> mutation_metadata \<Rightarrow> ('d world, thrown, reservation) comp" where
  "reserve_mutation env r d input iv m =
     (if rg_repositoryOwned r then retC (Reserved None)
      else if \<not> mutation_registration_ok r then throwC (refuse INTERNAL_ERROR IDEMPOTENCY_RESULT_UNAVAILABLE 500)
      else case IdempotencyKeySchema (mm_key m) of
        None \<Rightarrow> throwC invalid
      | Some key \<Rightarrow>
          bindC (on_store (claimSharedIdempotency (rg_id r) (ce_principalDigest env (ti_actor iv)) key
                   (request_digest env r input) (ti_serverTime iv))) (\<lambda>claim.
            case claim of
              Claim_new recordId \<Rightarrow> retC (Reserved (Some recordId))
            | Claim_in_progress dg \<Rightarrow>
                if dg \<noteq> request_digest env r input
                then throwC (refuse IDEMPOTENCY_CONFLICT IDEMPOTENCY_REQUEST_MISMATCH 409)
                else throwC (Engine_error \<lparr>ee_code = CONFLICT, ee_reason = IDEMPOTENCY_IN_PROGRESS,
                               ee_status = 409, ee_retryable = True\<rparr>)
            | Claim_failed dg _ \<Rightarrow>
                if dg \<noteq> request_digest env r input
                then throwC (refuse IDEMPOTENCY_CONFLICT IDEMPOTENCY_REQUEST_MISMATCH 409)
                else throwC (refuse CONFLICT IDEMPOTENCY_PREVIOUSLY_FAILED 409)
            | Claim_completed dg reference \<Rightarrow>
                if dg \<noteq> request_digest env r input
                then throwC (refuse IDEMPOTENCY_CONFLICT IDEMPOTENCY_REQUEST_MISMATCH 409)
                else bindC (replay env r d iv reference) (\<lambda>out. retC (Replayed out))))"

definition reserve ::
  "capability_env \<Rightarrow> 'd registration \<Rightarrow> capability_definition \<Rightarrow> js_value \<Rightarrow> trusted_invocation
     \<Rightarrow> ('d world, thrown, reservation) comp" where
  "reserve env r d input iv =
     (if operation d = Mutation
      then bindC (liftR (assertStaticMutationEnvelope env (rg_id r) input iv)) (\<lambda>_.
             case ti_mutation iv of
               None \<Rightarrow> throwC (refuse VALIDATION_ERROR MUTATION_METADATA_INVALID 400)
             | Some m \<Rightarrow> reserve_mutation env r d input iv m)
      else if ti_mutation iv \<noteq> None then throwC (refuse VALIDATION_ERROR MUTATION_METADATA_INVALID 400)
      else retC (Reserved None))"

definition complete_reservation ::
  "'d registration \<Rightarrow> capability_definition \<Rightarrow> trusted_invocation \<Rightarrow> nat option \<Rightarrow> js_value
     \<Rightarrow> ('d world, thrown, unit) comp" where
  "complete_reservation r d iv reserved out =
     (if operation d = Mutation \<and> \<not> rg_repositoryOwned r
      then if \<not> mutation_registration_ok r then throwC (refuse INTERNAL_ERROR IDEMPOTENCY_RESULT_UNAVAILABLE 500)
      else case reserved of
          None \<Rightarrow> throwC (refuse INTERNAL_ERROR IDEMPOTENCY_RESULT_UNAVAILABLE 500)
        | Some recordId \<Rightarrow>
            bindC get_context (\<lambda>cx.
              on_store (completeSharedIdempotency recordId (the (rg_resultReference r) out cx)
                (ti_serverTime iv)))
      else retC ())"

definition record_success ::
  "capability_env \<Rightarrow> 'd registration \<Rightarrow> capability_definition \<Rightarrow> trusted_invocation
     \<Rightarrow> ('d world, thrown, unit) comp" where
  "record_success env r d iv =
     (if auditPolicy d = All_outcomes
      then bindC get_context (\<lambda>cx.
           bindC (liftR (successAuditEvent (rg_id r) iv cx)) (\<lambda>event.
           on_store (appendCapabilityAudit env event)))
      else retC ())"

definition capability_body ::
  "capability_env \<Rightarrow> 'd registration \<Rightarrow> capability_definition \<Rightarrow> js_value \<Rightarrow> trusted_invocation
     \<Rightarrow> ('d world, thrown, js_value) comp" where
  "capability_body env r d input iv =
     bindC (liftR (assertInvocationAllowed env (rg_id r) iv)) (\<lambda>_.
     bindC (reserve env r d input iv) (\<lambda>reservation.
       case reservation of
         Replayed out \<Rightarrow> retC out
       | Reserved reserved \<Rightarrow>
           bindC (invokeAuthorizedCapabilityHandler env r d input iv) (\<lambda>out.
           bindC (complete_reservation r d iv reserved out) (\<lambda>_.
           bindC (record_success env r d iv) (\<lambda>_.
           retC out)))))"

text \<open>
  An error that a specialized repository asks to commit leaves the transaction as a value, so that
  the security response and its audit entry are kept.
\<close>

datatype run_outcome = Finished js_value | Committed_failure thrown

definition committed_disposition :: "'d registration \<Rightarrow> thrown \<Rightarrow> engine_error option" where
  "committed_disposition r e =
     (case rg_classify r e of
        Some (auditError, True) \<Rightarrow> if rg_repositoryOwned r then Some auditError else None
      | _ \<Rightarrow> None)"

definition capability_transaction ::
  "capability_env \<Rightarrow> 'd registration \<Rightarrow> capability_definition \<Rightarrow> js_value \<Rightarrow> trusted_invocation
     \<Rightarrow> ('d world, thrown, run_outcome) comp" where
  "capability_transaction env r d input iv =
     catchC (bindC (capability_body env r d input iv) (\<lambda>out. retC (Finished out)))
       (\<lambda>e. case committed_disposition r e of
              Some auditError \<Rightarrow>
                bindC get_context (\<lambda>cx.
                bindC (on_store (appendCapabilityAudit env (failureAuditEvent d (rg_id r) iv cx auditError))) (\<lambda>_.
                retC (Committed_failure e)))
            | None \<Rightarrow> throwC e)"

definition report_failure ::
  "capability_env \<Rightarrow> 'd registration \<Rightarrow> capability_definition \<Rightarrow> trusted_invocation \<Rightarrow> thrown
     \<Rightarrow> ('d world, thrown, 'a) comp" where
  "report_failure env r d iv e =
     (let disposition = rg_classify r e;
          engineError = (case disposition of Some (auditError, _) \<Rightarrow> auditError | None \<Rightarrow> errorForUnknownFailure e)
      in bindC get_context (\<lambda>cx.
         bindC (catchC (on_store (transactionC
                  (appendCapabilityAudit env (failureAuditEvent d (rg_id r) iv cx engineError))))
                (\<lambda>_. throwC (Engine_error \<lparr>ee_code = INTERNAL_ERROR, ee_reason = PERSISTENCE_CONFLICT,
                               ee_status = 500, ee_retryable = True\<rparr>))) (\<lambda>_.
         throwC (if disposition = None then Engine_error engineError else e))))"

definition executeAuditedCapabilityTransaction ::
  "capability_env \<Rightarrow> 'd registration \<Rightarrow> js_value \<Rightarrow> trusted_invocation \<Rightarrow> ('d world, thrown, js_value) comp" where
  "executeAuditedCapabilityTransaction env r raw iv =
     bindC (liftR (validateTrustedInvocation env iv)) (\<lambda>_.
     bindC (liftR (definition_of env (rg_id r))) (\<lambda>d.
     bindC (set_context (\<lambda>_. fresh_context)) (\<lambda>_.
     bindC (catchC
              (bindC (liftR (preflightCapabilityInvocation env (rg_id r) raw iv)) (\<lambda>input.
                 store_transaction (capability_transaction env r d input iv)))
              (report_failure env r d iv)) (\<lambda>outcome.
       case outcome of
         Finished out \<Rightarrow> retC out
       | Committed_failure e \<Rightarrow> throwC e))))"

end
