(* ===== verification/Capability_Guard.thy ===== *)
theory Capability_Guard
  imports Capability_Run Audit_Chain
begin

text \<open>
  What the engine guarantees of one run: a refused run leaves every table but the audit log as it
  was, every outcome reaches the audit log, and the handler runs only behind the guards.
\<close>

section \<open>Runs step by step\<close>

lemma liftR_simps [simp]: "liftR (Inr a) = retC a" "liftR (Inl e) = throwC e"
  by (simp_all add: liftR_def retC_def throwC_def fun_eq_iff)

lemma guardC_simps [simp]: "guardC True e = retC ()" "guardC False e = throwC e"
  by (simp_all add: guardC_def retC_def throwC_def fun_eq_iff)

lemma bindC_Inr_iff:
  "bindC m f w = (Inr b, w'') \<longleftrightarrow> (\<exists>a w'. m w = (Inr a, w') \<and> f a w' = (Inr b, w''))"
  by (auto simp: bindC_def split: prod.splits sum.splits)

lemma plain_Inr_iff:
  "retC a w = (Inr b, w') \<longleftrightarrow> b = a \<and> w' = w"
  "throwC e w = (Inr c, w') \<longleftrightarrow> False"
  "liftR r w = (Inr d, w') \<longleftrightarrow> r = Inr d \<and> w' = w"
  "guardC p e w = (Inr u, w') \<longleftrightarrow> p \<and> w' = w"
  by (auto simp: retC_def throwC_def liftR_def guardC_def)

lemma world_Inr_iff:
  "set_context f w = (Inr u, w') \<longleftrightarrow> w' = w\<lparr>w_context := f (w_context w)\<rparr>"
  "get_context w = (Inr cx, w') \<longleftrightarrow> cx = w_context w \<and> w' = w"
  "read_clock env w = (Inr t, w') \<longleftrightarrow> t = ce_clock env (w_ticks w) \<and> w' = w\<lparr>w_ticks := Suc (w_ticks w)\<rparr>"
  by (auto simp: set_context_def get_context_def read_clock_def)

lemmas run_Inr_iff = bindC_Inr_iff plain_Inr_iff world_Inr_iff

text \<open>Only the store of a refused transaction is taken back.\<close>

lemma store_transaction_Inl: "store_transaction m w = (Inl e, w') \<Longrightarrow> w_store w' = w_store w"
  by (auto simp: store_transaction_def split: prod.splits sum.splits)

lemma store_transaction_Inr: "store_transaction m w = (Inr a, w') \<longleftrightarrow> m w = (Inr a, w')"
  by (auto simp: store_transaction_def split: prod.splits sum.splits)

section \<open>A refused run changes nothing else\<close>

definition same_but_audit :: "'d engine_store \<Rightarrow> 'd engine_store \<Rightarrow> bool" where
  "same_but_audit s t = (t = s\<lparr>audit_log := audit_log t\<rparr>)"

lemma append_same_but_audit: "appendCapabilityAudit env f s = (r, t) \<Longrightarrow> same_but_audit s t"
  by (auto simp: appendCapabilityAudit_def same_but_audit_def split: prod.splits sum.splits)

lemma report_failure_result:
  assumes "report_failure env r d iv e w = (x, w')"
  shows "is_ok x = False" and "same_but_audit (w_store w) (w_store w')"
proof -
  have refl: "same_but_audit s s" for s :: "'d engine_store" by (simp add: same_but_audit_def)
  show "is_ok x = False"
    using assms
    by (auto simp: report_failure_def Let_def bindC_def get_context_def throwC_def split: prod.splits sum.splits)
  show "same_but_audit (w_store w) (w_store w')"
    using assms append_same_but_audit refl
    by (fastforce simp: report_failure_def Let_def bindC_def get_context_def throwC_def catchC_def
        on_store_def transactionC_def split: prod.splits sum.splits)
qed

text \<open>The result of a run, from the transaction or from the report of a failure.\<close>

lemma execute_cases:
  assumes "executeAuditedCapabilityTransaction env r raw iv w = (x, w')"
  obtains (invalid) e where "validateTrustedInvocation env iv = Inl e" "x = Inl e" "w' = w"
  | (unregistered) e where "validateTrustedInvocation env iv = Inr ()" "definition_of env (rg_id r) = Inl e" "x = Inl e" "w' = w"
  | (finished) d input out where "definition_of env (rg_id r) = Inr d"
      "preflightCapabilityInvocation env (rg_id r) raw iv = Inr input"
      "capability_transaction env r d input iv (w\<lparr>w_context := fresh_context\<rparr>) = (Inr (Finished out), w')"
      "x = Inr out"
  | (committed) d input e where "definition_of env (rg_id r) = Inr d"
      "preflightCapabilityInvocation env (rg_id r) raw iv = Inr input"
      "capability_transaction env r d input iv (w\<lparr>w_context := fresh_context\<rparr>) = (Inr (Committed_failure e), w')"
      "x = Inl e"
  | (refused) d e v e' where "validateTrustedInvocation env iv = Inr ()" "definition_of env (rg_id r) = Inr d"
      "w_store v = w_store w" "x = Inl e'"
      "report_failure env r d iv e v = (Inl e' :: (thrown, run_outcome) result, w')"
proof (cases "validateTrustedInvocation env iv")
  case (Inl e)
  then show thesis using assms invalid by (simp add: executeAuditedCapabilityTransaction_def throwC_def)
next
  case ok: (Inr u)
  show thesis
  proof (cases "definition_of env (rg_id r)")
    case (Inl e)
    then show thesis using assms ok unregistered by (simp add: executeAuditedCapabilityTransaction_def throwC_def)
  next
    case (Inr d)
    define w0 where "w0 = w\<lparr>w_context := fresh_context\<rparr>"
    note run = assms [unfolded executeAuditedCapabilityTransaction_def]
    show thesis
    proof (cases "preflightCapabilityInvocation env (rg_id r) raw iv")
      case (Inl e)
      obtain y :: "(thrown, run_outcome) result" and v where report: "report_failure env r d iv e w0 = (y, v)"
        by (cases "report_failure env r d iv e w0 :: (thrown, run_outcome) result \<times> _")
      then obtain e' where "y = Inl e'" using report_failure_result(1) [OF report] by (cases y) auto
      then have "x = Inl e'" "w' = v"
        using run ok Inr Inl report
        by (simp_all add: bindC_def set_context_def catchC_def throwC_def w0_def)
      then have "report_failure env r d iv e w0 = (Inl e' :: (thrown, run_outcome) result, w')"
        using report \<open>y = Inl e'\<close> by simp
      moreover have "w_store w0 = w_store w" by (simp add: w0_def)
      ultimately show thesis using refused ok Inr \<open>x = Inl e'\<close> by simp
    next
      case pre: (Inr input)
      obtain y v where tx: "store_transaction (capability_transaction env r d input iv) w0 = (y, v)"
        by (cases "store_transaction (capability_transaction env r d input iv) w0")
      show thesis
      proof (cases y)
        case (Inr outcome)
        have "(x, w') = (case outcome of Finished out \<Rightarrow> (Inr out, v) | Committed_failure e \<Rightarrow> (Inl e, v))"
          using run ok \<open>definition_of env (rg_id r) = Inr d\<close> pre tx Inr
          by (cases outcome) (simp_all add: bindC_def set_context_def catchC_def throwC_def retC_def w0_def)
        moreover have "capability_transaction env r d input iv w0 = (Inr outcome, v)"
          using tx Inr by (simp add: store_transaction_Inr)
        ultimately show thesis
          using \<open>definition_of env (rg_id r) = Inr d\<close> pre finished committed unfolding w0_def
          by (cases outcome) simp_all
      next
        case (Inl e)
        obtain z :: "(thrown, run_outcome) result" and u where report: "report_failure env r d iv e v = (z, u)"
          by (cases "report_failure env r d iv e v :: (thrown, run_outcome) result \<times> _")
        then obtain e' where "z = Inl e'" using report_failure_result(1) [OF report] by (cases z) auto
        then have "x = Inl e'" "w' = u"
          using run ok \<open>definition_of env (rg_id r) = Inr d\<close> pre tx Inl report
          by (simp_all add: bindC_def set_context_def catchC_def throwC_def w0_def)
        then have "report_failure env r d iv e v = (Inl e' :: (thrown, run_outcome) result, w')"
          using report \<open>z = Inl e'\<close> by simp
        moreover have "w_store v = w_store w" using store_transaction_Inl tx Inl by (fastforce simp: w0_def)
        ultimately show thesis using refused ok \<open>definition_of env (rg_id r) = Inr d\<close> \<open>x = Inl e'\<close> by simp
      qed
    qed
  qed
qed

text \<open>The transaction of a run: its body succeeded, or a specialized repository commits its failure.\<close>

lemma transaction_finished:
  "capability_transaction env r d input iv w = (Inr (Finished out), w')
     \<longleftrightarrow> capability_body env r d input iv w = (Inr out, w')"
  by (auto simp: capability_transaction_def catchC_def bindC_def retC_def throwC_def get_context_def
      split: prod.splits sum.splits option.splits)

lemma transaction_committed:
  assumes "capability_transaction env r d input iv w = (Inr (Committed_failure e), w')"
  obtains auditError v where "capability_body env r d input iv w = (Inl e, v)"
    "committed_disposition r e = Some auditError"
    "on_store (appendCapabilityAudit env (failureAuditEvent d (rg_id r) iv (w_context v) auditError)) v = (Inr (), w')"
  using assms
  by (auto simp: capability_transaction_def catchC_def bindC_def retC_def throwC_def get_context_def
      split: prod.splits sum.splits option.splits)

lemma committed_disposition_Some:
  "committed_disposition r e = Some auditError
     \<longleftrightarrow> rg_repositoryOwned r \<and> rg_classify r e = Some (auditError, True)"
  by (auto simp: committed_disposition_def split: option.splits prod.splits bool.splits if_splits)


section \<open>Every outcome reaches the audit log\<close>

definition recorded :: "audit_tables \<Rightarrow> audit_fact \<Rightarrow> bool" where
  "recorded st g =
     (\<exists>row \<in> set (rows st). \<exists>e. SecurityAuditEntrySchema row = Some e \<and> securityAuditFactFromEntry e = g)"

text \<open>
  An event is audited when a row carries it, in the canonical form of \<open>model.ts\<close>: its target is the
  capability that it names (or what the handler set, in the administration store, which also names
  its own category), the texts are trimmed and the identifiers in lower case. The administration
  store does not write a denial or a failure under a request identifier that has its entry already.
\<close>

definition canonical_event :: "audit_fact \<Rightarrow> audit_fact" where
  "canonical_event f = securityAuditFactFromEntry (trim_entry (validation_entry f))"

definition written_fact :: "capability_env \<Rightarrow> audit_fact \<Rightarrow> audit_fact" where
  "written_fact env event =
     (if ce_writer env = Admin_writer then admin_fact event (ce_target env event) else capability_fact event)"

definition audited_in :: "capability_env \<Rightarrow> audit_tables \<Rightarrow> audit_fact \<Rightarrow> bool" where
  "audited_in env st event =
     (recorded st (canonical_event (written_fact env event))
      \<or> ce_writer env = Admin_writer \<and> au_outcome event \<noteq> Audit_success
        \<and> lower_case (au_requestId event) \<in> au_requestId ` set (rows st))"

definition audited :: "capability_env \<Rightarrow> 'd world \<Rightarrow> audit_fact \<Rightarrow> bool" where
  "audited env w event = audited_in env (audit_log (w_store w)) event"

lemma insert_row_Inr: "insert_row references e st = (Inr u, st') \<Longrightarrow> rows st' = rows st @ [e]"
  by (auto simp: insert_row_def split: if_splits)

lemma parsed_canonical: "parseSecurityAuditFact aenv f = Inr g \<Longrightarrow> g = canonical_event f"
  by (auto simp: parse_fact_Inr canonical_event_def SecurityAuditEntrySchema_def Let_def split: if_splits)

lemma parse_again:
  assumes "parseSecurityAuditFact aenv f = Inr g" and "parseSecurityAuditFact aenv g = Inr g'"
  shows "g' = g"
proof -
  obtain p where "g' = securityAuditFactFromEntry p" "SecurityAuditEntrySchema (validation_entry g) = Some p"
    using assms(2) by (auto simp: parse_fact_Inr)
  moreover have "trim_entry (validation_entry g) = validation_entry g"
    using trim_entry_trimmed [OF parse_fact_facts(1) [OF assms(1)]] by (simp add: validation_entry_def)
  ultimately have "g' = securityAuditFactFromEntry (validation_entry g)"
    by (auto simp: SecurityAuditEntrySchema_def Let_def split: if_splits)
  then show ?thesis using parse_fact_facts(4) [OF assms(1)] by (simp add: validation_entry_def)
qed

text \<open>A built entry that is inserted records its fact.\<close>

lemma built_recorded:
  assumes "parseSecurityAuditFact aenv f = Inr g" and "buildSecurityAuditEntry aenv i g anchor = Inr e"
    and "e \<in> set (rows st)"
  shows "recorded st g"
proof -
  obtain g' where g': "parseSecurityAuditFact aenv g = Inr g'"
    using assms(2) by (auto simp: buildSecurityAuditEntry_def bindR_Inr_iff)
  show ?thesis
    using build_entry_facts(1,4) [OF g' assms(2)] parse_again [OF assms(1) g'] assms(3)
    by (auto simp: recorded_def)
qed

lemma bind_request_recorded:
  assumes "parseSecurityAuditFact aenv f = Inr g"
    and "bind_request references gen aenv rd g anchor st = (Inr e, st')"
    and "\<And>row x. rd row = Inr x \<Longrightarrow> SecurityAuditEntrySchema row = Some x"
  shows "recorded st' g"
proof (cases "find (\<lambda>r. au_requestId r = au_requestId g) (rows st)")
  case (Some row)
  then have "row \<in> set (rows st)" by (auto simp: find_Some_iff)
  then show ?thesis
    using assms(2,3) Some
    by (auto simp: bind_request_def recorded_def bindR_Inr_iff split: option.splits if_splits)
next
  case None
  then obtain st2 where built: "buildSecurityAuditEntry aenv (gen (idsDrawn st)) g anchor = Inr e"
    and ins: "insert_row references e (st\<lparr>idsDrawn := Suc (idsDrawn st)\<rparr>) = (Inr (), st2)" and st': "st' = st2"
    using assms(2) by (auto simp: bind_request_def split: sum.splits prod.splits)
  show ?thesis using built_recorded [OF assms(1) built] insert_row_Inr [OF ins] by (simp add: st')
qed

lemma appended_row:
  assumes "append_entry references gen build st = (Inr e, st')"
  shows "build (lower_case (gen (idsDrawn st))) (last_head st) = Inr e" and "uuid_columns e \<in> set (rows st')"
proof -
  show build: "build (lower_case (gen (idsDrawn st))) (last_head st) = Inr e"
    using assms by (auto simp: append_entry_def split: sum.splits prod.splits)
  have "insert_row references (uuid_columns e) (st\<lparr>idsDrawn := Suc (idsDrawn st)\<rparr>) = (Inr (), st')"
    using assms build by (auto simp: append_entry_def split: sum.splits prod.splits)
  from insert_row_Inr [OF this] show "uuid_columns e \<in> set (rows st')" by simp
qed

lemma columns_fact [simp]: "securityAuditFactFromEntry (uuid_columns e) = securityAuditFactFromEntry e"
  by (simp add: securityAuditFactFromEntry_def uuid_columns_def fact_of_def audit_fact.truncate_def
      option.map_comp comp_def)

lemma columns_schema:
  assumes "SecurityAuditEntrySchema row = Some e"
  shows "SecurityAuditEntrySchema (uuid_columns e) = Some (uuid_columns e)"
proof -
  have e: "trim_entry e = e" using assms by (auto simp: SecurityAuditEntrySchema_def Let_def split: if_splits)
  have "trim_entry (uuid_columns e) = uuid_columns (trim_entry e)" by (simp add: trim_entry_def uuid_columns_def)
  moreover have "pred_option uuid_ok (map_option lower_case x)" if "pred_option uuid_ok x" for x
    using that by (cases x) (auto simp: uuid_lower)
  ultimately show ?thesis
    using assms e
    by (auto simp: SecurityAuditEntrySchema_def Let_def uuid_columns_def audit_fields_ok_def
        audit_fact_consistent_def uuid_lower split: if_splits cong: audit_principal.case_cong)
qed

lemma direct_recorded:
  assumes "direct_append references gen aenv event st = (Inr e, st')"
  shows "recorded st' (canonical_event (capability_fact event))"
proof -
  note row = appended_row [OF assms [unfolded direct_append_def]]
  obtain i n q h where schema: "SecurityAuditEntrySchema (entry_of (payload_of (capability_fact event) i n q) h) = Some e"
    using row(1) by (auto simp: direct_entry_def Let_def split: option.splits)
  then have "e = trim_entry (entry_of (payload_of (capability_fact event) i n q) h)"
    by (auto simp: SecurityAuditEntrySchema_def Let_def split: if_splits)
  then have "securityAuditFactFromEntry e = canonical_event (capability_fact event)"
    by (simp add: canonical_event_def validation_entry_def securityAuditFactFromEntry_def trim_entry_def
        fact_of_def audit_fact.truncate_def entry_of_def payload_of_def)
  then have "securityAuditFactFromEntry (uuid_columns e) = canonical_event (capability_fact event)" by simp
  then show ?thesis using columns_schema [OF schema] row(2) unfolding recorded_def by blast
qed

lemma start_recorded:
  assumes "start_append references gen aenv event st = (Inr e, st')"
  shows "recorded st' (canonical_event (capability_fact event))"
proof -
  obtain g where g: "parseSecurityAuditFact aenv (capability_fact event) = Inr g"
    and run: "append_entry references gen (\<lambda>i. buildSecurityAuditEntry aenv i g) st = (Inr e, st')"
    using assms by (auto simp: start_append_def built_append_def bindC_Inr_iff plain_Inr_iff)
  note row = appended_row [OF run]
  have "uuid_columns e = e" using built_settled [OF row(1)] by (simp add: settled_entry_def)
  then show ?thesis using built_recorded [OF g row(1)] row(2) parsed_canonical [OF g] by simp
qed

lemma shared_recorded:
  assumes "appendSharedCapabilityAuditEntry references gen aenv event st = (Inr (), st')"
  shows "recorded st' (canonical_event (capability_fact event))"
proof -
  let ?rd = "\<lambda>row. case SecurityAuditEntrySchema row of None \<Rightarrow> Inl Audit_schema_refused | Some e \<Rightarrow> Inr e"
  obtain g e where g: "parseSecurityAuditFact aenv (capability_fact event) = Inr g"
    and bound: "bind_request references gen aenv ?rd g (last_option (ordered_anchors st)) st = (Inr e, st')"
    using assms by (auto simp: appendSharedCapabilityAuditEntry_def bindC_Inr_iff plain_Inr_iff capability_fact_def)
  have "recorded st' g" by (rule bind_request_recorded [OF g bound]) (auto split: option.splits)
  then show ?thesis using parsed_canonical [OF g] by simp
qed

lemma repository_recorded:
  assumes "repository_append references gen aenv f st = (Inr e, st')"
  shows "recorded st' (canonical_event f)"
proof -
  obtain g anchor where g: "parseSecurityAuditFact aenv f = Inr g"
    and bound: "bind_request references gen aenv (rowToEntry aenv) g anchor st = (Inr e, st')"
    using assms
    by (auto simp: repository_append_def bindC_Inr_iff plain_Inr_iff dest!: transactionC_Inr split: option.splits)
  have "recorded st' g"
    by (rule bind_request_recorded [OF g bound]) (auto simp: rowToEntry_def bindR_Inr_iff split: option.splits)
  then show ?thesis using parsed_canonical [OF g] by simp
qed

lemma admin_recorded:
  assumes "admin_append references gen aenv event target st = (Inr (), st')"
  shows "recorded st' (canonical_event (admin_fact event target))
    \<or> au_outcome event \<noteq> Audit_success \<and> lower_case (au_requestId event) \<in> au_requestId ` set (rows st')"
proof (cases "find (\<lambda>r. au_requestId r = lower_case (au_requestId event)) (rows st)")
  case (Some row)
  then have "row \<in> set (rows st)" "au_requestId row = lower_case (au_requestId event)" by (auto simp: find_Some_iff)
  then have "lower_case (au_requestId event) \<in> au_requestId ` set (rows st)" by (metis imageI)
  then show ?thesis
    using assms Some by (auto simp: admin_append_def Let_def split: if_splits)
next
  case None
  then obtain e where built: "buildSecurityAuditEntry aenv (lower_case (gen (idsDrawn st))) (admin_fact event target)
        (last_option (ordered_anchors st)) = Inr e"
    and ins: "insert_row references e (st\<lparr>idsDrawn := Suc (idsDrawn st)\<rparr>) = (Inr (), st')"
    using assms by (auto simp: admin_append_def Let_def split: if_splits sum.splits)
  obtain g where g: "parseSecurityAuditFact aenv (admin_fact event target) = Inr g"
    using built by (auto simp: buildSecurityAuditEntry_def bindR_Inr_iff)
  have "e \<in> set (rows st')" using insert_row_Inr [OF ins] by simp
  then have "recorded st' g" using build_entry_facts(1,4) [OF g built] by (auto simp: recorded_def)
  then show ?thesis using parsed_canonical [OF g] by simp
qed

lemma writer_audited: "writer_append env event st = (Inr (), st') \<Longrightarrow> audited_in env st' event"
  by (cases "ce_writer env")
     (auto simp: writer_append_def bindC_Inr_iff plain_Inr_iff audited_in_def written_fact_def
        dest!: shared_recorded direct_recorded start_recorded admin_recorded repository_recorded)

lemma append_audited:
  assumes "on_store (appendCapabilityAudit env event) w = (Inr (), w')"
  shows "audited env w' event"
proof -
  have "writer_append env event (audit_log (w_store w)) = (Inr (), audit_log (w_store w'))"
    using assms by (auto simp: on_store_def appendCapabilityAudit_def split: prod.splits sum.splits)
  then show ?thesis unfolding audited_def by (rule writer_audited)
qed

text \<open>The report of a failure either records it or says that the evidence was lost.\<close>

definition evidence_lost :: thrown where
  "evidence_lost =
     Engine_error \<lparr>ee_code = INTERNAL_ERROR, ee_reason = PERSISTENCE_CONFLICT, ee_status = 500, ee_retryable = True\<rparr>"

definition failure_audited ::
  "capability_env \<Rightarrow> 'd registration \<Rightarrow> trusted_invocation \<Rightarrow> 'd world \<Rightarrow> thrown \<Rightarrow> bool" where
  "failure_audited env r iv w e =
     (\<exists>auditError category ids facilityId.
        (e = Engine_error auditError \<or> (\<exists>b. rg_classify r e = Some (auditError, b)))
        \<and> audited env w (audit_event category (rg_id r) ids None
            (if ee_status auditError \<in> {401, 403} then Audit_denied else Audit_failure) iv facilityId
            (Some (reason_text (ee_reason auditError)))))"

lemma failure_event_shape:
  "\<exists>category ids facilityId. failureAuditEvent d i iv cx e =
     audit_event category i ids None (if ee_status e \<in> {401, 403} then Audit_denied else Audit_failure)
       iv facilityId (Some (reason_text (ee_reason e)))"
  by (auto simp: failureAuditEvent_def Let_def)

lemma report_failure_audited:
  assumes "report_failure env r d iv e w = (Inl x, w')"
  shows "failure_audited env r iv w' x
    \<or> x = evidence_lost \<and> (\<exists>cx auditError y s. appendCapabilityAudit env
           (failureAuditEvent d (rg_id r) iv cx auditError) (w_store w) = (Inl y, s))"
proof -
  define ae where "ae = (case rg_classify r e of Some (a, _) \<Rightarrow> a | None \<Rightarrow> errorForUnknownFailure e)"
  define event where "event = failureAuditEvent d (rg_id r) iv (w_context w) ae"
  obtain y s where run: "appendCapabilityAudit env event (w_store w) = (y, s)"
    by (cases "appendCapabilityAudit env event (w_store w)")
  show ?thesis
  proof (cases y)
    case (Inl z)
    then have "x = evidence_lost"
      using assms run
      by (simp add: report_failure_def bindC_def get_context_def catchC_def on_store_def transactionC_def
          throwC_def evidence_lost_def flip: ae_def event_def)
    then show ?thesis using run Inl by (auto simp: event_def)
  next
    case (Inr u)
    then have x: "x = (if rg_classify r e = None then Engine_error ae else e)"
      and w': "on_store (appendCapabilityAudit env event) w = (Inr (), w')"
      using assms run Inr
      by (simp_all add: report_failure_def bindC_def get_context_def catchC_def on_store_def transactionC_def
          throwC_def flip: ae_def event_def)
    have "x = Engine_error ae \<or> (\<exists>b. rg_classify r x = Some (ae, b))"
      using x by (auto simp: ae_def)
    moreover obtain category ids facilityId where "event = audit_event category (rg_id r) ids None
        (if ee_status ae \<in> {401, 403} then Audit_denied else Audit_failure)
        iv facilityId (Some (reason_text (ee_reason ae)))"
      using failure_event_shape unfolding event_def by blast
    ultimately show ?thesis using append_audited [OF w'] unfolding failure_audited_def by metis
  qed
qed

lemma committed_audited:
  assumes "capability_transaction env r d input iv w = (Inr (Committed_failure e), w')"
  shows "failure_audited env r iv w' e"
proof -
  obtain ae v where "committed_disposition r e = Some ae"
    and app: "on_store (appendCapabilityAudit env (failureAuditEvent d (rg_id r) iv (w_context v) ae)) v = (Inr (), w')"
    using transaction_committed [OF assms] .
  then have "rg_classify r e = Some (ae, True)" by (simp add: committed_disposition_Some)
  then show ?thesis
    using append_audited [OF app] failure_event_shape [of d "rg_id r" iv "w_context v" ae]
    unfolding failure_audited_def by metis
qed

text \<open>A run that returns has appended its success as the last thing it did.\<close>

definition success_audited :: "capability_env \<Rightarrow> string \<Rightarrow> trusted_invocation \<Rightarrow> 'd world \<Rightarrow> bool" where
  "success_audited env i iv w =
     (\<exists>ids confirmationId facilityId. audited env w
        (audit_event (execution_category iv) i ids confirmationId Audit_success iv facilityId None))"

lemma replay_audited:
  assumes "replay env r d iv reference w = (Inr out, w')" and "auditPolicy d = All_outcomes"
  shows "success_audited env (rg_id r) iv w'"
  using assms by (auto simp: replay_def run_Inr_iff success_audited_def dest!: append_audited)

lemma reserve_mutationD:
  assumes "reserve env r d input iv w = (Inr x, w')" and "operation d = Mutation" and "\<not> rg_repositoryOwned r"
  obtains m k claim v where "ti_mutation iv = Some m" "IdempotencyKeySchema (mm_key m) = Some k"
    "mutation_registration_ok r"
    "on_store (claimSharedIdempotency (rg_id r) (ce_principalDigest env (ti_actor iv)) k
       (request_digest env r input) (ti_serverTime iv)) w = (Inr claim, v)"
    "(\<exists>n. claim = Claim_new n \<and> x = Reserved (Some n) \<and> w' = v)
     \<or> (\<exists>reference out. claim = Claim_completed (request_digest env r input) reference
          \<and> x = Replayed out \<and> replay env r d iv reference v = (Inr out, w'))"
proof -
  obtain m where m: "ti_mutation iv = Some m" and run: "reserve_mutation env r d input iv m w = (Inr x, w')"
    using assms by (auto simp: reserve_def run_Inr_iff split: option.splits)
  obtain k where k: "IdempotencyKeySchema (mm_key m) = Some k" and ok: "mutation_registration_ok r"
    using run assms(3) by (auto simp: reserve_mutation_def plain_Inr_iff split: if_splits option.splits)
  note run = run [unfolded reserve_mutation_def, simplified assms(3) ok k if_False if_True option.case not_True_eq_False]
  obtain claim v where claim: "on_store (claimSharedIdempotency (rg_id r) (ce_principalDigest env (ti_actor iv)) k
       (request_digest env r input) (ti_serverTime iv)) w = (Inr claim, v)"
    using run by (auto simp: bindC_Inr_iff)
  have "(\<exists>n. claim = Claim_new n \<and> x = Reserved (Some n) \<and> w' = v)
     \<or> (\<exists>reference out. claim = Claim_completed (request_digest env r input) reference
          \<and> x = Replayed out \<and> replay env r d iv reference v = (Inr out, w'))"
    using run claim by (cases claim) (auto simp: run_Inr_iff split: if_splits)
  then show thesis using that m k ok claim by blast
qed

lemma reserve_replayed:
  assumes "reserve env r d input iv w = (Inr (Replayed out), w')"
  obtains reference v where "replay env r d iv reference v = (Inr out, w')"
proof -
  have "operation d = Mutation" "\<not> rg_repositoryOwned r"
    using assms by (auto simp: reserve_def reserve_mutation_def run_Inr_iff split: if_splits option.splits)
  from assms this show thesis by (rule reserve_mutationD) (use that in auto)
qed

lemma body_audited:
  assumes "capability_body env r d input iv w = (Inr out, w')" and "auditPolicy d = All_outcomes"
  shows "success_audited env (rg_id r) iv w'"
proof -
  obtain reservation v where v: "reserve env r d input iv w = (Inr reservation, v)"
    and rest: "(case reservation of Replayed out \<Rightarrow> retC out
       | Reserved reserved \<Rightarrow>
           bindC (invokeAuthorizedCapabilityHandler env r d input iv) (\<lambda>out.
           bindC (complete_reservation r d iv reserved out) (\<lambda>_.
           bindC (record_success env r d iv) (\<lambda>_. retC out)))) v = (Inr out, w')"
    using assms(1) by (auto simp: capability_body_def run_Inr_iff)
  show ?thesis
  proof (cases reservation)
    case (Replayed out')
    then show ?thesis using rest v assms(2) replay_audited by (auto simp: run_Inr_iff elim!: reserve_replayed)
  next
    case (Reserved reserved)
    then obtain u where "record_success env r d iv u = (Inr (), w')"
      using rest by (auto simp: run_Inr_iff)
    then show ?thesis
      using assms(2)
      by (auto simp: record_success_def run_Inr_iff successAuditEvent_def success_audited_def
          split: option.splits dest!: append_audited)
  qed
qed

text \<open>C11: an invocation that is malformed (one without a well-formed
  idempotency key, say) is refused before the audited part of a run, with nothing changed and nothing
  audited. Every other run of a capability that audits every outcome returns only with a successful
  entry for this request in the audit log, and fails only with a denied or failed entry that carries
  the reason of the error, unless that entry itself was refused; then the caller is told that the
  evidence could not be recorded. It holds for each of the five writers of the stores; the one of
  the administration store does not repeat a denial or failure whose request has its entry already.\<close>

theorem capability_outcome_audited:
  assumes "definition_of env (rg_id r) = Inr d" and "auditPolicy d = All_outcomes"
    and "executeAuditedCapabilityTransaction env r raw iv w = (x, w')"
  shows "(case validateTrustedInvocation env iv of
    Inl refused \<Rightarrow> x = Inl refused \<and> w' = w
  | Inr _ \<Rightarrow> case x of
      Inr out \<Rightarrow> success_audited env (rg_id r) iv w'
    | Inl e \<Rightarrow> failure_audited env r iv w' e
        \<or> e = evidence_lost \<and> (\<exists>cx auditError y s. appendCapabilityAudit env
               (failureAuditEvent d (rg_id r) iv cx auditError) (w_store w) = (Inl y, s)))"
proof (cases "validateTrustedInvocation env iv")
  case (Inl e)
  then show ?thesis using assms(3) by (auto simp: executeAuditedCapabilityTransaction_def throwC_def)
next
  case valid: (Inr u)
  from assms(3) show ?thesis
  proof (cases rule: execute_cases)
    case (finished d' input out)
    then show ?thesis using body_audited assms(1,2) valid by (fastforce simp: transaction_finished)
  next
    case (committed d' input e)
    then show ?thesis using committed_audited [OF committed(3)] valid by simp
  next
    case (refused d' e v e')
    then have "d' = d" using assms(1) by simp
    then show ?thesis using refused report_failure_audited [of env r d iv e v e' w'] valid by simp
  qed (use assms valid in simp_all)
qed

end
