(* ===== verification/Capability_Confirm.thy ===== *)
theory Capability_Confirm
  imports Capability_Guard
begin

text \<open>
  The guards before a handler. That a handler was reached is expressed without naming it: two runs
  that differ in nothing but the handler and come out differently.
\<close>

section \<open>Reaching the handler\<close>

lemma other_handler [simp]:
  "request_digest env (r\<lparr>rg_handler := h\<rparr>) = request_digest env r"
  "reserve env (r\<lparr>rg_handler := h\<rparr>) = reserve env r"
  "authorize_handler env (r\<lparr>rg_handler := h\<rparr>) = authorize_handler env r"
  "complete_reservation (r\<lparr>rg_handler := h\<rparr>) = complete_reservation r"
  "record_success env (r\<lparr>rg_handler := h\<rparr>) = record_success env r"
  "committed_disposition (r\<lparr>rg_handler := h\<rparr>) = committed_disposition r"
proof -
  show digest: "request_digest env (r\<lparr>rg_handler := h\<rparr>) = request_digest env r"
    by (rule ext) (simp add: request_digest_def)
  have "replay env (r\<lparr>rg_handler := h\<rparr>) = replay env r" by (intro ext) (simp add: replay_def cong: if_cong)
  then show "reserve env (r\<lparr>rg_handler := h\<rparr>) = reserve env r"
    by (intro ext) (simp add: reserve_def reserve_mutation_def mutation_registration_ok_def digest
        cong: if_cong option.case_cong idempotency_claim.case_cong)
  have "authorizeExecution env (r\<lparr>rg_handler := h\<rparr>) = authorizeExecution env r"
    "resolve_safety (r\<lparr>rg_handler := h\<rparr>) = resolve_safety r"
    by (intro ext; simp add: authorizeExecution_def resolve_safety_def cong: if_cong option.case_cong)+
  then show "authorize_handler env (r\<lparr>rg_handler := h\<rparr>) = authorize_handler env r"
    by (intro ext) (simp add: authorize_handler_def resolveHumanActionRequirement_def cong: if_cong)
  show "complete_reservation (r\<lparr>rg_handler := h\<rparr>) = complete_reservation r"
    "record_success env (r\<lparr>rg_handler := h\<rparr>) = record_success env r"
    by (intro ext; simp add: complete_reservation_def record_success_def mutation_registration_ok_def
        cong: if_cong option.case_cong)+
  show "committed_disposition (r\<lparr>rg_handler := h\<rparr>) = committed_disposition r"
    by (rule ext) (simp add: committed_disposition_def split: option.split prod.split bool.split)
qed

lemma other_handler_report [simp]:
  "report_failure env (r\<lparr>rg_handler := h\<rparr>) d iv e = (report_failure env r d iv e :: ('d world, thrown, 'a) comp)"
  by (rule ext) (simp add: report_failure_def)

lemma body_without_handler:
  assumes "\<And>reserved v parsed u. reserve env r d input iv w = (Inr (Reserved reserved), v)
      \<Longrightarrow> authorize_handler env r d input iv v \<noteq> (Inr parsed, u)"
  shows "capability_body env (r\<lparr>rg_handler := h\<rparr>) d input iv w = capability_body env r d input iv w"
proof (cases "assertInvocationAllowed env (rg_id r) iv")
  case (Inl e)
  then show ?thesis by (simp add: capability_body_def)
next
  case (Inr u)
  obtain x v where res: "reserve env r d input iv w = (x, v)" by (cases "reserve env r d input iv w")
  show ?thesis
  proof (cases "\<exists>reserved. x = Inr (Reserved reserved)")
    case False
    then show ?thesis
      using Inr res by (auto simp: capability_body_def bindC_def split: sum.splits reservation.splits)
  next
    case True
    then obtain e u where "authorize_handler env r d input iv v = (Inl e, u)"
      using assms res by (cases "authorize_handler env r d input iv v") (metis sum.exhaust)
    then have "invokeAuthorizedCapabilityHandler env (r\<lparr>rg_handler := h\<rparr>) d input iv v = (Inl e, u)"
      and "invokeAuthorizedCapabilityHandler env r d input iv v = (Inl e, u)"
      by (simp_all add: invokeAuthorizedCapabilityHandler_def bindC_def)
    then show ?thesis using True Inr res by (auto simp: capability_body_def bindC_def)
  qed
qed

lemma handler_reached:
  assumes "executeAuditedCapabilityTransaction env r raw iv w
    \<noteq> executeAuditedCapabilityTransaction env (r\<lparr>rg_handler := h\<rparr>) raw iv w"
  obtains d input reserved v parsed u where "definition_of env (rg_id r) = Inr d"
    "preflightCapabilityInvocation env (rg_id r) raw iv = Inr input"
    "reserve env r d input iv (w\<lparr>w_context := fresh_context\<rparr>) = (Inr (Reserved reserved), v)"
    "authorize_handler env r d input iv v = (Inr parsed, u)"
proof (rule ccontr)
  assume none: "\<not> thesis"
  note reached = that
  let ?r = "r\<lparr>rg_handler := h\<rparr>" and ?w = "w\<lparr>w_context := fresh_context\<rparr>"
  have "store_transaction (capability_transaction env ?r d input iv) ?w
      = store_transaction (capability_transaction env r d input iv) ?w"
    if "definition_of env (rg_id r) = Inr d" "preflightCapabilityInvocation env (rg_id r) raw iv = Inr input"
    for d input
  proof -
    have "capability_body env ?r d input iv ?w = capability_body env r d input iv ?w"
      using none that reached by (intro body_without_handler) blast
    then show ?thesis
      by (simp add: store_transaction_def capability_transaction_def catchC_def bindC_def
          cong: option.case_cong sum.case_cong prod.case_cong)
  qed
  then have "executeAuditedCapabilityTransaction env ?r raw iv w = executeAuditedCapabilityTransaction env r raw iv w"
    by (cases "validateTrustedInvocation env iv"; cases "definition_of env (rg_id r)";
        cases "preflightCapabilityInvocation env (rg_id r) raw iv")
       (simp_all add: executeAuditedCapabilityTransaction_def bindC_def set_context_def catchC_def
          cong: sum.case_cong prod.case_cong)
  then show False using assms by simp
qed

section \<open>What the guards establish\<close>

text \<open>The callbacks that run before the handler do not write the tables of the engine.\<close>

definition same_records :: "'d engine_store \<Rightarrow> 'd engine_store \<Rightarrow> bool" where
  "same_records s t =
     (idempotency t = idempotency s \<and> confirmations t = confirmations s \<and> audit_log t = audit_log s)"

definition leaves_records :: "('d, 'a) callback \<Rightarrow> bool" where
  "leaves_records f =
     (\<forall>iv cx s c x s' c'. f iv cx (s, c) = (x, (s', c')) \<longrightarrow> same_records s s')"

definition guards_leave_records :: "'d registration \<Rightarrow> bool" where
  "guards_leave_records r =
     ((\<forall>input. leaves_records (rg_resolveFacilityId r input))
      \<and> pred_option (\<lambda>f. \<forall>input. leaves_records (f input)) (rg_resolveSafety r)
      \<and> pred_option (\<lambda>f. \<forall>reference. leaves_records (f reference)) (rg_loadReplay r)
      \<and> pred_option (\<lambda>f. \<forall>reference. leaves_records (f reference)) (rg_resolveReplayFacilityId r))"

lemma same_records_refl [simp]: "same_records s s"
  and same_records_trans: "same_records s t \<Longrightarrow> same_records t u \<Longrightarrow> same_records s u"
  by (simp_all add: same_records_def)

lemma callback_records: "leaves_records f \<Longrightarrow> run_callback f iv w = (x, w') \<Longrightarrow> same_records (w_store w) (w_store w')"
  unfolding leaves_records_def by (auto simp: run_callback_def split: prod.splits) blast

lemma same_records_row: "same_records s t \<Longrightarrow> confirmation_row i t = confirmation_row i s"
  by (simp add: same_records_def confirmation_row_def)

lemma resolve_safetyD:
  assumes "resolve_safety r input parsed iv w = (Inr resolution, w')" and "guards_leave_records r"
  shows "same_records (w_store w) (w_store w')"
proof -
  obtain f facilityId w1 w2 where f: "rg_resolveSafety r = Some f"
    and one: "run_callback (rg_resolveFacilityId r input) iv w = (Inr facilityId, w1)"
    and two: "run_callback (f parsed) iv (w1\<lparr>w_context := (w_context w1)\<lparr>cx_resolvedFacilityId := facilityId\<rparr>\<rparr>) = (Inr resolution, w2)"
    and w': "w_store w' = w_store w2"
    using assms(1) by (auto simp: resolve_safety_def run_Inr_iff split: option.splits)
  have "leaves_records (f parsed)" "leaves_records (rg_resolveFacilityId r input)"
    using assms(2) f by (auto simp: guards_leave_records_def)
  then show "same_records (w_store w) (w_store w')"
    using callback_records [OF _ one] callback_records [OF _ two] w' same_records_trans by fastforce
qed

text \<open>
  The answer of the resolver in a run of the engine: the resolver is asked once, after the request
  was reserved, about the input that the contracts parsed, and its answer decides the requirement.
\<close>

definition handler_resolution ::
  "capability_env \<Rightarrow> 'd registration \<Rightarrow> js_value \<Rightarrow> trusted_invocation \<Rightarrow> 'd world \<Rightarrow> safety_resolution option" where
  "handler_resolution env r input iv w =
     (case bindC (liftR (parseCapabilityInput env (rg_id r) input)) (\<lambda>parsed.
           bindC (liftR (parseCapabilityInput env (rg_id r) parsed)) (\<lambda>again.
           resolve_safety r input again iv)) w of
        (Inr resolution, _) \<Rightarrow> Some resolution
      | _ \<Rightarrow> None)"

definition run_resolution ::
  "capability_env \<Rightarrow> 'd registration \<Rightarrow> js_value \<Rightarrow> trusted_invocation \<Rightarrow> 'd world \<Rightarrow> safety_resolution option" where
  "run_resolution env r raw iv w =
     (case (definition_of env (rg_id r), preflightCapabilityInvocation env (rg_id r) raw iv) of
        (Inr d, Inr input) \<Rightarrow>
          (case reserve env r d input iv (w\<lparr>w_context := fresh_context\<rparr>) of
             (Inr (Reserved _), v) \<Rightarrow> handler_resolution env r input iv v
           | _ \<Rightarrow> None)
      | _ \<Rightarrow> None)"

lemma resolve_requirementD:
  assumes "resolveHumanActionRequirement env r d input parsed iv w = (Inr q, w')" and "guards_leave_records r"
  shows "same_records (w_store w) (w_store w')"
    and "humanActionPolicy d = Policy_central \<Longrightarrow> \<exists>again resolution v.
      parseCapabilityInput env (rg_id r) parsed = Inr again
      \<and> resolve_safety r input again iv w = (Inr resolution, v)
      \<and> (sr_population resolution = Staff \<longrightarrow> actor_kind (ti_actor iv) = Human)
      \<and> q = requirement_of (safetyEffect d) resolution"
proof -
  note run = assms(1) [unfolded resolveHumanActionRequirement_def run_Inr_iff]
  show "same_records (w_store w) (w_store w')"
    using run resolve_safetyD(1) [OF _ assms(2)]
    by (cases "humanActionPolicy d = Policy_none"; cases "safetyEffect d = No_effect")
       (auto simp: run_Inr_iff Let_def split: if_splits)
  assume "humanActionPolicy d = Policy_central"
  then show "\<exists>again resolution v. parseCapabilityInput env (rg_id r) parsed = Inr again
      \<and> resolve_safety r input again iv w = (Inr resolution, v)
      \<and> (sr_population resolution = Staff \<longrightarrow> actor_kind (ti_actor iv) = Human)
      \<and> q = requirement_of (safetyEffect d) resolution"
    using run by (auto simp: run_Inr_iff Let_def split: if_splits)
qed

text \<open>The confirmation that \<open>confirm\<close> consumed: who holds it and where it was before.\<close>

lemma confirmD:
  assumes "confirm env i iv q w = (Inr c, w')"
  obtains m cid row now later where "actor_kind (ti_actor iv) = Human" "ti_mutation iv = Some m"
    "mm_confirmationId m = Some cid" "confirmation_row cid (w_store w) = Some row"
    "HumanConfirmationRecordSchema row" "validateConfirmation row iv i q now = Inr c"
    "consumeHumanConfirmation cid (ti_requestId iv) later (w_store w) = (Inr True, w_store w')"
    "w_context w' = w_context w"
proof -
  obtain cid where cid: "Option.bind (ti_mutation iv) mm_confirmationId = Some cid"
    and human: "actor_kind (ti_actor iv) = Human"
    using assms by (auto simp: confirm_def plain_Inr_iff split: if_splits option.splits)
  then obtain m where m: "ti_mutation iv = Some m" "mm_confirmationId m = Some cid" by (auto simp: bind_eq_Some_conv)
  note run = assms [unfolded confirm_def, simplified human cid, simplified]
  obtain row where row: "confirmation_row cid (w_store w) = Some row" "HumanConfirmationRecordSchema row"
    using run
    by (auto simp: run_Inr_iff on_store_def getHumanConfirmation_def split: option.splits if_splits prod.splits)
  then show thesis
    using run human m that
    by (auto simp: run_Inr_iff on_store_def getHumanConfirmation_def split: prod.splits if_splits)
qed

lemma validateConfirmationD:
  assumes "validateConfirmation row iv i q now = Inr c"
  shows "c = cr_confirmation row" and "cr_status row = Issued"
    and "ti_actor iv = Human_actor (hc_user c) (hc_session c)" and "hc_capabilityId c = i"
    and "ti_epoch iv = Some (hc_epoch c)" and "rq_digest q = Some (hc_digest c)"
    and "mset (hc_actionIds c) = mset (rq_actionIds q)" and "hc_issuedAt c \<le> now \<and> now \<le> hc_expiresAt c"
proof -
  show c: "c = cr_confirmation row" and "cr_status row = Issued" "hc_capabilityId c = i"
    "hc_issuedAt c \<le> now \<and> now \<le> hc_expiresAt c"
    "ti_actor iv = Human_actor (hc_user c) (hc_session c)"
    "ti_epoch iv = Some (hc_epoch c)" "rq_digest q = Some (hc_digest c)"
    using assms by (auto simp: validateConfirmation_def Let_def split: if_splits actor.splits)
  have "sort (hc_actionIds c) = sort (rq_actionIds q)"
    using assms c by (auto simp: validateConfirmation_def Let_def sameStrings_def split: if_splits)
  then show "mset (hc_actionIds c) = mset (rq_actionIds q)" by (metis mset_sort)
qed

lemma authorizeExecutionD:
  assumes "authorizeExecution env r d input iv q w = (Inr (), w')" and "guards_leave_records r"
  obtains facilityId v where "assertInvocationAllowed env (rg_id r) iv = Inr ()"
    "scopeAllowsFacility (ti_scope iv) facilityId (rg_campusParticipation r)"
    "same_records (w_store w) (w_store v)"
    "(rq_actionIds q = [] \<and> w_store w' = w_store v
        \<and> cx_authorization (w_context w') = Some \<lparr>az_facilityId = facilityId, az_requirement = q, az_confirmation = None\<rparr>)
     \<or> (rq_actionIds q \<noteq> [] \<and> (\<exists>c u. confirm env (rg_id r) iv q v = (Inr c, u) \<and> w_store w' = w_store u
        \<and> cx_authorization (w_context w') = Some \<lparr>az_facilityId = facilityId, az_requirement = q, az_confirmation = Some c\<rparr>))"
proof -
  obtain facilityId w1 where allowed: "assertInvocationAllowed env (rg_id r) iv = Inr ()"
    and one: "run_callback (rg_resolveFacilityId r input) iv w = (Inr facilityId, w1)"
    and scope: "scopeAllowsFacility (ti_scope iv) facilityId (rg_campusParticipation r)"
    and rest: "bindC (if rq_actionIds q \<noteq> [] then bindC (confirm env (rg_id r) iv q) (\<lambda>c. retC (Some c))
            else if Option.bind (ti_mutation iv) mm_confirmationId \<noteq> None
            then throwC (refuse VALIDATION_ERROR CONFIRMATION_INVALID 400)
            else retC None) (\<lambda>confirmation.
         bindC (set_context (\<lambda>cx. cx\<lparr>cx_authorization := Some
              \<lparr>az_facilityId = facilityId, az_requirement = q, az_confirmation = confirmation\<rparr>\<rparr>)) (\<lambda>_.
         liftR (final_envelope_check env d (rg_id r) input iv q confirmation)))
       (w1\<lparr>w_context := (w_context w1)\<lparr>cx_resolvedFacilityId := facilityId\<rparr>\<rparr>) = (Inr (), w')"
    using assms(1) by (auto simp: authorizeExecution_def run_Inr_iff)
  have "same_records (w_store w) (w_store (w1\<lparr>w_context := (w_context w1)\<lparr>cx_resolvedFacilityId := facilityId\<rparr>\<rparr>))"
    using callback_records [OF _ one] assms(2) by (simp add: guards_leave_records_def)
  then show thesis
    using that allowed scope rest
    by (cases "rq_actionIds q = []") (fastforce simp: run_Inr_iff split: if_splits)+
qed

lemma authorize_handlerD:
  assumes "authorize_handler env r d input iv w = (Inr parsed, w')" and "guards_leave_records r"
  obtains q v where "same_records (w_store w) (w_store v)" "authorizeExecution env r d input iv q v = (Inr (), w')"
    "humanActionPolicy d = Policy_none \<and> q = no_requirement
     \<or> humanActionPolicy d = Policy_central
       \<and> (\<exists>resolution. handler_resolution env r input iv w = Some resolution
         \<and> (sr_population resolution = Staff \<longrightarrow> actor_kind (ti_actor iv) = Human)
         \<and> q = requirement_of (safetyEffect d) resolution)"
proof -
  obtain q v where parse: "parseCapabilityInput env (rg_id r) input = Inr parsed"
    and q: "(if humanActionPolicy d = Policy_none then retC no_requirement
      else resolveHumanActionRequirement env r d input parsed iv) w = (Inr q, v)"
    and auth: "authorizeExecution env r d input iv q v = (Inr (), w')"
    using assms(1) by (auto simp: authorize_handler_def run_Inr_iff)
  show thesis
  proof (cases "humanActionPolicy d")
    case Policy_none
    then show thesis using q auth that [of v q] by (auto simp: plain_Inr_iff)
  next
    case Policy_central
    then have "resolveHumanActionRequirement env r d input parsed iv w = (Inr q, v)" using q by simp
    note facts = resolve_requirementD [OF this assms(2)]
    have "\<exists>resolution. handler_resolution env r input iv w = Some resolution
        \<and> (sr_population resolution = Staff \<longrightarrow> actor_kind (ti_actor iv) = Human)
        \<and> q = requirement_of (safetyEffect d) resolution"
      using facts(2) [OF Policy_central] parse by (auto simp: handler_resolution_def bindC_def retC_def)
    then show thesis using that [OF facts(1) auth] Policy_central by blast
  qed
qed

text \<open>A confirmation reviewed by the caller: the same session, consequence and protected actions.\<close>

definition reviewed_by_caller ::
  "human_confirmation \<Rightarrow> trusted_invocation \<Rightarrow> string \<Rightarrow> requirement \<Rightarrow> bool" where
  "reviewed_by_caller c iv i q =
     (ti_actor iv = Human_actor (hc_user c) (hc_session c) \<and> hc_capabilityId c = i
      \<and> ti_epoch iv = Some (hc_epoch c) \<and> rq_digest q = Some (hc_digest c)
      \<and> mset (hc_actionIds c) = mset (rq_actionIds q))"

lemma reserved_keeps_confirmations:
  assumes "reserve env r d input iv w = (Inr (Reserved reserved), v)"
  shows "confirmations (w_store v) = confirmations (w_store w) \<and> audit_log (w_store v) = audit_log (w_store w)"
proof (cases "operation d = Mutation \<and> \<not> rg_repositoryOwned r")
  case True
  with assms show ?thesis
    by (auto elim!: reserve_mutationD simp: on_store_def claimSharedIdempotency_def split: option.splits prod.splits)
next
  case False
  with assms show ?thesis
    by (auto simp: reserve_def reserve_mutation_def run_Inr_iff split: if_splits option.splits)
qed

text \<open>C3: the handler of a capability runs only behind the guards. If
  exchanging it changes anything about a run, then the caller and the surface are ones the catalog
  admits; and for a protected capability the resolver answered in this run, that is on the input the
  contracts parsed and in the state after the reservation. By that answer the caller is a human when
  the roster is staff; and when the execution needs protected actions, the caller holds a
  confirmation, issued and unused before the run, that reviewed exactly this capability, the actions
  and the consequence of that answer, and this session.\<close>

theorem protected_handler_guarded:
  assumes "executeAuditedCapabilityTransaction env r raw iv w
      \<noteq> executeAuditedCapabilityTransaction env (r\<lparr>rg_handler := h\<rparr>) raw iv w"
    and "guards_leave_records r"
  shows "\<exists>d. definition_of env (rg_id r) = Inr d
    \<and> invoking_kind iv \<in> set (principalKinds (invocation d)) \<and> ti_source iv \<in> set (sources (invocation d))
    \<and> (humanActionPolicy d = Policy_central \<longrightarrow>
        (\<exists>resolution. run_resolution env r raw iv w = Some resolution
          \<and> (sr_population resolution = Staff \<longrightarrow> actor_kind (ti_actor iv) = Human)
          \<and> (deriveHumanOnlyActionIds (safetyEffect d) resolution \<noteq> [] \<longrightarrow>
              (\<exists>m cid row. ti_mutation iv = Some m \<and> mm_confirmationId m = Some cid
                 \<and> confirmation_row cid (w_store w) = Some row \<and> cr_status row = Issued
                 \<and> reviewed_by_caller (cr_confirmation row) iv (rg_id r)
                     (requirement_of (safetyEffect d) resolution)))))"
proof -
  obtain d input reserved v parsed u where d: "definition_of env (rg_id r) = Inr d"
    and pre: "preflightCapabilityInvocation env (rg_id r) raw iv = Inr input"
    and res: "reserve env r d input iv (w\<lparr>w_context := fresh_context\<rparr>) = (Inr (Reserved reserved), v)"
    and auth: "authorize_handler env r d input iv v = (Inr parsed, u)"
    using handler_reached [OF assms(1)] .
  have start: "confirmations (w_store v) = confirmations (w_store w)"
    using reserved_keeps_confirmations [OF res] by simp
  obtain q v1 where same: "same_records (w_store v) (w_store v1)"
    and exec: "authorizeExecution env r d input iv q v1 = (Inr (), u)"
    and q: "humanActionPolicy d = Policy_none \<and> q = no_requirement
     \<or> humanActionPolicy d = Policy_central
       \<and> (\<exists>resolution. handler_resolution env r input iv v = Some resolution
         \<and> (sr_population resolution = Staff \<longrightarrow> actor_kind (ti_actor iv) = Human)
         \<and> q = requirement_of (safetyEffect d) resolution)"
    using authorize_handlerD [OF auth assms(2)] .
  obtain facilityId v2 where allowed: "assertInvocationAllowed env (rg_id r) iv = Inr ()"
    and same2: "same_records (w_store v1) (w_store v2)"
    and confirmed: "rq_actionIds q \<noteq> [] \<Longrightarrow> \<exists>c u. confirm env (rg_id r) iv q v2 = (Inr c, u)"
    using authorizeExecutionD [OF exec assms(2)] by metis
  have row: "\<exists>m cid row. ti_mutation iv = Some m \<and> mm_confirmationId m = Some cid
      \<and> confirmation_row cid (w_store w) = Some row \<and> cr_status row = Issued
      \<and> reviewed_by_caller (cr_confirmation row) iv (rg_id r) q" if "rq_actionIds q \<noteq> []"
  proof -
    obtain c u' where "confirm env (rg_id r) iv q v2 = (Inr c, u')" using confirmed \<open>rq_actionIds q \<noteq> []\<close> by blast
    then obtain m cid row now where "ti_mutation iv = Some m" "mm_confirmationId m = Some cid"
      "confirmation_row cid (w_store v2) = Some row" "validateConfirmation row iv (rg_id r) q now = Inr c"
      by (rule confirmD)
    moreover have "confirmations (w_store v2) = confirmations (w_store w)"
      using same same2 start by (simp add: same_records_def)
    ultimately show ?thesis
      using validateConfirmationD [of row iv "rg_id r" q now c]
      by (auto simp: confirmation_row_def reviewed_by_caller_def)
  qed
  have "invoking_kind iv \<in> set (principalKinds (invocation d)) \<and> ti_source iv \<in> set (sources (invocation d))"
    using allowed d by (simp add: assertInvocationAllowed_def Let_def)
  moreover have "rq_actionIds (requirement_of (safetyEffect d) resolution) = deriveHumanOnlyActionIds (safetyEffect d) resolution"
    for resolution by (simp add: requirement_of_def Let_def)
  moreover have "run_resolution env r raw iv w = handler_resolution env r input iv v"
    by (simp add: run_resolution_def d pre res)
  ultimately show ?thesis using d q row by fastforce
qed

end
