(* ===== verification/Capability_Records.thy ===== *)
theory Capability_Records
  imports Capability_Confirm
begin

text \<open>
  The engine over many runs: a confirmation stands behind at most one successful entry of the audit
  log, and a completed idempotency key never reaches a handler again.
\<close>

section \<open>What a run may do to the records\<close>

definition distinct_confirmations :: "'d engine_store \<Rightarrow> bool" where
  "distinct_confirmations s = distinct (map (\<lambda>r. hc_id (cr_confirmation r)) (confirmations s))"

text \<open>Consumed confirmations stay, and idempotency rows are only added.\<close>

definition progresses :: "'d engine_store \<Rightarrow> 'd engine_store \<Rightarrow> bool" where
  "progresses s t =
     ((distinct_confirmations s \<longrightarrow> distinct_confirmations t)
      \<and> (\<forall>row \<in> set (confirmations s). cr_status row = Consumed \<longrightarrow> row \<in> set (confirmations t))
      \<and> audit_log t = audit_log s)"

lemma progresses_refl [simp]: "progresses s s"
  and progresses_trans: "progresses s t \<Longrightarrow> progresses t u \<Longrightarrow> progresses s u"
  by (auto simp: progresses_def)

definition handler_respects :: "('d, 'a) callback \<Rightarrow> bool" where
  "handler_respects f =
     (\<forall>iv cx s c x s' c'. f iv cx (s, c) = (x, (s', c')) \<longrightarrow>
        progresses s s' \<and> (\<exists>new. idempotency s' = idempotency s @ new))"

definition lawful :: "'d registration \<Rightarrow> bool" where
  "lawful r = (guards_leave_records r \<and> (\<forall>input. handler_respects (rg_handler r input)))"

lemma leaves_records_respects: "leaves_records f \<Longrightarrow> handler_respects f"
  unfolding leaves_records_def handler_respects_def same_records_def progresses_def distinct_confirmations_def
  by (metis append_Nil2)

text \<open>A computation that appends no audit entry and sets no authorization.\<close>

definition quiet :: "('d world, thrown, 'a) comp \<Rightarrow> bool" where
  "quiet m = (\<forall>w x w'. m w = (x, w') \<longrightarrow>
     progresses (w_store w) (w_store w') \<and> cx_authorization (w_context w') = cx_authorization (w_context w))"

lemma quiet_plain [simp, intro!]: "quiet (retC a)" "quiet (throwC e)" "quiet (liftR y)" "quiet (guardC b e)"
  "quiet get_context" "quiet (read_clock env)"
  "quiet (set_context (\<lambda>cx. cx\<lparr>cx_resolvedFacilityId := facilityId\<rparr>))"
  "quiet (set_context (\<lambda>cx. cx\<lparr>cx_safetyResolution := resolution\<rparr>))"
  by (auto simp: quiet_def retC_def throwC_def liftR_def guardC_def get_context_def read_clock_def set_context_def)

lemma quiet_bindC [intro!]:
  assumes "quiet m" and "\<And>a. quiet (f a)"
  shows "quiet (bindC m f)"
  unfolding quiet_def
proof (intro allI impI)
  fix w x w'
  assume run: "bindC m f w = (x, w')"
  obtain y v where m: "m w = (y, v)" by (cases "m w")
  then have "progresses (w_store w) (w_store v)" "cx_authorization (w_context v) = cx_authorization (w_context w)"
    using assms(1) by (auto simp: quiet_def)
  then show "progresses (w_store w) (w_store w') \<and> cx_authorization (w_context w') = cx_authorization (w_context w)"
    using run m assms(2) progresses_trans by (cases y) (fastforce simp: bindC_def quiet_def)+
qed

lemma quiet_store:
  assumes "\<And>s x t. m s = (x, t) \<Longrightarrow> progresses s t"
  shows "quiet (on_store m)"
  using assms by (auto simp: quiet_def on_store_def split: prod.splits)

lemma quiet_callback: "handler_respects f \<Longrightarrow> quiet (run_callback f iv)"
  unfolding quiet_def run_callback_def handler_respects_def by (auto split: prod.splits)

lemma claim_progresses: "claimSharedIdempotency i p k d created s = (x, t) \<Longrightarrow> progresses s t"
  by (auto simp: claimSharedIdempotency_def progresses_def distinct_confirmations_def split: option.splits)

lemma complete_progresses: "completeSharedIdempotency n y ended s = (x, t) \<Longrightarrow> progresses s t"
  by (auto simp: completeSharedIdempotency_def progresses_def distinct_confirmations_def Let_def split: if_splits)

lemma get_progresses: "getHumanConfirmation i s = (x, t) \<Longrightarrow> progresses s t"
  by (auto simp: getHumanConfirmation_def split: option.splits if_splits)

lemma consume_progresses:
  assumes "consumeHumanConfirmation i requestId now s = (x, t)"
  shows "progresses s t"
proof (cases "t = s")
  case False
  let ?hit = "\<lambda>r. hc_id (cr_confirmation r) = lower_case i \<and> cr_status r = Issued
                 \<and> hc_issuedAt (cr_confirmation r) \<le> now \<and> now \<le> hc_expiresAt (cr_confirmation r)"
  let ?f = "\<lambda>r. if ?hit r then r\<lparr>cr_status := Consumed, cr_consumedAt := Some now,
                        cr_consumedFor := Some (lower_case requestId)\<rparr> else r"
  have t: "t = s\<lparr>confirmations := map ?f (confirmations s)\<rparr>"
    using assms False by (auto simp: consumeHumanConfirmation_def Let_def split: if_splits)
  have "map (\<lambda>r. hc_id (cr_confirmation r)) (confirmations t) = map (\<lambda>r. hc_id (cr_confirmation r)) (confirmations s)"
    by (simp add: t)
  then have "distinct_confirmations t = distinct_confirmations s" by (simp only: distinct_confirmations_def)
  moreover have "row \<in> set (confirmations t)" if "row \<in> set (confirmations s)" "cr_status row = Consumed" for row
  proof -
    have "?f row = row" using that(2) by simp
    then show ?thesis using imageI [OF that(1), of ?f] by (simp add: t)
  qed
  moreover have "audit_log t = audit_log s" by (simp add: t)
  ultimately show ?thesis by (simp add: progresses_def)
qed simp

lemma quiet_records [intro!]:
  "quiet (on_store (claimSharedIdempotency i p k d created))"
  "quiet (on_store (completeSharedIdempotency n y ended))"
  "quiet (on_store (getHumanConfirmation i))"
  "quiet (on_store (consumeHumanConfirmation i requestId now))"
  by (rule quiet_store, erule claim_progresses complete_progresses get_progresses consume_progresses)+

section \<open>Confirmations behind successful entries\<close>

definition consumed_for :: "'d engine_store \<Rightarrow> uuid \<Rightarrow> uuid \<Rightarrow> bool" where
  "consumed_for s i q =
     (\<exists>row \<in> set (confirmations s). hc_id (cr_confirmation row) = i \<and> cr_status row = Consumed
        \<and> cr_consumedFor row = Some q)"

lemma consumed_for_progresses: "consumed_for s i q \<Longrightarrow> progresses s t \<Longrightarrow> consumed_for t i q"
  by (auto simp: consumed_for_def progresses_def)

definition records_inv :: "'d engine_store \<Rightarrow> bool" where
  "records_inv s =
     (distinct (map au_requestId (rows (audit_log s))) \<and> distinct_confirmations s
      \<and> (\<forall>e \<in> set (rows (audit_log s)). \<forall>c. au_outcome e = Audit_success \<and> au_confirmationId e = Some c
            \<longrightarrow> consumed_for s c (au_requestId e)))"

lemma records_inv_progresses:
  assumes "records_inv s" and "progresses s t"
  shows "records_inv t"
proof -
  have "audit_log t = audit_log s" "distinct_confirmations s \<longrightarrow> distinct_confirmations t"
    using assms(2) by (simp_all add: progresses_def)
  then show ?thesis using assms(1) consumed_for_progresses [OF _ assms(2)] by (simp add: records_inv_def)
qed

text \<open>
  The row that a writer adds carries the fact that it was given, under a request identifier that no
  row has.
\<close>

lemma parsed_fields:
  assumes "parseSecurityAuditFact aenv f = Inr g"
  shows "au_outcome g = au_outcome f" and "au_confirmationId g = map_option lower_case (au_confirmationId f)"
    and "au_requestId g = lower_case (au_requestId f)"
proof -
  obtain p where p: "SecurityAuditEntrySchema (validation_entry f) = Some p" "g = securityAuditFactFromEntry p"
    using assms by (auto simp: parse_fact_Inr)
  have "p = trim_entry (validation_entry f)"
    using p(1) by (auto simp: SecurityAuditEntrySchema_def Let_def split: if_splits)
  then show "au_outcome g = au_outcome f" "au_confirmationId g = map_option lower_case (au_confirmationId f)"
    "au_requestId g = lower_case (au_requestId f)"
    using p(2) by (simp_all add: securityAuditFactFromEntry_def trim_entry_def validation_entry_def
        entry_of_def payload_of_def)
qed

lemma built_fields:
  assumes "parseSecurityAuditFact aenv f = Inr g" and "buildSecurityAuditEntry aenv i f prev = Inr e"
  shows "au_outcome e = au_outcome g \<and> au_confirmationId e = au_confirmationId g \<and> au_requestId e = au_requestId g"
proof -
  obtain q h where "SecurityAuditEntrySchema (entry_of (payload_of g (lower_case i) q (map_option snd prev)) h) = Some e"
    using assms by (auto simp: buildSecurityAuditEntry_def Let_def split: if_splits option.splits)
  then show ?thesis
    using schema_entry_of [OF parse_fact_facts(1) [OF assms(1)]]
    by (auto simp: entry_of_def payload_of_def split: if_splits)
qed

definition new_row :: "audit_fact \<Rightarrow> audit_tables \<Rightarrow> audit_tables \<Rightarrow> bool" where
  "new_row f st st' =
     (rows st' = rows st
      \<or> (\<exists>e. rows st' = rows st @ [e] \<and> au_requestId e \<notin> au_requestId ` set (rows st)
          \<and> au_outcome e = au_outcome f \<and> au_confirmationId e = map_option lower_case (au_confirmationId f)
          \<and> au_requestId e = lower_case (au_requestId f)))"

lemma insert_new_row:
  assumes "insert_row references e (st\<lparr>idsDrawn := n\<rparr>) = (x, st')" and "au_outcome e = au_outcome f"
    and "au_confirmationId e = map_option lower_case (au_confirmationId f)"
    and "au_requestId e = lower_case (au_requestId f)"
  shows "new_row f st st'"
  using assms by (auto simp: new_row_def insert_row_def refused_by_table_def split: if_splits)

lemma admin_fact_fields [simp]:
  "au_outcome (admin_fact f target) = au_outcome f" "au_confirmationId (admin_fact f target) = au_confirmationId f"
  "au_requestId (admin_fact f target) = au_requestId f"
  by (simp_all add: admin_fact_def)

lemma capability_fact_fields [simp]:
  "au_outcome (capability_fact f) = au_outcome f" "au_confirmationId (capability_fact f) = au_confirmationId f"
  "au_requestId (capability_fact f) = au_requestId f"
  by (simp_all add: capability_fact_def)

text \<open>A fact that was parsed before is built with the outcome and identifiers it was given.\<close>

lemma rebuilt_fields:
  assumes "parseSecurityAuditFact aenv (capability_fact f) = Inr g" and "buildSecurityAuditEntry aenv i g prev = Inr e"
  shows "au_outcome e = au_outcome f \<and> au_confirmationId e = map_option lower_case (au_confirmationId f)
    \<and> au_requestId e = lower_case (au_requestId f)"
proof -
  obtain g' where g': "parseSecurityAuditFact aenv g = Inr g'"
    using assms(2) by (auto simp: buildSecurityAuditEntry_def bindR_Inr_iff)
  show ?thesis
    using built_fields [OF g' assms(2)] parse_again [OF assms(1) g'] parsed_fields [OF assms(1)] by simp
qed

lemma bind_rows:
  assumes "parseSecurityAuditFact aenv (capability_fact f) = Inr g"
    and "bind_request references gen aenv rd g anchor st = (y, st')"
  shows "new_row f st st'"
proof (cases "rows st' = rows st")
  case False
  then obtain e u where built: "buildSecurityAuditEntry aenv (gen (idsDrawn st)) g anchor = Inr e"
    and ins: "insert_row references e (st\<lparr>idsDrawn := Suc (idsDrawn st)\<rparr>) = (u, st')"
    using assms(2) by (auto simp: bind_request_def split: option.splits sum.splits prod.splits)
  show ?thesis using insert_new_row [OF ins] rebuilt_fields [OF assms(1) built] by simp
qed (simp add: new_row_def)

lemma shared_rows:
  assumes "appendSharedCapabilityAuditEntry references gen aenv f st = (x, st')"
  shows "new_row f st st'"
proof (cases "parseSecurityAuditFact aenv (capability_fact f)")
  case (Inl e)
  then show ?thesis
    using assms by (simp add: appendSharedCapabilityAuditEntry_def throwC_def new_row_def capability_fact_def)
next
  case (Inr g)
  define rd where "rd = (\<lambda>row. case SecurityAuditEntrySchema row of None \<Rightarrow> Inl Audit_schema_refused | Some e \<Rightarrow> Inr e)"
  obtain y where "bind_request references gen aenv rd g (last_option (ordered_anchors st)) st = (y, st')"
    using assms Inr
    by (auto simp: appendSharedCapabilityAuditEntry_def bindC_def retC_def rd_def capability_fact_def
        split: prod.splits sum.splits)
  then show ?thesis by (rule bind_rows [OF Inr])
qed

lemma repository_rows:
  assumes "repository_append references gen aenv (capability_fact f) st = (x, st')"
  shows "new_row f st st'"
proof (cases "rows st' = rows st")
  case False
  obtain g anchor y where g: "parseSecurityAuditFact aenv (capability_fact f) = Inr g"
    and "bind_request references gen aenv (rowToEntry aenv) g anchor st = (y, st')"
    using assms False
    by (auto simp: repository_append_def transactionC_def bindC_def liftR_def throwC_def retC_def
        split: prod.splits sum.splits option.splits)
  then show ?thesis by (rule bind_rows)
qed (simp add: new_row_def)

lemma admin_rows:
  assumes "admin_append references gen aenv f target st = (x, st')"
  shows "new_row f st st'"
proof (cases "rows st' = rows st")
  case False
  then obtain e i anchor where built: "buildSecurityAuditEntry aenv i (admin_fact f target) anchor = Inr e"
    and ins: "insert_row references e (st\<lparr>idsDrawn := Suc (idsDrawn st)\<rparr>) = (x, st')"
    using assms by (auto simp: admin_append_def Let_def split: if_splits sum.splits)
  then obtain g where g: "parseSecurityAuditFact aenv (admin_fact f target) = Inr g"
    by (auto simp: buildSecurityAuditEntry_def bindR_Inr_iff)
  show ?thesis using insert_new_row [OF ins] built_fields [OF g built] parsed_fields [OF g] by simp
qed (simp add: new_row_def)

lemma entry_rows:
  assumes "append_entry references gen build st = (x, st')"
    and "\<And>i prev e. build i prev = Inr e \<Longrightarrow> au_outcome e = au_outcome f
      \<and> map_option lower_case (au_confirmationId e) = map_option lower_case (au_confirmationId f)
      \<and> lower_case (au_requestId e) = lower_case (au_requestId f)"
  shows "new_row f st st'"
proof (cases "build (lower_case (gen (idsDrawn st))) (last_head st)")
  case (Inl y)
  then show ?thesis using assms(1) by (simp add: append_entry_def new_row_def)
next
  case (Inr e)
  obtain y u where ins: "insert_row references (uuid_columns e) (st\<lparr>idsDrawn := Suc (idsDrawn st)\<rparr>) = (y, u)"
    by fastforce
  moreover have "st' = u" using assms(1) Inr ins by (cases y) (simp_all add: append_entry_def)
  ultimately show ?thesis
    using insert_new_row [of references "uuid_columns e"] assms(2) [OF Inr] by (simp add: uuid_columns_def)
qed

lemma writer_rows:
  assumes "writer_append env f st = (x, st')"
  shows "new_row f st st'"
proof (cases "ce_writer env")
  case Shared_writer
  then show ?thesis using assms shared_rows by (simp add: writer_append_def)
next
  case Direct_writer
  then obtain y where y: "direct_append (ce_references env) (ce_ids env) (ce_audit env) f st = (y, st')"
    using assms by (auto simp: writer_append_def bindC_def retC_def split: prod.splits sum.splits)
  show ?thesis
    by (rule entry_rows [OF y [unfolded direct_append_def]])
       (auto simp: direct_entry_def SecurityAuditEntrySchema_def Let_def trim_entry_def entry_of_def
          payload_of_def split: option.splits if_splits)
next
  case Admin_writer
  then show ?thesis using assms admin_rows by (simp add: writer_append_def)
next
  case Repository_writer
  then obtain y where "repository_append (ce_references env) (ce_ids env) (ce_audit env) (capability_fact f) st = (y, st')"
    using assms by (auto simp: writer_append_def bindC_def retC_def split: prod.splits sum.splits)
  then show ?thesis by (rule repository_rows)
next
  case Start_writer
  then obtain y where y: "start_append (ce_references env) (ce_ids env) (ce_audit env) f st = (y, st')"
    using assms by (auto simp: writer_append_def bindC_def retC_def split: prod.splits sum.splits)
  show ?thesis
  proof (cases "parseSecurityAuditFact (ce_audit env) (capability_fact f)")
    case (Inl e)
    then show ?thesis using y by (simp add: start_append_def built_append_def throwC_def new_row_def)
  next
    case (Inr g)
    then have "append_entry (ce_references env) (ce_ids env) (\<lambda>i. buildSecurityAuditEntry (ce_audit env) i g) st = (y, st')"
      using y by (simp add: start_append_def built_append_def)
    then show ?thesis
      by (rule entry_rows) (auto dest!: rebuilt_fields [OF Inr] simp: option.map_comp comp_def)
  qed
qed

lemma append_inv:
  assumes "records_inv s" and "appendCapabilityAudit env f s = (x, t)"
    and "\<And>c. au_outcome f = Audit_success \<Longrightarrow> au_confirmationId f = Some c
      \<Longrightarrow> consumed_for s (lower_case c) (lower_case (au_requestId f))"
  shows "records_inv t" and "confirmations t = confirmations s"
proof -
  obtain y a where a: "writer_append env f (audit_log s) = (y, a)"
    and t: "t = s\<lparr>audit_log := a\<rparr>"
    using assms(2) by (auto simp: appendCapabilityAudit_def split: prod.splits sum.splits)
  show "confirmations t = confirmations s" by (simp add: t)
  have "distinct (map au_requestId (rows a))"
    using writer_rows [OF a] assms(1) by (auto simp: records_inv_def new_row_def)
  moreover have "consumed_for s' i q \<longleftrightarrow> consumed_for s i q" if "s' = t" for s' i q
    using that by (simp add: consumed_for_def t)
  moreover have "distinct_confirmations t" using assms(1) by (simp add: records_inv_def distinct_confirmations_def t)
  moreover have "consumed_for s c (au_requestId e)"
    if "e \<in> set (rows a)" "au_outcome e = Audit_success" "au_confirmationId e = Some c" for e c
  proof (cases "e \<in> set (rows (audit_log s))")
    case True
    then show ?thesis using that assms(1) by (simp add: records_inv_def)
  next
    case False
    then show ?thesis using that writer_rows [OF a] assms(3) by (auto simp: new_row_def)
  qed
  ultimately show "records_inv t" by (simp add: records_inv_def t)
qed

section \<open>One run\<close>

text \<open>While a run is under way, the confirmation it was authorized by is consumed for its request.\<close>

definition authorized_consumed :: "trusted_invocation \<Rightarrow> 'd world \<Rightarrow> bool" where
  "authorized_consumed iv w =
     (\<forall>a c. cx_authorization (w_context w) = Some a \<and> az_confirmation a = Some c
        \<longrightarrow> consumed_for (w_store w) (lower_case (hc_id c)) (lower_case (ti_requestId iv)))"

definition run_inv :: "trusted_invocation \<Rightarrow> 'd world \<Rightarrow> bool" where
  "run_inv iv w = (records_inv (w_store w) \<and> authorized_consumed iv w)"

lemma quiet_keeps: "quiet m \<Longrightarrow> keeps (run_inv iv) m"
proof (rule keepsI)
  fix w x w'
  assume q: "quiet m" and inv: "run_inv iv w" and run: "m w = (x, w')"
  then have p: "progresses (w_store w) (w_store w')"
    and same: "cx_authorization (w_context w') = cx_authorization (w_context w)" by (auto simp: quiet_def)
  show "run_inv iv w'"
    using inv records_inv_progresses [OF _ p] consumed_for_progresses [OF _ p] same
    by (auto simp: run_inv_def authorized_consumed_def)
qed

lemma keeps_append:
  assumes "\<And>(w :: 'd world) c. run_inv iv w \<Longrightarrow> au_outcome f = Audit_success \<Longrightarrow> au_confirmationId f = Some c
      \<Longrightarrow> consumed_for (w_store w) (lower_case c) (lower_case (au_requestId f))"
  shows "keeps (run_inv iv) (on_store (appendCapabilityAudit env f) :: ('d world, thrown, unit) comp)"
proof (rule keepsI)
  fix w :: "'d world" and x w'
  assume inv: "run_inv iv w" and run: "on_store (appendCapabilityAudit env f) w = (x, w')"
  then obtain t where t: "appendCapabilityAudit env f (w_store w) = (x, t)" and w': "w' = w\<lparr>w_store := t\<rparr>"
    by (auto simp: on_store_def split: prod.splits)
  have "records_inv (w_store w)" using inv by (simp add: run_inv_def)
  note app = append_inv [OF this t assms [OF inv]]
  have "consumed_for t i q = consumed_for (w_store w) i q" for i q
    using app(2) by (simp add: consumed_for_def)
  then show "run_inv iv w'"
    using app(1) inv by (auto simp: run_inv_def authorized_consumed_def w')
qed

lemma consumed_by:
  assumes "consumeHumanConfirmation i requestId now s = (Inr True, t)"
    and "confirmation_row i s = Some row"
  shows "consumed_for t (hc_id (cr_confirmation row)) (lower_case requestId)" and "hc_id (cr_confirmation row) = lower_case i"
proof -
  let ?hit = "\<lambda>r. hc_id (cr_confirmation r) = lower_case i \<and> cr_status r = Issued
                 \<and> hc_issuedAt (cr_confirmation r) \<le> now \<and> now \<le> hc_expiresAt (cr_confirmation r)"
  let ?f = "\<lambda>r. if ?hit r then r\<lparr>cr_status := Consumed, cr_consumedAt := Some now,
                        cr_consumedFor := Some (lower_case requestId)\<rparr> else r"
  show row: "hc_id (cr_confirmation row) = lower_case i"
    using assms(2) by (auto simp: confirmation_row_def find_Some_iff)
  have t: "t = s\<lparr>confirmations := map ?f (confirmations s)\<rparr>" and "list_ex ?hit (confirmations s)"
    using assms(1) by (auto simp: consumeHumanConfirmation_def Let_def split: if_splits)
  then obtain r where r: "r \<in> set (confirmations s)" "?hit r" by (auto simp: list_ex_iff)
  have "?f r \<in> set (confirmations t)" using imageI [OF r(1), of ?f] by (simp add: t)
  moreover have "hc_id (cr_confirmation (?f r)) = lower_case i" "cr_status (?f r) = Consumed"
    "cr_consumedFor (?f r) = Some (lower_case requestId)" using r(2) by simp_all
  ultimately show "consumed_for t (hc_id (cr_confirmation row)) (lower_case requestId)"
    unfolding consumed_for_def row by blast
qed

lemma confirm_quiet: "quiet (confirm env i iv q)"
  unfolding confirm_def
  by (auto split: option.split)

lemma confirm_consumed:
  assumes "confirm env i iv q w = (Inr c, w')"
  shows "consumed_for (w_store w') (lower_case (hc_id c)) (lower_case (ti_requestId iv))"
proof -
  obtain m cid row now later where "confirmation_row cid (w_store w) = Some row"
    "validateConfirmation row iv i q now = Inr c"
    "consumeHumanConfirmation cid (ti_requestId iv) later (w_store w) = (Inr True, w_store w')"
    using confirmD [OF assms] by metis
  then show ?thesis using consumed_by validateConfirmationD(1) by fastforce
qed

lemma keeps_authorize_execution:
  assumes "guards_leave_records r"
  shows "keeps (run_inv iv) (authorizeExecution env r d input iv q)"
proof -
  have facility: "quiet (run_callback (rg_resolveFacilityId r input) iv)"
    using assms by (intro quiet_callback leaves_records_respects) (simp add: guards_leave_records_def)
  have tail: "keeps (run_inv iv) (bindC (if rq_actionIds q \<noteq> [] then bindC (confirm env (rg_id r) iv q) (\<lambda>c. retC (Some c))
            else if Option.bind (ti_mutation iv) mm_confirmationId \<noteq> None
            then throwC (refuse VALIDATION_ERROR CONFIRMATION_INVALID 400)
            else retC None) (\<lambda>confirmation.
         bindC (set_context (\<lambda>cx. cx\<lparr>cx_authorization := Some
              \<lparr>az_facilityId = facilityId, az_requirement = q, az_confirmation = confirmation\<rparr>\<rparr>)) (\<lambda>_.
         liftR (final_envelope_check env d (rg_id r) input iv q confirmation))))"
    (is "keeps _ (bindC ?choose ?rest)") for facilityId
  proof (rule keepsI)
    fix w x w'
    assume inv: "run_inv iv w" and run: "bindC ?choose ?rest w = (x, w')"
    have choose: "quiet ?choose" using confirm_quiet by auto
    obtain y v where y: "?choose w = (y, v)" by (cases "?choose w")
    then have v: "run_inv iv v" using keepsD [OF quiet_keeps [OF choose] inv] by blast
    show "run_inv iv w'"
    proof (cases y)
      case (Inl e)
      then show ?thesis using run y v by (simp add: bindC_def)
    next
      case (Inr confirmation)
      have "consumed_for (w_store v) (lower_case (hc_id c)) (lower_case (ti_requestId iv))"
        if "confirmation = Some c" for c
        using y Inr that confirm_consumed by (fastforce simp: run_Inr_iff split: if_splits)
      moreover have "w_store w' = w_store v"
        "cx_authorization (w_context w') = Some \<lparr>az_facilityId = facilityId, az_requirement = q, az_confirmation = confirmation\<rparr>"
        using run y Inr by (auto simp: bindC_def set_context_def liftR_def)
      ultimately show ?thesis using v by (simp add: run_inv_def authorized_consumed_def)
    qed
  qed
  show ?thesis
    unfolding authorizeExecution_def
    by (intro keeps_bindC quiet_keeps facility tail) auto
qed

lemma quiet_if: "quiet m \<Longrightarrow> quiet n \<Longrightarrow> quiet (if b then m else n)"
  by simp

lemma quiet_guards:
  assumes "guards_leave_records r"
  shows "quiet (run_callback (rg_resolveFacilityId r input) iv)"
    and "quiet (resolve_safety r input parsed iv)"
    and "quiet (resolveHumanActionRequirement env r d input parsed iv)"
proof -
  show facility: "quiet (run_callback (rg_resolveFacilityId r input) iv)"
    using assms by (intro quiet_callback leaves_records_respects) (simp add: guards_leave_records_def)
  show safety: "quiet (resolve_safety r input parsed iv)" for parsed
    unfolding resolve_safety_def
    using assms
    by (auto intro!: quiet_callback leaves_records_respects simp: guards_leave_records_def split: option.split)
  show "quiet (resolveHumanActionRequirement env r d input parsed iv)"
    unfolding resolveHumanActionRequirement_def Let_def
    by (intro quiet_bindC quiet_plain quiet_if safety)
qed

lemma keeps_invoke:
  assumes "lawful r"
  shows "keeps (run_inv iv) (invokeAuthorizedCapabilityHandler env r d input iv)"
proof -
  have g: "guards_leave_records r" and h: "handler_respects (rg_handler r x)" for x
    using assms by (simp_all add: lawful_def)
  show ?thesis
    unfolding invokeAuthorizedCapabilityHandler_def authorize_handler_def
    by (intro keeps_bindC keeps_liftR keeps_authorize_execution [OF g] keeps_retC
        quiet_keeps [OF quiet_callback [OF h]] quiet_keeps [OF quiet_if] quiet_plain quiet_guards(3) [OF g])
qed

lemma keeps_replay:
  assumes "guards_leave_records r" and "mutation_registration_ok r"
  shows "keeps (run_inv iv) (replay env r d iv reference)"
proof -
  have "quiet (run_callback (the (rg_resolveReplayFacilityId r) reference) iv)"
    "quiet (run_callback (the (rg_loadReplay r) reference) iv)"
    using assms
    by (auto intro!: quiet_callback leaves_records_respects simp: guards_leave_records_def mutation_registration_ok_def)
  then show ?thesis
    unfolding replay_def
    by (auto intro!: keeps_bindC keeps_append intro: quiet_keeps simp: audit_event_def)
qed

lemma keeps_reserve:
  assumes "guards_leave_records r"
  shows "keeps (run_inv iv) (reserve env r d input iv)"
  unfolding reserve_def reserve_mutation_def
  using keeps_replay [OF assms]
  by (auto intro!: keeps_bindC intro: quiet_keeps split: option.split idempotency_claim.split)

lemma keeps_complete: "keeps (run_inv iv) (complete_reservation r d iv reserved out)"
  unfolding complete_reservation_def
  by (rule quiet_keeps) (auto split: option.split)

lemma keeps_failure_append:
  "keeps (run_inv iv) (on_store (appendCapabilityAudit env (failureAuditEvent d i iv cx e)))"
  by (rule keeps_append) (auto simp: failureAuditEvent_def audit_event_def Let_def split: if_splits)

lemma keeps_record_success: "keeps (run_inv iv) (record_success env r d iv :: ('d world, thrown, unit) comp)"
proof (rule keepsI)
  fix w :: "'d world" and x w'
  assume inv: "run_inv iv w" and run: "record_success env r d iv w = (x, w')"
  show "run_inv iv w'"
  proof (cases "auditPolicy d = All_outcomes \<and> is_ok (successAuditEvent (rg_id r) iv (w_context w))")
    case False
    then have "w' = w"
      using run
      by (cases "successAuditEvent (rg_id r) iv (w_context w)")
         (auto simp: record_success_def bindC_def get_context_def retC_def throwC_def split: if_splits)
    then show ?thesis using inv by simp
  next
    case True
    then obtain a where a: "cx_authorization (w_context w) = Some a"
      by (auto simp: successAuditEvent_def split: option.splits)
    define event where "event = audit_event (execution_category iv) (rg_id r) (rq_actionIds (az_requirement a))
      (map_option hc_id (az_confirmation a)) Audit_success iv (az_facilityId a) None"
    have app: "on_store (appendCapabilityAudit env event) w = (x, w')"
      using run True a
      by (auto simp: record_success_def bindC_def get_context_def successAuditEvent_def event_def retC_def
          split: prod.splits sum.splits)
    have consumed: "consumed_for (w_store w) (lower_case c) (lower_case (au_requestId event))"
      if "au_confirmationId event = Some c" for c
      using inv a that by (auto simp: event_def audit_event_def run_inv_def authorized_consumed_def)
    have w': "w' = w\<lparr>w_store := w_store w'\<rparr>" and "appendCapabilityAudit env event (w_store w) = (x, w_store w')"
      using app by (auto simp: on_store_def split: prod.splits)
    from append_inv [OF _ this(2) consumed] inv
    have "records_inv (w_store w')" and same: "confirmations (w_store w') = confirmations (w_store w)"
      by (auto simp: run_inv_def)
    moreover have "authorized_consumed iv (w\<lparr>w_store := w_store w'\<rparr>)"
      using inv same by (auto simp: run_inv_def authorized_consumed_def consumed_for_def)
    ultimately show ?thesis using w' by (metis run_inv_def)
  qed
qed

lemma keeps_body:
  assumes "lawful r"
  shows "keeps (run_inv iv) (capability_body env r d input iv)"
proof -
  have "guards_leave_records r" using assms by (simp add: lawful_def)
  then show ?thesis
    unfolding capability_body_def
    by (auto intro!: keeps_bindC keeps_reserve keeps_invoke [OF assms] keeps_complete keeps_record_success
        split: reservation.split)
qed

lemma keeps_transaction:
  assumes "lawful r"
  shows "keeps (run_inv iv) (capability_transaction env r d input iv)"
  unfolding capability_transaction_def
  using keeps_body [OF assms]
  by (auto intro!: keeps_catchC keeps_bindC keeps_failure_append quiet_keeps [OF quiet_plain(5)] split: option.split)

lemma report_failure_store:
  assumes "report_failure env r d iv e w = (x, w')"
  shows "\<exists>cx ae. w_store w' = w_store w \<or>
    (\<exists>y. appendCapabilityAudit env (failureAuditEvent d (rg_id r) iv cx ae) (w_store w) = (y, w_store w'))"
proof -
  define ae where "ae = (case rg_classify r e of Some (a, _) \<Rightarrow> a | None \<Rightarrow> errorForUnknownFailure e)"
  define event where "event = failureAuditEvent d (rg_id r) iv (w_context w) ae"
  obtain y s where run: "appendCapabilityAudit env event (w_store w) = (y, s)"
    by (cases "appendCapabilityAudit env event (w_store w)")
  then have "w_store w' = w_store w \<or> w_store w' = s"
    using assms
    by (cases y) (auto simp: report_failure_def bindC_def get_context_def catchC_def on_store_def transactionC_def
        throwC_def simp flip: ae_def event_def)
  then show ?thesis using run unfolding event_def by blast
qed

text \<open>A run keeps the records, whatever comes of it.\<close>

lemma execute_keeps_records:
  assumes "lawful r" and "records_inv (w_store w)"
    and "executeAuditedCapabilityTransaction env r raw iv w = (x, w')"
  shows "records_inv (w_store w')"
proof -
  have start: "run_inv iv (w\<lparr>w_context := fresh_context\<rparr>)"
    using assms(2) by (simp add: run_inv_def authorized_consumed_def fresh_context_def)
  note tx = keepsD [OF keeps_transaction [OF assms(1)] start]
  from assms(3) show ?thesis
  proof (cases rule: execute_cases)
    case (refused d e v e')
    then obtain cx ae where same: "w_store w' = w_store v \<or>
        (\<exists>y. appendCapabilityAudit env (failureAuditEvent d (rg_id r) iv cx ae) (w_store v) = (y, w_store w'))"
      using report_failure_store by blast
    have "au_confirmationId (failureAuditEvent d (rg_id r) iv cx ae) = None"
      by (auto simp: failureAuditEvent_def audit_event_def Let_def)
    then show ?thesis
      using same append_inv(1) [of "w_store v" env "failureAuditEvent d (rg_id r) iv cx ae"] assms(2) refused(3)
      by fastforce
  qed (use assms(2) tx in \<open>auto simp: run_inv_def\<close>)
qed

section \<open>Many runs\<close>

text \<open>
  Runs of lawful registrations, one after another, with anything else in between that keeps
  consumed confirmations, idempotency rows and the audit log: other modules issue confirmations,
  confirmations expire, domain tables change and time passes.
\<close>

inductive engine_run :: "capability_env \<Rightarrow> 'd world \<Rightarrow> 'd world \<Rightarrow> bool" for env w where
  start: "engine_run env w w"
| ran: "engine_run env w v \<Longrightarrow> lawful r \<Longrightarrow>
    executeAuditedCapabilityTransaction env r raw iv v = (x, u) \<Longrightarrow> engine_run env w u"
| elsewhere: "engine_run env w v \<Longrightarrow> progresses (w_store v) (w_store u) \<Longrightarrow>
    idempotency (w_store u) = idempotency (w_store v) @ new \<Longrightarrow> engine_run env w u"

lemma engine_run_records: "engine_run env w w' \<Longrightarrow> records_inv (w_store w) \<Longrightarrow> records_inv (w_store w')"
proof (induction rule: engine_run.induct)
  case (ran v r raw iv x u)
  then show ?case using execute_keeps_records by blast
next
  case (elsewhere v u new)
  then show ?case using records_inv_progresses by blast
qed

text \<open>C2: a human confirmation stands behind at most one protected
  execution. However many capabilities run, two successful entries of the audit log that name the
  same confirmation are one entry, and the confirmation is consumed for exactly its request.\<close>

theorem confirmation_used_once:
  assumes "engine_run env w w'" and "audit_log (w_store w) = empty_log" and "distinct_confirmations (w_store w)"
    and "e \<in> set (rows (audit_log (w_store w')))" and "au_outcome e = Audit_success" and "au_confirmationId e = Some c"
    and "f \<in> set (rows (audit_log (w_store w')))" and "au_outcome f = Audit_success" and "au_confirmationId f = Some c"
  shows "e = f \<and> consumed_for (w_store w') c (au_requestId e)"
proof -
  have "records_inv (w_store w)" using assms(2,3) by (simp add: records_inv_def empty_log_def)
  then have inv: "records_inv (w_store w')" using engine_run_records assms(1) by blast
  then have "consumed_for (w_store w') x (au_requestId r)"
    if "r \<in> set (rows (audit_log (w_store w')))" "au_outcome r = Audit_success" "au_confirmationId r = Some x" for r x
    using that by (simp add: records_inv_def)
  then have used: "consumed_for (w_store w') c (au_requestId e)" "consumed_for (w_store w') c (au_requestId f)"
    using assms(4-9) by blast+
  have "inj_on (\<lambda>r. hc_id (cr_confirmation r)) (set (confirmations (w_store w')))"
    using inv by (simp add: records_inv_def distinct_confirmations_def distinct_map)
  then have "au_requestId e = au_requestId f"
    using used unfolding consumed_for_def by (metis (mono_tags, lifting) inj_onD option.inject)
  moreover have "inj_on au_requestId (set (rows (audit_log (w_store w'))))"
    using inv by (simp add: records_inv_def distinct_map)
  ultimately have "e = f" using assms(4,7) by (metis inj_onD)
  then show ?thesis using used(1) by simp
qed

end
