(* ===== verification/Capability_Keys.thy ===== *)
theory Capability_Keys
  imports Capability_Records
begin

text \<open>
  Idempotency keys over many runs of the engine: the run that completes a key is the only one that
  reaches a handler for it.
\<close>

section \<open>Completed keys\<close>

definition spares :: "('d world, thrown, 'a) comp \<Rightarrow> bool" where
  "spares m = (\<forall>w x w'. m w = (x, w') \<longrightarrow> idempotency (w_store w') = idempotency (w_store w))"

lemma spares_plain [simp, intro!]: "spares (retC a)" "spares (throwC e)" "spares (liftR y)" "spares (guardC b e)"
  "spares get_context" "spares (read_clock env)" "spares (set_context f)"
  by (auto simp: spares_def retC_def throwC_def liftR_def guardC_def get_context_def read_clock_def set_context_def)

lemma spares_bindC [intro!]:
  assumes "spares m" and "\<And>a. spares (f a)"
  shows "spares (bindC m f)"
  unfolding spares_def
proof (intro allI impI)
  fix w x w'
  assume run: "bindC m f w = (x, w')"
  obtain y v where m: "m w = (y, v)" by (cases "m w")
  then show "idempotency (w_store w') = idempotency (w_store w)"
    using run assms by (cases y) (auto simp: bindC_def spares_def)
qed

lemma spares_records [intro!]:
  "spares (on_store (getHumanConfirmation i))"
  "spares (on_store (consumeHumanConfirmation i requestId now))"
  "spares (on_store (appendCapabilityAudit env f))"
proof -
  have "idempotency t = idempotency s" if "getHumanConfirmation i s = (x, t)" for s t :: "'d engine_store" and x
    using that by (auto simp: getHumanConfirmation_def split: option.splits if_splits)
  then show "spares (on_store (getHumanConfirmation i) :: ('d world, thrown, confirmation_record option) comp)"
    by (auto simp: spares_def on_store_def split: prod.splits)
  have "idempotency t = idempotency s" if "consumeHumanConfirmation i requestId now s = (x, t)"
    for s t :: "'d engine_store" and x
    using that by (auto simp: consumeHumanConfirmation_def Let_def split: if_splits)
  then show "spares (on_store (consumeHumanConfirmation i requestId now) :: ('d world, thrown, bool) comp)"
    by (auto simp: spares_def on_store_def split: prod.splits)
  have "idempotency t = idempotency s" if "appendCapabilityAudit env f s = (x, t)" for s t :: "'d engine_store" and x
    using that by (auto simp: appendCapabilityAudit_def split: prod.splits sum.splits)
  then show "spares (on_store (appendCapabilityAudit env f) :: ('d world, thrown, unit) comp)"
    by (auto simp: spares_def on_store_def split: prod.splits)
qed

lemma spares_callback: "leaves_records f \<Longrightarrow> spares (run_callback f iv)"
  unfolding spares_def using callback_records by (fastforce simp: same_records_def)

lemma spares_authorize:
  assumes "guards_leave_records r"
  shows "spares (authorize_handler env r d input iv)"
proof -
  have facility: "spares (run_callback (rg_resolveFacilityId r x) iv)" for x
    using assms by (intro spares_callback) (simp add: guards_leave_records_def)
  have "spares (resolve_safety r input x iv)" for x
    unfolding resolve_safety_def using assms facility
    by (auto intro!: spares_callback simp: guards_leave_records_def split: option.split)
  then have requirement: "spares (resolveHumanActionRequirement env r d input x iv)" for x
    unfolding resolveHumanActionRequirement_def Let_def by auto
  have "spares (confirm env i iv q)" for i q
    unfolding confirm_def by (auto split: option.split)
  then have "spares (authorizeExecution env r d input iv q)" for q
    unfolding authorizeExecution_def using facility by auto
  then show ?thesis unfolding authorize_handler_def using requirement by auto
qed

lemma spares_replay:
  assumes "guards_leave_records r" and "mutation_registration_ok r"
  shows "spares (replay env r d iv reference)"
proof -
  have "spares (run_callback (the (rg_resolveReplayFacilityId r) reference) iv)"
    "spares (run_callback (the (rg_loadReplay r) reference) iv)"
    using assms by (auto intro!: spares_callback simp: guards_leave_records_def mutation_registration_ok_def)
  then show ?thesis unfolding replay_def by auto
qed

lemma spares_success: "spares (record_success env r d iv)"
  unfolding record_success_def by auto

text \<open>A row found under a key and completed stays so.\<close>

definition key_done :: "string \<Rightarrow> digest \<Rightarrow> string \<Rightarrow> idempotency_row \<Rightarrow> 'd world \<Rightarrow> bool" where
  "key_done i p k row w =
     (find (same_key i p k) (idempotency (w_store w)) = Some row \<and> ir_status row = Completed)"

lemma find_append: "find P (xs @ ys) = (case find P xs of None \<Rightarrow> find P ys | Some x \<Rightarrow> Some x)"
  by (induction xs) auto

lemma find_map_key:
  assumes "\<And>x. P (f x) = P x"
  shows "find P (map f xs) = map_option f (find P xs)"
  using assms by (induction xs) auto

lemma keeps_done_spares: "spares m \<Longrightarrow> keeps (key_done i p k row) m"
  by (rule keepsI) (auto simp: spares_def key_done_def)

lemma keeps_done_claim: "keeps (key_done i p k row) (on_store (claimSharedIdempotency i' p' k' d created))"
  by (rule keepsI)
     (auto simp: key_done_def on_store_def claimSharedIdempotency_def find_append split: option.splits prod.splits)

lemma complete_find:
  assumes "completeSharedIdempotency n y ended s = (Inr (), t)"
  shows "find (same_key i p k) (idempotency t) = map_option (\<lambda>r. if ir_id r = n \<and> ir_status r = In_progress
      then r\<lparr>ir_status := Completed, ir_completedAt := Some ended, ir_resultReference := Some y\<rparr> else r)
    (find (same_key i p k) (idempotency s))"
  using assms
  by (auto simp: completeSharedIdempotency_def Let_def split: if_splits intro!: find_map_key)
     (simp_all add: same_key_def)

lemma keeps_done_complete: "keeps (key_done i p k row) (on_store (completeSharedIdempotency n y ended))"
proof (rule keepsI)
  fix w :: "'d world" and x w'
  assume w: "key_done i p k row w" and run: "on_store (completeSharedIdempotency n y ended) w = (x, w')"
  show "key_done i p k row w'"
  proof (cases x)
    case (Inl e)
    then show ?thesis
      using w run by (auto simp: on_store_def completeSharedIdempotency_def Let_def key_done_def split: prod.splits if_splits)
  next
    case (Inr u)
    then show ?thesis
      using w run complete_find [of n y ended "w_store w" "w_store w'" i p k]
      by (auto simp: on_store_def key_done_def split: prod.splits)
  qed
qed

lemma keeps_done_handler: "handler_respects f \<Longrightarrow> keeps (key_done i p k row) (run_callback f iv)"
proof (rule keepsI)
  fix w x w'
  assume f: "handler_respects f" and w: "key_done i p k row w" and run: "run_callback f iv w = (x, w')"
  obtain new where "idempotency (w_store w') = idempotency (w_store w) @ new"
    using f run unfolding handler_respects_def run_callback_def by (fastforce split: prod.splits)
  then show "key_done i p k row w'" using w by (simp add: key_done_def find_append)
qed

lemma keeps_done_run:
  assumes "lawful r"
  shows "keeps (key_done i p k row) (capability_transaction env r d input iv)"
proof -
  have g: "guards_leave_records r" and h: "handler_respects (rg_handler r x)" for x
    using assms by (simp_all add: lawful_def)
  have reserve: "keeps (key_done i p k row) (reserve env r d input iv)"
    unfolding reserve_def reserve_mutation_def
    using keeps_done_spares [OF spares_replay [OF g]]
    by (auto intro!: keeps_bindC keeps_done_claim split: option.split idempotency_claim.split)
  have invoke: "keeps (key_done i p k row) (invokeAuthorizedCapabilityHandler env r d input iv)"
    unfolding invokeAuthorizedCapabilityHandler_def
    by (intro keeps_bindC keeps_done_spares [OF spares_authorize [OF g]] keeps_done_handler [OF h] keeps_liftR)
  have complete: "keeps (key_done i p k row) (complete_reservation r d iv reserved out)" for reserved out
    unfolding complete_reservation_def
    by (auto intro!: keeps_bindC keeps_done_complete keeps_done_spares [OF spares_plain(5)] split: option.split)
  have "keeps (key_done i p k row) (capability_body env r d input iv)"
    unfolding capability_body_def
    by (auto intro!: keeps_bindC reserve invoke complete keeps_done_spares [OF spares_success] split: reservation.split)
  then show ?thesis
    unfolding capability_transaction_def
    by (auto intro!: keeps_catchC keeps_bindC keeps_done_spares [OF spares_records(3)]
        keeps_done_spares [OF spares_plain(5)] split: option.split)
qed

lemma same_but_audit_fields:
  "same_but_audit s t \<Longrightarrow> idempotency t = idempotency s"
  "same_but_audit s t \<Longrightarrow> confirmations t = confirmations s"
  by (cases s; cases t; simp add: same_but_audit_def)+

lemma execute_keeps_done:
  assumes "lawful r" and "key_done i p k row w" and "executeAuditedCapabilityTransaction env r raw iv w = (x, w')"
  shows "key_done i p k row w'"
proof -
  have "key_done i p k row (w\<lparr>w_context := fresh_context\<rparr>)" using assms(2) by (simp add: key_done_def)
  note tx = keepsD [OF keeps_done_run [OF assms(1)] this]
  from assms(3) show ?thesis
  proof (cases rule: execute_cases)
    case (refused d e v e')
    then obtain cx ae where "w_store w' = w_store v \<or>
        (\<exists>y. appendCapabilityAudit env (failureAuditEvent d (rg_id r) iv cx ae) (w_store v) = (y, w_store w'))"
      using report_failure_store by blast
    then have "idempotency (w_store w') = idempotency (w_store v)"
      using append_same_but_audit same_but_audit_fields(1) by metis
    then show ?thesis using assms(2) refused(3) by (simp add: key_done_def)
  qed (use assms(2) tx in auto)
qed

lemma engine_run_done: "engine_run env w w' \<Longrightarrow> key_done i p k row w \<Longrightarrow> key_done i p k row w'"
proof (induction rule: engine_run.induct)
  case (ran v r raw iv x u)
  then show ?case using execute_keeps_done by blast
next
  case (elsewhere v u new)
  then show ?case by (simp add: key_done_def find_append)
qed

section \<open>The run that completes a key\<close>

lemma reserved_done:
  assumes "reserve env r d input iv w = (Inr (Replayed out), w')" and "guards_leave_records r"
  shows "\<exists>m k row reference. ti_mutation iv = Some m \<and> IdempotencyKeySchema (mm_key m) = Some k
    \<and> key_done (rg_id r) (ce_principalDigest env (ti_actor iv)) k row w'
    \<and> ir_requestDigest row = request_digest env r input \<and> ir_resultReference row = Some reference"
proof -
  have "operation d = Mutation" "\<not> rg_repositoryOwned r"
    using assms(1) by (auto simp: reserve_def reserve_mutation_def run_Inr_iff split: if_splits option.splits)
  from assms(1) this obtain m k x v
    where m: "ti_mutation iv = Some m" "IdempotencyKeySchema (mm_key m) = Some k" "mutation_registration_ok r"
      and x: "on_store (claimSharedIdempotency (rg_id r) (ce_principalDigest env (ti_actor iv)) k
         (request_digest env r input) (ti_serverTime iv)) w = (Inr x, v)"
      and "(\<exists>n. x = Claim_new n \<and> Replayed out = Reserved (Some n) \<and> w' = v)
     \<or> (\<exists>reference y. x = Claim_completed (request_digest env r input) reference
          \<and> Replayed out = Replayed y \<and> replay env r d iv reference v = (Inr y, w'))"
    by (rule reserve_mutationD)
  then obtain reference where claim: "x = Claim_completed (request_digest env r input) reference"
    and replay: "replay env r d iv reference v = (Inr out, w')" by auto
  have "idempotency (w_store w') = idempotency (w_store v)"
    using spares_replay [OF assms(2) m(3)] replay by (auto simp: spares_def)
  moreover obtain row where "find (same_key (rg_id r) (ce_principalDigest env (ti_actor iv)) k) (idempotency (w_store v)) = Some row"
    "ir_status row = Completed" "ir_requestDigest row = request_digest env r input" "ir_resultReference row = Some reference"
    using x claim
    by (auto simp: on_store_def claimSharedIdempotency_def
        split: option.splits prod.splits idempotency_status.splits)
  ultimately show ?thesis using m by (auto simp: key_done_def)
qed

lemma completed_done:
  assumes "find (same_key i p k) (idempotency (w_store v)) = Some row" and "ir_id row = n" and "ir_status row = In_progress"
    and "on_store (completeSharedIdempotency n y ended) v = (Inr (), u)"
  shows "\<exists>z. key_done i p k z u \<and> ir_requestDigest z = ir_requestDigest row \<and> ir_resultReference z = Some y"
  using assms(1-3) complete_find [of n y ended "w_store v" "w_store u" i p k] assms(4)
  by (auto simp: on_store_def key_done_def split: prod.splits)

lemma reserved_new:
  assumes "reserve env r d input iv w = (Inr (Reserved reserved), v)" and "operation d = Mutation" and "\<not> rg_repositoryOwned r"
  obtains m k row where "ti_mutation iv = Some m" "IdempotencyKeySchema (mm_key m) = Some k"
    "find (same_key (rg_id r) (ce_principalDigest env (ti_actor iv)) k) (idempotency (w_store w)) = None"
    "idempotency (w_store v) = idempotency (w_store w) @ [row]" "same_key (rg_id r) (ce_principalDigest env (ti_actor iv)) k row"
    "ir_status row = In_progress" "ir_requestDigest row = request_digest env r input" "reserved = Some (ir_id row)"
proof -
  from assms obtain m k x where m: "ti_mutation iv = Some m" "IdempotencyKeySchema (mm_key m) = Some k"
    and claim: "on_store (claimSharedIdempotency (rg_id r) (ce_principalDigest env (ti_actor iv)) k
       (request_digest env r input) (ti_serverTime iv)) w = (Inr x, v)"
    and "\<exists>n. x = Claim_new n \<and> Reserved reserved = Reserved (Some n)"
    by (rule reserve_mutationD) auto
  then obtain n where n: "x = Claim_new n" "reserved = Some n" by auto
  define row where "row = \<lparr>ir_id = length (idempotency (w_store w)), ir_capabilityId = rg_id r,
    ir_principalDigest = ce_principalDigest env (ti_actor iv), ir_key = k, ir_requestDigest = request_digest env r input,
    ir_status = In_progress, ir_createdAt = ti_serverTime iv, ir_completedAt = None, ir_resultReference = None\<rparr>"
  have "find (same_key (rg_id r) (ce_principalDigest env (ti_actor iv)) k) (idempotency (w_store w)) = None"
    "idempotency (w_store v) = idempotency (w_store w) @ [row]" "n = ir_id row"
    using claim n
    by (auto simp: on_store_def claimSharedIdempotency_def row_def
        split: option.splits prod.splits idempotency_status.splits)
  moreover have "same_key (rg_id r) (ce_principalDigest env (ti_actor iv)) k row" "ir_status row = In_progress"
    "ir_requestDigest row = request_digest env r input"
    by (simp_all add: row_def same_key_def)
  ultimately show thesis using that m n by blast
qed

text \<open>A run of a mutation that returns leaves its key completed.\<close>

lemma run_completes_key:
  assumes "executeAuditedCapabilityTransaction env r raw iv w = (Inr out, w')"
    and "definition_of env (rg_id r) = Inr d" and "operation d = Mutation" and "\<not> rg_repositoryOwned r" and "lawful r"
  shows "\<exists>input m k row reference. preflightCapabilityInvocation env (rg_id r) raw iv = Inr input
    \<and> ti_mutation iv = Some m \<and> IdempotencyKeySchema (mm_key m) = Some k
    \<and> key_done (rg_id r) (ce_principalDigest env (ti_actor iv)) k row w'
    \<and> ir_requestDigest row = request_digest env r input \<and> ir_resultReference row = Some reference"
proof -
  have g: "guards_leave_records r" and h: "handler_respects (rg_handler r x)" for x
    using assms(5) by (simp_all add: lawful_def)
  from assms(1) obtain input where input: "preflightCapabilityInvocation env (rg_id r) raw iv = Inr input"
    and body: "capability_body env r d input iv (w\<lparr>w_context := fresh_context\<rparr>) = (Inr out, w')"
    by (cases rule: execute_cases) (use assms(2) in \<open>auto simp: transaction_finished\<close>)
  obtain reservation v where v: "reserve env r d input iv (w\<lparr>w_context := fresh_context\<rparr>) = (Inr reservation, v)"
    using body by (auto simp: capability_body_def run_Inr_iff)
  show ?thesis
  proof (cases reservation)
    case (Replayed out')
    then have "w' = v" using body v by (auto simp: capability_body_def run_Inr_iff)
    then show ?thesis using reserved_done [OF v [unfolded Replayed] g] input by blast
  next
    case (Reserved reserved)
    from v [unfolded Reserved] assms(3,4) obtain m k row
      where m: "ti_mutation iv = Some m" "IdempotencyKeySchema (mm_key m) = Some k"
        and none: "find (same_key (rg_id r) (ce_principalDigest env (ti_actor iv)) k) (idempotency (w_store w)) = None"
        and row: "idempotency (w_store v) = idempotency (w_store w) @ [row]"
          "same_key (rg_id r) (ce_principalDigest env (ti_actor iv)) k row" "ir_status row = In_progress"
          "ir_requestDigest row = request_digest env r input" "reserved = Some (ir_id row)"
      by (rule reserved_new) simp
    obtain parsed raw_out v1 v2 v3 where auth: "authorize_handler env r d input iv v = (Inr parsed, v1)"
      and handler: "run_callback (rg_handler r parsed) iv v1 = (Inr raw_out, v2)"
      and complete: "complete_reservation r d iv reserved out v2 = (Inr (), v3)"
      and success: "record_success env r d iv v3 = (Inr (), w')"
      using body v Reserved
      by (auto simp: capability_body_def invokeAuthorizedCapabilityHandler_def run_Inr_iff)
    obtain new where "idempotency (w_store v2) = idempotency (w_store v1) @ new"
      using h [of parsed] handler unfolding handler_respects_def run_callback_def by (fastforce split: prod.splits)
    moreover have "idempotency (w_store v1) = idempotency (w_store v)"
      using spares_authorize [OF g] auth by (auto simp: spares_def)
    ultimately have "find (same_key (rg_id r) (ce_principalDigest env (ti_actor iv)) k) (idempotency (w_store v2)) = Some row"
      using none row by (simp add: find_append)
    moreover obtain y where "on_store (completeSharedIdempotency (ir_id row) y (ti_serverTime iv)) v2 = (Inr (), v3)"
      using complete assms(3,4) row(5)
      by (auto simp: complete_reservation_def run_Inr_iff split: if_splits)
    ultimately obtain z where "key_done (rg_id r) (ce_principalDigest env (ti_actor iv)) k z v3"
      "ir_requestDigest z = ir_requestDigest row" "ir_resultReference z = Some y"
      using completed_done row(3) by metis
    moreover have "idempotency (w_store w') = idempotency (w_store v3)"
      using spares_success [of env r d iv, unfolded spares_def, rule_format, OF success] .
    ultimately show ?thesis using input m row(4) by (auto simp: key_done_def)
  qed
qed

section \<open>Later runs with a completed key\<close>

lemma done_not_reserved:
  assumes "key_done (rg_id r) (ce_principalDigest env (ti_actor iv)) k row w" and "operation d = Mutation"
    and "\<not> rg_repositoryOwned r" and "ti_mutation iv = Some m" and "IdempotencyKeySchema (mm_key m) = Some k"
  shows "reserve env r d input iv w \<noteq> (Inr (Reserved reserved), v)"
proof
  assume "reserve env r d input iv w = (Inr (Reserved reserved), v)"
  from this assms(2,3) show False
    by (rule reserved_new) (use assms in \<open>auto simp: key_done_def\<close>)
qed

lemma done_mismatch:
  assumes "key_done (rg_id r) (ce_principalDigest env (ti_actor iv)) k row w" and "operation d = Mutation"
    and "\<not> rg_repositoryOwned r" and "ti_mutation iv = Some m" and "IdempotencyKeySchema (mm_key m) = Some k"
    and "mutation_registration_ok r" and "ir_requestDigest row \<noteq> request_digest env r input"
    and "ir_resultReference row = Some reference" and "assertStaticMutationEnvelope env (rg_id r) input iv = Inr ()"
  shows "reserve env r d input iv w = (Inl (refuse IDEMPOTENCY_CONFLICT IDEMPOTENCY_REQUEST_MISMATCH 409), w)"
  using assms
  by (simp add: reserve_def reserve_mutation_def bindC_def on_store_def claimSharedIdempotency_def key_done_def throwC_def)

lemma report_failure_plain:
  assumes "report_failure env r d iv e w = (x, w')" and "rg_classify r e = None"
  shows "x = Inl (Engine_error (errorForUnknownFailure e)) \<or> x = Inl evidence_lost"
proof -
  obtain y s where run: "appendCapabilityAudit env (failureAuditEvent d (rg_id r) iv (w_context w) (errorForUnknownFailure e)) (w_store w) = (y, s)"
    by (cases "appendCapabilityAudit env (failureAuditEvent d (rg_id r) iv (w_context w) (errorForUnknownFailure e)) (w_store w)")
  then show ?thesis
    using assms
    by (cases y) (auto simp: report_failure_def Let_def bindC_def get_context_def catchC_def on_store_def
        transactionC_def throwC_def evidence_lost_def)
qed

text \<open>A run whose key was completed for another request.\<close>

lemma mismatch_refused:
  assumes "preflightCapabilityInvocation env (rg_id s) raw jv = Inr input" and "definition_of env (rg_id s) = Inr d"
    and "operation d = Mutation" and "\<not> rg_repositoryOwned s"
    and "ti_mutation jv = Some n" and "IdempotencyKeySchema (mm_key n) = Some k"
    and "mutation_registration_ok s" and "rg_classify s = (\<lambda>_. None)"
    and "key_done (rg_id s) (ce_principalDigest env (ti_actor jv)) k row (w\<lparr>w_context := fresh_context\<rparr>)"
    and "ir_requestDigest row \<noteq> request_digest env s input" and "ir_resultReference row = Some reference"
  shows "fst (executeAuditedCapabilityTransaction env s raw jv w)
    \<in> {Inl (refuse IDEMPOTENCY_CONFLICT IDEMPOTENCY_REQUEST_MISMATCH 409), Inl evidence_lost}"
proof -
  define e where "e = refuse IDEMPOTENCY_CONFLICT IDEMPOTENCY_REQUEST_MISMATCH 409"
  define w0 where "w0 = w\<lparr>w_context := fresh_context\<rparr>"
  have valid: "validateTrustedInvocation env jv = Inr ()" and allowed: "assertInvocationAllowed env (rg_id s) jv = Inr ()"
    and envelope: "assertStaticMutationEnvelope env (rg_id s) input jv = Inr ()"
    using assms(1-3) by (auto simp: preflightCapabilityInvocation_def bindR_Inr_iff split: sum.splits)
  have "reserve env s d input jv w0 = (Inl e, w0)"
    unfolding e_def w0_def using assms envelope by (intro done_mismatch) auto
  then have "capability_body env s d input jv w0 = (Inl e, w0)"
    using allowed by (simp add: capability_body_def bindC_def retC_def)
  then have "capability_transaction env s d input jv w0 = (Inl e, w0)"
    using assms(8)
    by (simp add: capability_transaction_def catchC_def bindC_def committed_disposition_def throwC_def)
  then have tx: "store_transaction (capability_transaction env s d input jv) w0 = (Inl e, w0)"
    by (simp add: store_transaction_def)
  obtain y :: "(thrown, run_outcome) result" and v where report: "report_failure env s d jv e w0 = (y, v)"
    by (cases "report_failure env s d jv e w0 :: (thrown, run_outcome) result \<times> _")
  then have "y = Inl e \<or> y = Inl evidence_lost"
    using report_failure_plain [OF report] assms(8) by (auto simp: e_def refuse_def)
  moreover have "fst (executeAuditedCapabilityTransaction env s raw jv w) = (case y of Inl e \<Rightarrow> Inl e | Inr _ \<Rightarrow> Inl e)"
    using valid assms(1,2) tx report \<open>y = Inl e \<or> y = Inl evidence_lost\<close>
    by (auto simp: executeAuditedCapabilityTransaction_def bindC_def set_context_def catchC_def w0_def)
  ultimately show ?thesis unfolding e_def by auto
qed

text \<open>C8: once a run of a mutation that keeps its idempotency keys with
  the engine returned, no later run with the same capability, principal and idempotency key reaches
  a handler: whatever handler the registration has then, the run is the same. A later request that
  differs from the first is refused as a mismatch of the key (or the caller is told that this
  refusal could not be recorded). Left out by hypothesis are the repository-owned mutations (the
  eight registrations at 2640-2739 of \<open>event-types.ts\<close>, 2839 and 2940 of \<open>sessions.ts\<close>, 446 and 508 of
  \<open>admin-capabilities.ts\<close>): the engine reserves nothing for them, their handler is reached again
  with the same key and their repository keeps the key itself. The registrations that run in
  between are lawful: their guards write none of the engine's tables, and their handlers keep
  consumed confirmations, the audit log and the idempotency rows and may only add to these.\<close>

theorem capability_key_runs_once:
  fixes r s :: "'d registration"
  assumes "executeAuditedCapabilityTransaction env r raw iv w = (Inr out, w1)"
    and "definition_of env (rg_id r) = Inr d" and "operation d = Mutation" and "\<not> rg_repositoryOwned r" and "lawful r"
    and "engine_run env w1 w2"
    and "rg_id s = rg_id r" and "\<not> rg_repositoryOwned s"
    and "ce_principalDigest env (ti_actor jv) = ce_principalDigest env (ti_actor iv)"
    and "Option.bind (ti_mutation jv) (IdempotencyKeySchema \<circ> mm_key) = Option.bind (ti_mutation iv) (IdempotencyKeySchema \<circ> mm_key)"
  shows "executeAuditedCapabilityTransaction env s raw' jv w2
      = executeAuditedCapabilityTransaction env (s\<lparr>rg_handler := h\<rparr>) raw' jv w2
    \<and> (\<forall>input input'. preflightCapabilityInvocation env (rg_id r) raw iv = Inr input
        \<and> preflightCapabilityInvocation env (rg_id s) raw' jv = Inr input'
        \<and> request_digest env s input' \<noteq> request_digest env r input
        \<and> mutation_registration_ok s \<and> rg_classify s = (\<lambda>_. None)
      \<longrightarrow> fst (executeAuditedCapabilityTransaction env s raw' jv w2)
          \<in> {Inl (refuse IDEMPOTENCY_CONFLICT IDEMPOTENCY_REQUEST_MISMATCH 409), Inl evidence_lost})"
proof -
  obtain input m k row reference where input: "preflightCapabilityInvocation env (rg_id r) raw iv = Inr input"
    and m: "ti_mutation iv = Some m" "IdempotencyKeySchema (mm_key m) = Some k"
    and row: "key_done (rg_id r) (ce_principalDigest env (ti_actor iv)) k row w1"
      "ir_requestDigest row = request_digest env r input" "ir_resultReference row = Some reference"
    using run_completes_key [OF assms(1-5)] by blast
  obtain n where n: "ti_mutation jv = Some n" "IdempotencyKeySchema (mm_key n) = Some k"
    using assms(10) m by (auto simp: bind_eq_Some_conv)
  have finished: "key_done (rg_id s) (ce_principalDigest env (ti_actor jv)) k row (w2\<lparr>w_context := fresh_context\<rparr>)"
    using engine_run_done [OF assms(6) row(1)] assms(7,9) by (simp add: key_done_def)
  have d: "definition_of env (rg_id s) = Inr d" using assms(2,7) by simp
  have "executeAuditedCapabilityTransaction env s raw' jv w2
      = executeAuditedCapabilityTransaction env (s\<lparr>rg_handler := h\<rparr>) raw' jv w2"
  proof (rule ccontr)
    assume "\<not> ?thesis"
    then obtain d' input' reserved v where "definition_of env (rg_id s) = Inr d'"
      "reserve env s d' input' jv (w2\<lparr>w_context := fresh_context\<rparr>) = (Inr (Reserved reserved), v)"
      by (rule handler_reached)
    then show False using done_not_reserved [OF finished assms(3,8) n] d by simp
  qed
  moreover have "fst (executeAuditedCapabilityTransaction env s raw' jv w2)
      \<in> {Inl (refuse IDEMPOTENCY_CONFLICT IDEMPOTENCY_REQUEST_MISMATCH 409), Inl evidence_lost}"
    if "preflightCapabilityInvocation env (rg_id s) raw' jv = Inr input'"
      and "request_digest env s input' \<noteq> request_digest env r input"
      and "mutation_registration_ok s" and "rg_classify s = (\<lambda>_. None)" for input'
    using mismatch_refused [OF that(1) d assms(3,8) n that(3,4) finished] that(2) row(2,3) by simp
  ultimately show ?thesis using input by auto
qed

end
