(* ===== verification/Capability_Samples.thy ===== *)
theory Capability_Samples
  imports Capability_Keys Audit_Evidence
begin

text \<open>
  The guarantees of the capability engine at work: a drill against the staff roster, started by a
  human who confirmed it, and the same request repeated, exchanged or refused.
\<close>

section \<open>One capability\<close>

definition sample_catalog :: catalog where
  "sample_catalog =
     (case eval_object
        [capability ''start-event'' ''start-event'' Mutation Start_event humanAgentScheduledInvocationPolicy
           None None None ''StartEventInputSchema'' ''StartEventResultSchema''] of
        Inl _ \<Rightarrow> [] | Inr c \<Rightarrow> c)"

definition sample_views :: capability_views where
  "sample_views =
     \<lparr>registeredCapabilityIds = [''start-event''], mutationSafetyManifest = [(''start-event'', Start_event)],
      queryManifest = [], viewInvocationPolicy = [], viewAuditPolicy = [],
      agentGrantableCapabilityIds = [''start-event'']\<rparr>"

definition sample_capability_env :: capability_env where
  "sample_capability_env =
     \<lparr>ce_catalog = sample_catalog, ce_views = Some sample_views, ce_schema = (\<lambda>_ v. Some v),
      ce_principalDigest = (\<lambda>_. zero_digest),
      ce_requestDigest = (\<lambda>_ v. if v = JStr ''drill'' then zero_digest else replicate 64 (CHR ''1'')),
      ce_email = (\<lambda>_. False), ce_clock = (\<lambda>_. 0), ce_audit = sample_audit_env,
      ce_references = (\<lambda>_. True), ce_ids = (\<lambda>n. if n = 0 then VALIDATION_ENTRY_ID else max_uuid),
      ce_writer = Direct_writer, ce_target = (\<lambda>_. None)\<rparr>"

definition unit_callback :: "'a \<Rightarrow> (unit, 'a) callback" where
  "unit_callback a _ _ p = (Inr a, p)"

definition sample_registration :: "string \<Rightarrow> unit registration" where
  "sample_registration answer =
     \<lparr>rg_id = ''start-event'', rg_handler = (\<lambda>_. unit_callback (JStr answer)),
      rg_resolveFacilityId = (\<lambda>_. unit_callback None), rg_campusParticipation = False,
      rg_resolveSafety = Some (\<lambda>_. unit_callback \<lparr>sr_kind = Drill, sr_population = Staff, sr_digest = zero_digest\<rparr>),
      rg_canonicalize = None, rg_resultReference = Some (\<lambda>_ _. ''event''),
      rg_loadReplay = Some (\<lambda>_. unit_callback (JStr ''started'')),
      rg_resolveReplayFacilityId = Some (\<lambda>_. unit_callback None), rg_replayFacilityId = Some (\<lambda>_. None),
      rg_repositoryOwned = False, rg_classify = (\<lambda>_. None)\<rparr>"

definition sample_invocation :: trusted_invocation where
  "sample_invocation =
     \<lparr>ti_actor = Human_actor nil_uuid nil_uuid, ti_principal = None, ti_principalKind = None, ti_source = Web,
      ti_scope = \<lparr>facilityScope = District, campusFacilityIds = None, partner = False\<rparr>,
      ti_requestId = nil_uuid, ti_serverTime = 0, ti_epoch = Some nil_uuid,
      ti_mutation = Some \<lparr>mm_key = sample_key, mm_transport = Ordinary Web_interactive,
                          mm_confirmationId = Some nil_uuid\<rparr>\<rparr>"

definition sample_confirmation :: confirmation_record where
  "sample_confirmation =
     \<lparr>cr_confirmation =
        \<lparr>hc_id = nil_uuid, hc_capabilityId = ''start-event'', hc_actionIds = [Send_real_notification],
         hc_epoch = nil_uuid, hc_user = nil_uuid, hc_session = nil_uuid, hc_digest = zero_digest,
         hc_issuedAt = 0, hc_expiresAt = 300000\<rparr>,
      cr_status = Issued, cr_consumedAt = None, cr_consumedFor = None, cr_expiredAt = None\<rparr>"

definition sample_world :: "unit world" where
  "sample_world =
     \<lparr>w_store = \<lparr>idempotency = [], confirmations = [sample_confirmation], audit_log = empty_log,
                 domain_tables = ()\<rparr>,
      w_context = fresh_context, w_ticks = 0\<rparr>"

definition sample_run :: "string \<Rightarrow> (thrown, js_value) result \<times> unit world" where
  "sample_run answer =
     executeAuditedCapabilityTransaction sample_capability_env (sample_registration answer) (JStr ''drill'')
       sample_invocation sample_world"

lemma sample_run_returns: "fst (sample_run ''started'') = Inr (JStr ''started'')"
  by code_simp

lemma unit_callback_leaves: "leaves_records (unit_callback a)"
  by (auto simp: leaves_records_def unit_callback_def)

lemma sample_guards: "guards_leave_records (sample_registration answer)"
  by (simp add: guards_leave_records_def sample_registration_def unit_callback_leaves)

lemma sample_lawful: "lawful (sample_registration answer)"
  by (simp add: lawful_def sample_guards)
     (simp add: sample_registration_def leaves_records_respects unit_callback_leaves)

lemma sample_other_handler:
  "(sample_registration answer)\<lparr>rg_handler := rg_handler (sample_registration other)\<rparr> = sample_registration other"
  by (simp add: sample_registration_def)

section \<open>The guarantees at work\<close>

text \<open>Exchanging the handler shows; so the confirmation was there, issued and unused.\<close>

theorem protected_handler_guarded_witness:
  "\<exists>row. confirmation_row nil_uuid (w_store sample_world) = Some row \<and> cr_status row = Issued"
proof -
  let ?r = "sample_registration ''started''" and ?s = "sample_registration ''other''"
  have "fst (sample_run ''started'') \<noteq> fst (sample_run ''other'')" by code_simp
  then have "executeAuditedCapabilityTransaction sample_capability_env ?r (JStr ''drill'') sample_invocation sample_world
      \<noteq> executeAuditedCapabilityTransaction sample_capability_env (?r\<lparr>rg_handler := rg_handler ?s\<rparr>)
          (JStr ''drill'') sample_invocation sample_world"
    unfolding sample_other_handler by (auto simp: sample_run_def)
  from protected_handler_guarded [OF this sample_guards] obtain d where
    d: "definition_of sample_capability_env (rg_id ?r) = Inr d"
    and protected: "humanActionPolicy d = Policy_central \<longrightarrow>
        (\<exists>resolution. run_resolution sample_capability_env ?r (JStr ''drill'') sample_invocation sample_world
            = Some resolution
          \<and> (deriveHumanOnlyActionIds (safetyEffect d) resolution \<noteq> [] \<longrightarrow>
              (\<exists>m cid row. ti_mutation sample_invocation = Some m \<and> mm_confirmationId m = Some cid
                 \<and> confirmation_row cid (w_store sample_world) = Some row \<and> cr_status row = Issued)))"
    by blast
  have "(case definition_of sample_capability_env (rg_id ?r) of
      Inl _ \<Rightarrow> False | Inr d \<Rightarrow> humanActionPolicy d = Policy_central \<and> safetyEffect d = Start_event)"
    by code_simp
  then have "humanActionPolicy d = Policy_central" "safetyEffect d = Start_event" by (simp_all add: d)
  moreover have "run_resolution sample_capability_env ?r (JStr ''drill'') sample_invocation sample_world
      = Some \<lparr>sr_kind = Drill, sr_population = Staff, sr_digest = zero_digest\<rparr>"
    by code_simp
  ultimately show ?thesis using protected by (auto simp: sample_invocation_def)
qed


text \<open>A run that returns, and one without an idempotency key, which is refused before it is audited.\<close>

definition keyless_invocation :: trusted_invocation where
  "keyless_invocation =
     sample_invocation\<lparr>ti_mutation := map_option (mm_key_update (\<lambda>_. [])) (ti_mutation sample_invocation)\<rparr>"

theorem capability_outcome_audited_witness:
  "success_audited sample_capability_env ''start-event'' sample_invocation (snd (sample_run ''started''))
   \<and> snd (executeAuditedCapabilityTransaction sample_capability_env (sample_registration ''started'')
        (JStr ''drill'') keyless_invocation sample_world) = sample_world"
proof -
  let ?run = "executeAuditedCapabilityTransaction sample_capability_env (sample_registration ''started'') (JStr ''drill'')"
  have valid: "validateTrustedInvocation sample_capability_env sample_invocation = Inr ()" by code_simp
  have "\<not> is_ok (validateTrustedInvocation sample_capability_env keyless_invocation)" by code_simp
  then obtain e where keyless: "validateTrustedInvocation sample_capability_env keyless_invocation = Inl e"
    by (cases "validateTrustedInvocation sample_capability_env keyless_invocation") auto
  have "(case definition_of sample_capability_env (rg_id (sample_registration ''started'')) of
      Inl _ \<Rightarrow> False | Inr d \<Rightarrow> auditPolicy d = All_outcomes)" by code_simp
  then obtain d where d: "definition_of sample_capability_env (rg_id (sample_registration ''started'')) = Inr d"
    "auditPolicy d = All_outcomes" by (auto split: sum.splits)
  have "?run sample_invocation sample_world = (Inr (JStr ''started''), snd (sample_run ''started''))"
    using sample_run_returns by (metis prod.collapse sample_run_def)
  from capability_outcome_audited [OF d this]
  have "success_audited sample_capability_env ''start-event'' sample_invocation (snd (sample_run ''started''))"
    by (simp add: valid sample_registration_def)
  moreover have "snd (?run keyless_invocation sample_world) = sample_world"
    using capability_outcome_audited [OF d surjective_pairing, of "JStr ''drill''" keyless_invocation sample_world]
    by (simp add: keyless)
  ultimately show ?thesis by simp
qed

lemma sample_engine_run: "engine_run sample_capability_env sample_world (snd (sample_run ''started''))"
  unfolding sample_run_def by (rule engine_run.ran [OF engine_run.start sample_lawful surjective_pairing])

theorem confirmation_used_once_witness:
  "\<exists>e. rows (audit_log (w_store (snd (sample_run ''started'')))) = [e]
     \<and> consumed_for (w_store (snd (sample_run ''started''))) nil_uuid (au_requestId e)"
proof -
  have "map (\<lambda>e. (au_outcome e, au_confirmationId e)) (rows (audit_log (w_store (snd (sample_run ''started'')))))
      = [(Audit_success, Some nil_uuid)]"
    by code_simp
  then obtain e where e: "rows (audit_log (w_store (snd (sample_run ''started'')))) = [e]"
    "au_outcome e = Audit_success" "au_confirmationId e = Some nil_uuid" by auto
  moreover have "distinct_confirmations (w_store sample_world)" "audit_log (w_store sample_world) = empty_log"
    by (simp_all add: sample_world_def distinct_confirmations_def)
  ultimately show ?thesis
    using confirmation_used_once [OF sample_engine_run, of e nil_uuid e] by simp
qed

text \<open>The same key for another request, and for another handler.\<close>

theorem capability_key_runs_once_witness:
  "executeAuditedCapabilityTransaction sample_capability_env (sample_registration ''started'') (JStr ''incident'')
       sample_invocation (snd (sample_run ''started''))
     = executeAuditedCapabilityTransaction sample_capability_env (sample_registration ''other'') (JStr ''incident'')
         sample_invocation (snd (sample_run ''started''))
   \<and> fst (executeAuditedCapabilityTransaction sample_capability_env (sample_registration ''started'')
        (JStr ''incident'') sample_invocation (snd (sample_run ''started''))) \<in>
       {Inl (refuse IDEMPOTENCY_CONFLICT IDEMPOTENCY_REQUEST_MISMATCH 409), Inl evidence_lost}"
proof -
  let ?r = "sample_registration ''started''"
  have "(case definition_of sample_capability_env (rg_id ?r) of Inl _ \<Rightarrow> False | Inr d \<Rightarrow> operation d = Mutation)"
    by code_simp
  then obtain d where d: "definition_of sample_capability_env (rg_id ?r) = Inr d" "operation d = Mutation"
    by (auto split: sum.splits)
  have run: "executeAuditedCapabilityTransaction sample_capability_env ?r (JStr ''drill'') sample_invocation sample_world
      = (Inr (JStr ''started''), snd (sample_run ''started''))"
    using sample_run_returns by (metis prod.collapse sample_run_def)
  have owned: "\<not> rg_repositoryOwned ?r" by (simp add: sample_registration_def)
  note key = capability_key_runs_once [OF run d owned sample_lawful engine_run.start refl owned refl refl,
      of "JStr ''incident''" "rg_handler (sample_registration ''other'')", unfolded sample_other_handler]
  have "preflightCapabilityInvocation sample_capability_env (rg_id ?r) (JStr ''drill'') sample_invocation = Inr (JStr ''drill'')"
    "preflightCapabilityInvocation sample_capability_env (rg_id ?r) (JStr ''incident'') sample_invocation = Inr (JStr ''incident'')"
    "request_digest sample_capability_env ?r (JStr ''incident'') \<noteq> request_digest sample_capability_env ?r (JStr ''drill'')"
    by code_simp+
  then show ?thesis using key
    by (auto simp: sample_registration_def mutation_registration_ok_def)
qed

end
