(* ===== verification/Capability_Session.thy ===== *)
theory Capability_Session
  imports Capability_Keys
begin

text \<open>
  The entry points of the engine around sessions: the invocation of an authenticated session and
  the audited replays of the two session mutations (\<open>engine.ts\<close>).
\<close>

section \<open>The invocation of an authenticated session\<close>

datatype session_source = From_web | From_mobile

fun source_of_session :: "session_source \<Rightarrow> invocation_source" where
  "source_of_session From_web = Web"
| "source_of_session From_mobile = Mobile"

record authenticated_session =
  as_user :: uuid
  as_session :: uuid
  as_source :: session_source
  as_scope :: capability_scope
  as_epoch :: uuid

text \<open>The key and the confirmation that came with the request, if it is a mutation.\<close>

definition resolveHumanCapabilityInvocation ::
  "authenticated_session \<Rightarrow> uuid \<Rightarrow> timestamp \<Rightarrow> (string \<times> uuid option) option \<Rightarrow> trusted_invocation" where
  "resolveHumanCapabilityInvocation a requestId serverTime request =
     \<lparr>ti_actor = Human_actor (as_user a) (as_session a), ti_principal = None, ti_principalKind = None,
      ti_source = source_of_session (as_source a), ti_scope = as_scope a, ti_requestId = requestId,
      ti_serverTime = serverTime, ti_epoch = Some (as_epoch a),
      ti_mutation = map_option (\<lambda>(key, confirmationId).
        \<lparr>mm_key = key,
         mm_transport = Ordinary (case as_source a of From_web \<Rightarrow> Web_interactive | From_mobile \<Rightarrow> Mobile_interactive),
         mm_confirmationId = confirmationId\<rparr>) request\<rparr>"

text \<open>Such an invocation is valid when its parts are, and its transport is the one of its source.\<close>

lemma resolved_invocation_valid:
  assumes "uuid_ok (as_user a)" and "uuid_ok (as_session a)" and "CapabilityScopeSchema (as_scope a)"
    and "uuid_ok (as_epoch a)" and "uuid_ok requestId"
    and "pred_option (\<lambda>(key, c). IdempotencyKeySchema key \<noteq> None \<and> pred_option uuid_ok c) request"
  shows "validateTrustedInvocation env (resolveHumanCapabilityInvocation a requestId serverTime request) = Inr ()"
  using assms
  by (cases "as_source a"; cases request)
     (auto simp: validateTrustedInvocation_def evidence_check_def invoking_kind_def
        resolveHumanCapabilityInvocation_def isActorSourceCompatible_def transport_ok_def
        guardR_def bindR_def)

lemma resolved_transport:
  assumes "ti_mutation (resolveHumanCapabilityInvocation a requestId serverTime request) = Some m"
  shows "\<exists>t. mm_transport m = Ordinary t
    \<and> mutationTransportKindBySource (source_of_session (as_source a)) = kind_of_transport t"
  using assms by (cases "as_source a") (auto simp: resolveHumanCapabilityInvocation_def)

section \<open>Audited replays of session mutations\<close>

datatype session_mutation = Refresh_session | Revoke_session

fun session_mutation_id :: "session_mutation \<Rightarrow> string" where
  "session_mutation_id Refresh_session = ''refresh-session''"
| "session_mutation_id Revoke_session = ''revoke-session''"

record session_replay =
  sp_mutation :: session_mutation
  sp_actor :: actor
  sp_source :: session_source
  sp_requestId :: uuid
  sp_serverTime :: timestamp

definition sessionReplayAuditEvent :: "session_replay \<Rightarrow> bool \<Rightarrow> (thrown, audit_fact) result" where
  "sessionReplayAuditEvent p success =
     bindR (guardR (ActorSchema (sp_actor p)) invalid) (\<lambda>_.
     bindR (guardR (actor_kind (sp_actor p) = Human) (refuse FORBIDDEN CAPABILITY_INVOCATION_DENIED 403)) (\<lambda>_.
     bindR (guardR (uuid_ok (sp_requestId p)) invalid) (\<lambda>_.
     Inr \<lparr>au_category = (if success then Capability_execution else Access_denial),
          au_action = session_mutation_id (sp_mutation p), au_actionIds = [], au_confirmationId = None,
          au_outcome = (if success then Audit_success else Audit_denied),
          au_principal = Actor_principal (sp_actor p), au_source = source_of_session (sp_source p),
          au_facilityId = None, au_target = None, au_requestId = sp_requestId p,
          au_reasonCode = (if success then None else Some (reason_text CAPABILITY_INVOCATION_DENIED)),
          au_occurredAt = sp_serverTime p\<rparr>)))"

definition executeAuditedSessionReplaySuccess ::
  "capability_env \<Rightarrow> session_replay \<Rightarrow> ('d engine_store, thrown, unit) comp" where
  "executeAuditedSessionReplaySuccess env p =
     bindC (liftR (sessionReplayAuditEvent p True)) (\<lambda>event.
       transactionC (appendCapabilityAudit env event))"

text \<open>The security response to a replayed refresh token is written together with the denial.\<close>

definition executeAuditedRefreshReplayDenial ::
  "capability_env \<Rightarrow> session_replay \<Rightarrow> ('d engine_store, thrown, unit) comp
     \<Rightarrow> ('d engine_store, thrown, unit) comp" where
  "executeAuditedRefreshReplayDenial env p respond =
     bindC (liftR (sessionReplayAuditEvent (p\<lparr>sp_mutation := Refresh_session\<rparr>) False)) (\<lambda>event.
       transactionC (bindC respond (\<lambda>_. appendCapabilityAudit env event)))"

text \<open>Response and denial are kept together or not at all.\<close>

lemma replay_denial_atomic:
  assumes "executeAuditedRefreshReplayDenial env p respond s = (x, t)"
  shows "case x of
      Inl e \<Rightarrow> t = s
    | Inr _ \<Rightarrow> \<exists>u. respond s = (Inr (), u) \<and> same_but_audit u t
        \<and> audited_in env (audit_log t)
            \<lparr>au_category = Access_denial, au_action = ''refresh-session'', au_actionIds = [],
             au_confirmationId = None, au_outcome = Audit_denied, au_principal = Actor_principal (sp_actor p),
             au_source = source_of_session (sp_source p), au_facilityId = None, au_target = None,
             au_requestId = sp_requestId p,
             au_reasonCode = Some (reason_text CAPABILITY_INVOCATION_DENIED), au_occurredAt = sp_serverTime p\<rparr>"
proof (cases "sessionReplayAuditEvent (p\<lparr>sp_mutation := Refresh_session\<rparr>) False")
  case (Inl e)
  then show ?thesis using assms by (auto simp: executeAuditedRefreshReplayDenial_def throwC_def)
next
  case (Inr event)
  then have run: "transactionC (bindC respond (\<lambda>_. appendCapabilityAudit env event)) s = (x, t)"
    using assms by (simp add: executeAuditedRefreshReplayDenial_def)
  show ?thesis
  proof (cases x)
    case (Inl e)
    then show ?thesis using run transactionC_Inl by fastforce
  next
    case ok: (Inr y)
    then obtain u where u: "respond s = (Inr (), u)" and app: "appendCapabilityAudit env event u = (Inr (), t)"
      using run by (auto dest!: transactionC_Inr simp: bindC_Inr_iff)
    define v :: "'a world" where "v = \<lparr>w_store = u, w_context = fresh_context, w_ticks = 0\<rparr>"
    have "on_store (appendCapabilityAudit env event) v = (Inr (), v\<lparr>w_store := t\<rparr>)"
      using app by (simp add: on_store_def v_def)
    from append_audited [OF this] have "audited_in env (audit_log t) event"
      by (simp add: audited_def v_def)
    moreover have "event = \<lparr>au_category = Access_denial, au_action = ''refresh-session'', au_actionIds = [],
        au_confirmationId = None, au_outcome = Audit_denied, au_principal = Actor_principal (sp_actor p),
        au_source = source_of_session (sp_source p), au_facilityId = None, au_target = None,
        au_requestId = sp_requestId p, au_reasonCode = Some (reason_text CAPABILITY_INVOCATION_DENIED),
        au_occurredAt = sp_serverTime p\<rparr>"
      using Inr by (auto simp: sessionReplayAuditEvent_def bindR_Inr_iff)
    ultimately show ?thesis using ok u append_same_but_audit [OF app] by auto
  qed
qed

end
