(* ===== verification/Outbox_Queue.thy ===== *)
theory Outbox_Queue
  imports Notification "HOL-Library.Word"
begin

text \<open>
  The queue side of \<open>packages/server/lib/notify/dispatcher.ts\<close>: the retry delay of an outbox,
  the entries of one SQS batch, and what the answers of SQS are taken for. The text of a batch
  (\<open>JSON.stringify\<close>) and SHA-256 are arguments; a response is a JSON value.
\<close>

section \<open>Errors\<close>

datatype dispatcher_code =
  OUTBOX_ALREADY_FAILED | OUTBOX_CLAIM_BUSY | OUTBOX_CLAIM_LOST | OUTBOX_CONFIGURATION_INVALID
| OUTBOX_DISPATCH_RETRY_EXHAUSTED | OUTBOX_NOT_FOUND | OUTBOX_PERSISTENCE_FAILED
| SQS_AUTHENTICATION_FAILED | SQS_BATCH_ENTRY_REJECTED | SQS_CREDENTIALS_UNAVAILABLE
| SQS_REQUEST_FAILED | SQS_RESPONSE_INVALID

fun dispatcher_code_text :: "dispatcher_code \<Rightarrow> string" where
  "dispatcher_code_text OUTBOX_ALREADY_FAILED = ''OUTBOX_ALREADY_FAILED''"
| "dispatcher_code_text OUTBOX_CLAIM_BUSY = ''OUTBOX_CLAIM_BUSY''"
| "dispatcher_code_text OUTBOX_CLAIM_LOST = ''OUTBOX_CLAIM_LOST''"
| "dispatcher_code_text OUTBOX_CONFIGURATION_INVALID = ''OUTBOX_CONFIGURATION_INVALID''"
| "dispatcher_code_text OUTBOX_DISPATCH_RETRY_EXHAUSTED = ''OUTBOX_DISPATCH_RETRY_EXHAUSTED''"
| "dispatcher_code_text OUTBOX_NOT_FOUND = ''OUTBOX_NOT_FOUND''"
| "dispatcher_code_text OUTBOX_PERSISTENCE_FAILED = ''OUTBOX_PERSISTENCE_FAILED''"
| "dispatcher_code_text SQS_AUTHENTICATION_FAILED = ''SQS_AUTHENTICATION_FAILED''"
| "dispatcher_code_text SQS_BATCH_ENTRY_REJECTED = ''SQS_BATCH_ENTRY_REJECTED''"
| "dispatcher_code_text SQS_CREDENTIALS_UNAVAILABLE = ''SQS_CREDENTIALS_UNAVAILABLE''"
| "dispatcher_code_text SQS_REQUEST_FAILED = ''SQS_REQUEST_FAILED''"
| "dispatcher_code_text SQS_RESPONSE_INVALID = ''SQS_RESPONSE_INVALID''"

datatype queue_outcome = Not_sent | Partial | Unknown_outcome

text \<open>
  What is thrown: an error of the dispatcher, its subclass for queue failures, or anything else,
  a refused schema or a failed statement of the database.
\<close>

datatype dispatch_thrown =
  Dispatcher_error dispatcher_code bool
| Publish_error dispatcher_code bool queue_outcome
| Unexpected_error

text \<open>Code and retryability of an error, as \<open>normalizeDispatcherError\<close> reads them.\<close>

fun normalizeDispatcherError :: "dispatch_thrown \<Rightarrow> dispatcher_code \<times> bool" where
  "normalizeDispatcherError (Dispatcher_error c retryable) = (c, retryable)"
| "normalizeDispatcherError (Publish_error c retryable _) = (c, retryable)"
| "normalizeDispatcherError Unexpected_error = (OUTBOX_PERSISTENCE_FAILED, True)"

section \<open>The delay before a retry\<close>

definition MAX_OUTBOX_POLL_SIZE :: int where "MAX_OUTBOX_POLL_SIZE = 100"
definition MAX_OUTBOX_DISPATCH_ATTEMPTS :: int where "MAX_OUTBOX_DISPATCH_ATTEMPTS = 5"
definition DEFAULT_OUTBOX_LEASE_MILLISECONDS :: int where "DEFAULT_OUTBOX_LEASE_MILLISECONDS = 30000"
definition BASE_OUTBOX_BACKOFF_MILLISECONDS :: int where "BASE_OUTBOX_BACKOFF_MILLISECONDS = 500"
definition MAX_OUTBOX_BACKOFF_MILLISECONDS :: int where "MAX_OUTBOX_BACKOFF_MILLISECONDS = 30000"

definition assertPositiveBoundedInteger :: "js_number \<Rightarrow> int \<Rightarrow> (dispatch_thrown, int) result" where
  "assertPositiveBoundedInteger v maximum =
     (if \<not> js_integer v \<or> num v < 1 \<or> num v > of_int maximum
      then Inl (Dispatcher_error OUTBOX_CONFIGURATION_INVALID False) else Inr (js_int v))"

text \<open>\<open>sha key\<close> is the first four bytes of the digest of the key, read as a big-endian number.\<close>

definition deterministicJitterFraction :: "(string \<Rightarrow> 32 word) \<Rightarrow> string \<Rightarrow> rat" where
  "deterministicJitterFraction sha key = of_nat (unat (sha key)) / 4294967295"

definition computeOutboxBackoffMilliseconds ::
  "js_number \<Rightarrow> js_number \<Rightarrow> (dispatch_thrown, int) result" where
  "computeOutboxBackoffMilliseconds attempt jitterFraction =
     bindR (assertPositiveBoundedInteger attempt 100) (\<lambda>n.
       if \<not> js_finite jitterFraction \<or> num jitterFraction < 0 \<or> num jitterFraction > 1
       then Inl (Dispatcher_error OUTBOX_CONFIGURATION_INVALID False)
       else let exponential = min MAX_OUTBOX_BACKOFF_MILLISECONDS
                  (BASE_OUTBOX_BACKOFF_MILLISECONDS * 2 ^ nat (min (n - 1) 16));
                jittered = of_int exponential * (1 + num jitterFraction * (1 / 4))
            in Inr (min MAX_OUTBOX_BACKOFF_MILLISECONDS (js_round jittered)))"

lemma jitter_fraction_bounds:
  "0 \<le> deterministicJitterFraction sha key" "deterministicJitterFraction sha key \<le> 1"
proof -
  have "unat (sha key) < 2 ^ LENGTH(32)" by (rule unsigned_less)
  then have "unat (sha key) \<le> 4294967295" by simp
  then have "(of_nat (unat (sha key)) :: rat) \<le> of_nat 4294967295" by (simp only: of_nat_le_iff)
  then show "deterministicJitterFraction sha key \<le> 1"
    by (simp add: deterministicJitterFraction_def)
  show "0 \<le> deterministicJitterFraction sha key"
    unfolding deterministicJitterFraction_def by (rule divide_nonneg_pos [OF of_nat_0_le_iff]) simp
qed

lemma assert_bounded_of_int [simp]:
  "assertPositiveBoundedInteger (Finite (of_int n)) maximum =
     (if n < 1 \<or> n > maximum then Inl (Dispatcher_error OUTBOX_CONFIGURATION_INVALID False) else Inr n)"
  by (auto simp: assertPositiveBoundedInteger_def)

text \<open>For the attempts that a claim may have, the delay lies between half a second and half a minute.\<close>

lemma backoff_bounds:
  assumes "1 \<le> n" and "n \<le> 100" and "0 \<le> q" and "q \<le> 1"
  shows "\<exists>d. computeOutboxBackoffMilliseconds (Finite (of_int n)) (Finite q) = Inr d
    \<and> BASE_OUTBOX_BACKOFF_MILLISECONDS \<le> d \<and> d \<le> MAX_OUTBOX_BACKOFF_MILLISECONDS"
proof -
  define x :: int where "x = min 30000 (500 * 2 ^ nat (min (n - 1) 16))"
  have "(1::int) \<le> 2 ^ nat (min (n - 1) 16)" by simp
  then have x: "500 \<le> x" unfolding x_def by linarith
  have "(of_int x :: rat) * 1 \<le> of_int x * (1 + q * (1 / 4))"
    using assms(3) x by (intro mult_left_mono) simp_all
  then have "of_int x \<le> of_int x * (1 + q * (1 / 4))" by simp
  then have "x \<le> js_round (of_int x * (1 + q * (1 / 4)))"
    unfolding js_round_def by linarith
  then show ?thesis
    using assms x
    by (auto simp: computeOutboxBackoffMilliseconds_def BASE_OUTBOX_BACKOFF_MILLISECONDS_def
        MAX_OUTBOX_BACKOFF_MILLISECONDS_def simp flip: x_def)
qed

section \<open>Entries of one SQS batch\<close>

record queue_entry =
  qe_id :: string
  qe_batchId :: uuid
  qe_body :: string

record queue_acknowledgement =
  qa_entryId :: string
  qa_messageId :: string

text \<open>The decimal digits of a natural number.\<close>

fun decimal :: "nat \<Rightarrow> string" where
  "decimal n = (if n < 10 then [char_of (48 + n)] else decimal (n div 10) @ [char_of (48 + n mod 10)])"

declare decimal.simps [simp del]

definition undecimal :: "string \<Rightarrow> nat" where
  "undecimal s = foldl (\<lambda>v c. 10 * v + (of_char c - 48)) 0 s"

lemma undecimal_snoc: "undecimal (s @ [c]) = 10 * undecimal s + (of_char c - 48)"
  by (simp add: undecimal_def)

lemma undecimal_decimal: "undecimal (decimal n) = n"
proof (induction n rule: decimal.induct)
  case (1 n)
  show ?case
  proof (cases "n < 10")
    case True
    then show ?thesis by (simp add: decimal.simps [of n] undecimal_def)
  next
    case False
    then show ?thesis using 1 by (simp add: decimal.simps [of n] undecimal_snoc)
  qed
qed

definition entry_id :: "int \<Rightarrow> string" where
  "entry_id sequence = ''batch_'' @ decimal (nat sequence)"

lemma entry_id_inject: "0 \<le> i \<Longrightarrow> 0 \<le> j \<Longrightarrow> entry_id i = entry_id j \<longleftrightarrow> i = j"
  using undecimal_decimal by (auto simp: entry_id_def) (metis nat_0_le)

definition serializeDispatchQueueEntries ::
  "(dispatch_batch \<Rightarrow> string) \<Rightarrow> dispatch_batch list \<Rightarrow> (dispatch_thrown, queue_entry list) result" where
  "serializeDispatchQueueEntries json_text batches =
     (if \<not> list_all DispatchBatchSchema batches then Inl Unexpected_error
      else if \<not> distinct (map (\<lambda>b. entry_id (b_sequence b)) batches)
      then Inl (Publish_error SQS_BATCH_ENTRY_REJECTED False Not_sent)
      else if length batches < 1 \<or> length batches > 10
      then Inl (Publish_error SQS_BATCH_ENTRY_REJECTED False Not_sent)
      else Inr (map (\<lambda>b. \<lparr>qe_id = entry_id (b_sequence b), qe_batchId = b_id b, qe_body = json_text b\<rparr>) batches))"

section \<open>Answers of SQS\<close>

definition RETRYABLE_SQS_ERROR_CODES :: "string list" where
  "RETRYABLE_SQS_ERROR_CODES =
     [''InternalError'', ''KmsThrottled'', ''OverLimit'', ''RequestThrottled'', ''RequestTimeout'',
      ''ServiceUnavailable'', ''ThrottlingException'']"

definition REFRESHABLE_SQS_AUTH_ERROR_CODES :: "string list" where
  "REFRESHABLE_SQS_AUTH_ERROR_CODES =
     [''ExpiredToken'', ''ExpiredTokenException'', ''InvalidClientTokenId'', ''UnrecognizedClientException'']"

definition TERMINAL_SQS_AUTH_ERROR_CODES :: "string list" where
  "TERMINAL_SQS_AUTH_ERROR_CODES =
     [''AccessDenied'', ''AccessDeniedException'', ''InvalidSecurity'', ''InvalidSecurityToken'',
      ''SignatureDoesNotMatch'']"

fun unknownRecord :: "js_value \<Rightarrow> (string \<times> js_value) list option" where
  "unknownRecord (JObj fs) = Some fs"
| "unknownRecord _ = None"

text \<open>\<open>a ?? b\<close>\<close>

definition or_else :: "js_value \<Rightarrow> js_value \<Rightarrow> js_value" where
  "or_else a b = (if a = JNull \<or> a = JUndefined then b else a)"

definition after_last :: "char \<Rightarrow> string \<Rightarrow> string" where
  "after_last c s = rev (takeWhile (\<lambda>x. x \<noteq> c) (rev s))"

definition code_char :: "char \<Rightarrow> bool" where
  "code_char c =
     (ascii_lower c \<or> ascii_upper c \<or> ascii_digit c \<or> c \<in> {CHR ''.'', CHR ''_'', CHR ''-''})"

definition awsErrorCode :: "js_value \<Rightarrow> string option" where
  "awsErrorCode v =
     (case unknownRecord v of
        None \<Rightarrow> None
      | Some fs \<Rightarrow>
          (case or_else (js_field fs ''__type'') (or_else (js_field fs ''code'') (js_field fs ''Code'')) of
             JStr candidate \<Rightarrow>
               if length candidate > 256 then None
               else let fragment = takeWhile (\<lambda>c. c \<noteq> CHR '':'') (after_last (CHR ''#'') candidate)
                    in if fragment = [] \<or> \<not> list_all code_char fragment then None else Some fragment
           | _ \<Rightarrow> None))"

definition sqsHttpFailure :: "int \<Rightarrow> js_value \<Rightarrow> dispatch_thrown" where
  "sqsHttpFailure status response =
     (let has = (\<lambda>codes. case awsErrorCode response of None \<Rightarrow> False | Some c \<Rightarrow> c \<in> set codes);
          refreshable = has REFRESHABLE_SQS_AUTH_ERROR_CODES;
          terminal = has TERMINAL_SQS_AUTH_ERROR_CODES
      in if refreshable \<or> terminal \<or> status = 401 \<or> status = 403
         then Publish_error SQS_AUTHENTICATION_FAILED refreshable Not_sent
         else let retryable = (status = 408 \<or> status = 429 \<or> status \<ge> 500 \<or> has RETRYABLE_SQS_ERROR_CODES)
              in Publish_error SQS_REQUEST_FAILED retryable (if retryable then Unknown_outcome else Not_sent))"

record sqs_failure =
  sf_id :: string
  sf_code :: string
  sf_senderFault :: bool

definition parseSqsFailure :: "js_value \<Rightarrow> sqs_failure option" where
  "parseSqsFailure v =
     (case unknownRecord v of
        None \<Rightarrow> None
      | Some fs \<Rightarrow>
          (case (js_field fs ''Id'', js_field fs ''Code'', js_field fs ''SenderFault'') of
             (JStr i, JStr c, JBool fault) \<Rightarrow>
               if 0 < length i \<and> length i \<le> 80 \<and> 0 < length c \<and> length c \<le> 256
               then Some \<lparr>sf_id = i, sf_code = c, sf_senderFault = fault\<rparr> else None
           | _ \<Rightarrow> None))"

definition parseSqsSuccess :: "js_value \<Rightarrow> queue_acknowledgement option" where
  "parseSqsSuccess v =
     (case unknownRecord v of
        None \<Rightarrow> None
      | Some fs \<Rightarrow>
          (case (js_field fs ''Id'', js_field fs ''MessageId'') of
             (JStr i, JStr m) \<Rightarrow>
               if 1 \<le> length m \<and> length m \<le> 256
                  \<and> list_all (\<lambda>c. of_char c \<noteq> (0::nat) \<and> of_char c \<noteq> (13::nat) \<and> of_char c \<noteq> (10::nat)) m
               then Some \<lparr>qa_entryId = i, qa_messageId = m\<rparr> else None
           | _ \<Rightarrow> None))"

definition invalid_response :: "queue_acknowledgement list \<Rightarrow> dispatch_thrown" where
  "invalid_response acks =
     Publish_error SQS_RESPONSE_INVALID True (if acks = [] then Unknown_outcome else Partial)"

text \<open>The two loops; the identifiers observed so far are those of what was collected.\<close>

fun collect_successes ::
  "string list \<Rightarrow> queue_acknowledgement list \<Rightarrow> js_value list \<Rightarrow> (dispatch_thrown, queue_acknowledgement list) result" where
  "collect_successes expected acks [] = Inr acks"
| "collect_successes expected acks (v # vs) =
     (case parseSqsSuccess v of
        None \<Rightarrow> Inl (invalid_response acks)
      | Some a \<Rightarrow>
          if qa_entryId a \<notin> set expected \<or> qa_entryId a \<in> qa_entryId ` set acks then Inl (invalid_response acks)
          else collect_successes expected (acks @ [a]) vs)"

fun collect_failures ::
  "string list \<Rightarrow> queue_acknowledgement list \<Rightarrow> sqs_failure list \<Rightarrow> js_value list
     \<Rightarrow> (dispatch_thrown, sqs_failure list) result" where
  "collect_failures expected acks fails [] = Inr fails"
| "collect_failures expected acks fails (v # vs) =
     (case parseSqsFailure v of
        None \<Rightarrow> Inl (invalid_response acks)
      | Some f \<Rightarrow>
          if sf_id f \<notin> set expected \<or> sf_id f \<in> qa_entryId ` set acks \<union> sf_id ` set fails
          then Inl (invalid_response acks)
          else collect_failures expected acks (fails @ [f]) vs)"

definition rejected_entries :: "queue_acknowledgement list \<Rightarrow> sqs_failure list \<Rightarrow> dispatch_thrown" where
  "rejected_entries acks fails =
     Publish_error
       (if list_ex (\<lambda>f. sf_code f \<in> set REFRESHABLE_SQS_AUTH_ERROR_CODES
                      \<or> sf_code f \<in> set TERMINAL_SQS_AUTH_ERROR_CODES) fails
        then SQS_AUTHENTICATION_FAILED else SQS_BATCH_ENTRY_REJECTED)
       (acks \<noteq> [] \<or> list_ex (\<lambda>f. \<not> sf_senderFault f \<or> sf_code f \<in> set RETRYABLE_SQS_ERROR_CODES
                                \<or> sf_code f \<in> set REFRESHABLE_SQS_AUTH_ERROR_CODES) fails)
       (if acks \<noteq> [] then Partial else Not_sent)"

definition parseSqsSendMessageBatchResponse ::
  "js_value \<Rightarrow> queue_entry list \<Rightarrow> (dispatch_thrown, queue_acknowledgement list) result" where
  "parseSqsSendMessageBatchResponse v entries =
     (case unknownRecord v of
        None \<Rightarrow> Inl (invalid_response [])
      | Some fs \<Rightarrow>
          (case (or_else (js_field fs ''Successful'') (JArr []), or_else (js_field fs ''Failed'') (JArr [])) of
             (JArr successful, JArr failed) \<Rightarrow>
               let expected = map qe_id entries
               in bindR (collect_successes expected [] successful) (\<lambda>acks.
                  bindR (collect_failures expected acks [] failed) (\<lambda>fails.
                    if card (qa_entryId ` set acks \<union> sf_id ` set fails) \<noteq> card (set expected)
                    then Inl (invalid_response acks)
                    else if fails \<noteq> [] then Inl (rejected_entries acks fails)
                    else Inr acks))
           | _ \<Rightarrow> Inl (invalid_response [])))"

text \<open>What a dispatcher makes of the acknowledgements that its queue returned.\<close>

definition assertCompleteQueueAcknowledgement ::
  "(dispatch_batch \<Rightarrow> string) \<Rightarrow> dispatch_batch list \<Rightarrow> queue_acknowledgement list \<Rightarrow> (dispatch_thrown, unit) result" where
  "assertCompleteQueueAcknowledgement json_text batches acks =
     bindR (serializeDispatchQueueEntries json_text batches) (\<lambda>entries.
       let expected = map qe_id entries; actual = map qa_entryId acks
       in if list_ex (\<lambda>a. js_trim (qa_entryId a) = [] \<or> js_trim (qa_messageId a) = []) acks
          then Inl (Publish_error SQS_RESPONSE_INVALID True Unknown_outcome)
          else if \<not> distinct actual \<or> length expected \<noteq> length actual \<or> \<not> set expected \<subseteq> set actual
          then Inl (Publish_error SQS_RESPONSE_INVALID True (if actual = [] then Unknown_outcome else Partial))
          else Inr ())"

end
