(* ===== verification/Outbox_Store.thy ===== *)
theory Outbox_Store
  imports Outbox_Queue "HOL-Library.List_Lexorder" "HOL-Library.Char_ord"
begin

text \<open>
  The outbox tables and the store of the dispatcher (\<open>createDrizzleOutboxDispatcherStore\<close> in
  \<open>dispatcher.ts\<close>): claims under a lease, the immutable batches of an outbox, publication and
  retries. The constraints of \<open>db/schema/delivery.ts\<close> and the update trigger of the outbox are
  part of the tables. Each operation is one transaction.
\<close>

section \<open>Tables\<close>

record event_row =
  er_id :: uuid
  er_kind :: event_kind
  er_mode :: template_mode
  er_population :: roster_population
  er_facilityId :: uuid

record channel_row =
  ch_intentId :: uuid
  ch_sequence :: int
  ch_plan :: channel_preview

record outbox_row =
  ob_id :: uuid
  ob_messageVersion :: int
  ob_intentId :: uuid
  ob_eventId :: uuid
  ob_eventKind :: event_kind
  ob_templateMode :: template_mode
  ob_rosterPopulation :: roster_population
  ob_message :: outbox_message
  ob_createdAt :: timestamp
  ob_status :: outbox_status
  ob_attempts :: int
  ob_availableAt :: timestamp
  ob_lockedUntil :: "timestamp option"
  ob_publishedAt :: "timestamp option"
  ob_failedAt :: "timestamp option"
  ob_lastErrorCode :: "string option"

text \<open>A row of \<open>dispatch_batches\<close>; its columns but the facility are those of a batch.\<close>

record batch_row = authorized_notification +
  br_id :: uuid
  br_outboxId :: uuid
  br_intentId :: uuid
  br_plan :: channel_preview
  br_sequence :: int
  br_createdAt :: timestamp

record outbox_db =
  db_events :: "event_row list"
  db_channels :: "channel_row list"
  db_outbox :: "outbox_row list"
  db_batches :: "batch_row list"
  db_idsDrawn :: nat
  db_reads :: nat

text \<open>The database clock by number of readings, random identifiers, and the options of the store.\<close>

record outbox_env =
  oe_clock :: "nat \<Rightarrow> timestamp"
  oe_id :: "nat \<Rightarrow> uuid"
  oe_sha :: "string \<Rightarrow> 32 word"
  oe_text :: "dispatch_batch \<Rightarrow> string"
  oe_lease :: int
  oe_maxAttempts :: int

definition outbox_options ::
  "js_number option \<Rightarrow> js_number option \<Rightarrow> (dispatch_thrown, int \<times> int) result" where
  "outbox_options leaseMilliseconds maxAttempts =
     bindR (assertPositiveBoundedInteger
              (case leaseMilliseconds of None \<Rightarrow> Finite (of_int DEFAULT_OUTBOX_LEASE_MILLISECONDS) | Some n \<Rightarrow> n)
              (10 * 60 * 1000)) (\<lambda>lease.
     bindR (assertPositiveBoundedInteger
              (case maxAttempts of None \<Rightarrow> Finite (of_int MAX_OUTBOX_DISPATCH_ATTEMPTS) | Some n \<Rightarrow> n) 100) (\<lambda>most.
     Inr (lease, most)))"

section \<open>Constraints and the update trigger\<close>

definition outbox_constraints :: "outbox_row \<Rightarrow> bool" where
  "outbox_constraints r =
     (0 \<le> ob_attempts r \<and> ob_attempts r \<le> 100
      \<and> (ob_status r = Outbox_processing) = (ob_lockedUntil r \<noteq> None)
      \<and> (ob_status r = Outbox_published) = (ob_publishedAt r \<noteq> None)
      \<and> (ob_status r = Outbox_failed) = (ob_failedAt r \<noteq> None)
      \<and> (ob_status r = Outbox_failed \<longrightarrow> ob_lastErrorCode r \<noteq> None)
      \<and> ob_createdAt r \<le> ob_availableAt r
      \<and> pred_option (\<lambda>t. ob_createdAt r \<le> t) (ob_lockedUntil r)
      \<and> pred_option (\<lambda>t. ob_createdAt r \<le> t) (ob_publishedAt r)
      \<and> pred_option (\<lambda>t. ob_createdAt r \<le> t) (ob_failedAt r)
      \<and> pred_option reason_code_ok (ob_lastErrorCode r))"

text \<open>The columns that may change are the last seven; the trigger compares the others.\<close>

definition same_content :: "outbox_row \<Rightarrow> outbox_row \<Rightarrow> bool" where
  "same_content old new =
     (ob_id new = ob_id old \<and> ob_messageVersion new = ob_messageVersion old
      \<and> ob_intentId new = ob_intentId old \<and> ob_eventId new = ob_eventId old
      \<and> ob_eventKind new = ob_eventKind old \<and> ob_templateMode new = ob_templateMode old
      \<and> ob_rosterPopulation new = ob_rosterPopulation old \<and> ob_message new = ob_message old
      \<and> ob_createdAt new = ob_createdAt old)"

fun lease_extended :: "timestamp option \<Rightarrow> timestamp option \<Rightarrow> bool" where
  "lease_extended (Some old) (Some new) = (old < new)"
| "lease_extended _ _ = False"

definition guard_outbox_mutation :: "outbox_row \<Rightarrow> outbox_row \<Rightarrow> bool" where
  "guard_outbox_mutation old new =
     (same_content old new
      \<and> (case (ob_status old, ob_status new) of
           (Outbox_pending, Outbox_processing) \<Rightarrow>
             ob_attempts new = ob_attempts old + 1 \<and> ob_availableAt new = ob_availableAt old
             \<and> ob_lockedUntil new \<noteq> None \<and> ob_publishedAt new = ob_publishedAt old
             \<and> ob_failedAt new = ob_failedAt old \<and> ob_lastErrorCode new = ob_lastErrorCode old
         | (Outbox_processing, Outbox_processing) \<Rightarrow>
             ob_availableAt new = ob_availableAt old \<and> lease_extended (ob_lockedUntil old) (ob_lockedUntil new)
             \<and> ob_publishedAt new = ob_publishedAt old \<and> ob_failedAt new = ob_failedAt old
             \<and> ob_lastErrorCode new = ob_lastErrorCode old
             \<and> ob_attempts new \<in> {ob_attempts old, ob_attempts old + 1}
         | (Outbox_processing, Outbox_pending) \<Rightarrow>
             ob_attempts new = ob_attempts old \<and> ob_availableAt old \<le> ob_availableAt new
             \<and> ob_lockedUntil new = None \<and> ob_publishedAt new = ob_publishedAt old
             \<and> ob_failedAt new = ob_failedAt old \<and> ob_lastErrorCode new = ob_lastErrorCode old
         | (Outbox_processing, Outbox_published) \<Rightarrow>
             ob_attempts new = ob_attempts old \<and> ob_availableAt new = ob_availableAt old
             \<and> ob_lockedUntil new = None \<and> ob_publishedAt new \<noteq> None
             \<and> ob_failedAt new = ob_failedAt old \<and> ob_lastErrorCode new = ob_lastErrorCode old
         | (Outbox_processing, Outbox_failed) \<Rightarrow>
             ob_attempts new = ob_attempts old \<and> ob_availableAt new = ob_availableAt old
             \<and> ob_lockedUntil new = None \<and> ob_publishedAt new = ob_publishedAt old
             \<and> ob_failedAt new \<noteq> None \<and> ob_lastErrorCode new \<noteq> None
         | _ \<Rightarrow> False))"

text \<open>\<open>update ... where hit ... returning\<close>, for a condition that names the primary key.\<close>

definition update_outbox ::
  "(outbox_row \<Rightarrow> bool) \<Rightarrow> (outbox_row \<Rightarrow> outbox_row) \<Rightarrow> (outbox_db, dispatch_thrown, outbox_row option) comp" where
  "update_outbox hit f db =
     (case find hit (db_outbox db) of
        None \<Rightarrow> (Inr None, db)
      | Some old \<Rightarrow>
          if guard_outbox_mutation old (f old) \<and> outbox_constraints (f old)
          then (Inr (Some (f old)),
                db\<lparr>db_outbox := map (\<lambda>r. if ob_id r = ob_id old then f old else r) (db_outbox db)\<rparr>)
          else (Inl Unexpected_error, db))"

text \<open>The keys of \<open>dispatch_batches\<close>: the primary key, and one row per channel and per sequence number of an intent.\<close>

definition insert_batch :: "batch_row \<Rightarrow> (outbox_db, dispatch_thrown, unit) comp" where
  "insert_batch b db =
     (if list_ex (\<lambda>r. br_id r = br_id b
           \<or> br_intentId r = br_intentId b
             \<and> (cp_channel (br_plan r) = cp_channel (br_plan b) \<or> br_sequence r = br_sequence b)) (db_batches db)
         \<or> br_sequence b \<le> 0
      then (Inl Unexpected_error, db)
      else (Inr (), db\<lparr>db_batches := db_batches db @ [b]\<rparr>))"

definition readDatabaseTime :: "outbox_env \<Rightarrow> (outbox_db, dispatch_thrown, timestamp) comp" where
  "readDatabaseTime env db = (Inr (oe_clock env (db_reads db)), db\<lparr>db_reads := Suc (db_reads db)\<rparr>)"

text \<open>A transaction takes its writes back; time has passed all the same.\<close>

definition outbox_transaction :: "(outbox_db, dispatch_thrown, 'a) comp \<Rightarrow> (outbox_db, dispatch_thrown, 'a) comp" where
  "outbox_transaction m db =
     (case m db of
        (Inl e, db') \<Rightarrow> (Inl e, db\<lparr>db_reads := db_reads db'\<rparr>)
      | (Inr a, db') \<Rightarrow> (Inr a, db'))"

definition persistence_failed :: "bool \<Rightarrow> dispatch_thrown" where
  "persistence_failed retryable = Dispatcher_error OUTBOX_PERSISTENCE_FAILED retryable"

section \<open>Reading rows\<close>

definition message_version :: "outbox_message \<Rightarrow> int" where
  "message_version m = (if om_facilityId m = None then 1 else 2)"

definition outboxMessageFromRow :: "outbox_row \<Rightarrow> (dispatch_thrown, outbox_message) result" where
  "outboxMessageFromRow r =
     (if \<not> NotificationOutboxMessageSchema (ob_message r) then Inl Unexpected_error
      else if message_version (ob_message r) \<noteq> ob_messageVersion r then Inl (persistence_failed False)
      else Inr (ob_message r))"

definition outboxRecordFromRow :: "outbox_row \<Rightarrow> (dispatch_thrown, outbox_record) result" where
  "outboxRecordFromRow r =
     bindR (outboxMessageFromRow r) (\<lambda>message.
       let x = \<lparr>or_id = ob_id r, or_message = message, or_status = ob_status r, or_attempts = ob_attempts r,
                or_availableAt = ob_availableAt r, or_lockedUntil = ob_lockedUntil r,
                or_publishedAt = ob_publishedAt r, or_failedAt = ob_failedAt r,
                or_lastErrorCode = ob_lastErrorCode r\<rparr>
       in if OutboxRecordSchema x then Inr x else Inl Unexpected_error)"

definition batchFromRow :: "batch_row \<Rightarrow> outbox_message \<Rightarrow> uuid \<Rightarrow> (dispatch_thrown, dispatch_batch) result" where
  "batchFromRow r message facilityId =
     (case find (\<lambda>p. cp_channel p = cp_channel (br_plan r)) (om_channels message) of
        None \<Rightarrow> Inl (persistence_failed False)
      | Some planned \<Rightarrow>
          let b = \<lparr>n_eventId = n_eventId r, n_kind = n_kind r, n_mode = n_mode r, n_purpose = n_purpose r,
                   n_typeVersion = n_typeVersion r, n_rosterSnapshotId = n_rosterSnapshotId r,
                   n_population = n_population r, n_requestId = n_requestId r,
                   n_authorization = n_authorization r, b_id = br_id r, b_intentId = br_intentId r,
                   b_facilityId = facilityId, b_channel = cp_channel (br_plan r),
                   b_message = cp_message (br_plan r), b_integrationId = cp_integrationId planned,
                   b_sequence = br_sequence r, b_endpointCount = cp_endpointCount (br_plan r),
                   b_createdAt = br_createdAt r\<rparr>
          in if DispatchBatchSchema b then Inr b else Inl Unexpected_error)"

definition resolveOutboxMessage ::
  "outbox_row \<Rightarrow> outbox_db \<Rightarrow> (dispatch_thrown, uuid \<times> outbox_message) result" where
  "resolveOutboxMessage r db =
     bindR (outboxMessageFromRow r) (\<lambda>message.
       case find (\<lambda>e. er_id e = ob_eventId r \<and> er_kind e = ob_eventKind r \<and> er_mode e = ob_templateMode r
                    \<and> er_population e = eventPopulationForNotification (ob_rosterPopulation r)) (db_events db) of
         None \<Rightarrow> Inl (persistence_failed False)
       | Some event \<Rightarrow>
           if \<not> uuid_ok (er_facilityId event) then Inl Unexpected_error
           else if (case om_facilityId message of None \<Rightarrow> False | Some f \<Rightarrow> f \<noteq> er_facilityId event)
           then Inl (persistence_failed False)
           else Inr (er_facilityId event, message))"

definition loadDispatchBatches ::
  "outbox_row \<Rightarrow> uuid \<times> outbox_message \<Rightarrow> outbox_db \<Rightarrow> (dispatch_thrown, dispatch_batch list) result" where
  "loadDispatchBatches r resolved db =
     sequenceR (map (\<lambda>b. batchFromRow b (snd resolved) (fst resolved))
       (sort_key br_sequence (filter (\<lambda>b. br_outboxId b = ob_id r) (db_batches db))))"

text \<open>\<open>DispatchOutboxResultSchema\<close>\<close>

record dispatch_result =
  dr_facilityId :: uuid
  dr_record :: outbox_record
  dr_batches :: "dispatch_batch list"

definition batch_preserves_message :: "uuid \<Rightarrow> outbox_message \<Rightarrow> dispatch_batch \<Rightarrow> bool" where
  "batch_preserves_message facilityId m b =
     (b_intentId b = om_intentId m \<and> n_eventId b = n_eventId m \<and> b_facilityId b = facilityId
      \<and> n_kind b = n_kind m \<and> n_mode b = n_mode m \<and> n_purpose b = n_purpose m
      \<and> tv_id (n_typeVersion b) = tv_id (n_typeVersion m)
      \<and> tv_mode (n_typeVersion b) = tv_mode (n_typeVersion m)
      \<and> n_rosterSnapshotId b = n_rosterSnapshotId m \<and> n_population b = n_population m
      \<and> n_requestId b = n_requestId m \<and> n_authorization b = n_authorization m
      \<and> (case find (\<lambda>p. cp_channel p = b_channel b) (om_channels m) of
           None \<Rightarrow> False
         | Some p \<Rightarrow> b_endpointCount b = cp_endpointCount p \<and> b_message b = cp_message p
                     \<and> b_integrationId b = cp_integrationId p))"

definition DispatchOutboxResultSchema :: "dispatch_result \<Rightarrow> bool" where
  "DispatchOutboxResultSchema x =
     (let m = or_message (dr_record x); channels = map b_channel (dr_batches x);
          planned = map cp_channel (om_channels m)
      in uuid_ok (dr_facilityId x) \<and> OutboxRecordSchema (dr_record x)
         \<and> 2 \<le> length (dr_batches x) \<and> length (dr_batches x) \<le> 3 \<and> list_all DispatchBatchSchema (dr_batches x)
         \<and> pred_option (\<lambda>f. f = dr_facilityId x) (om_facilityId m)
         \<and> distinct channels \<and> length channels = length planned \<and> set channels \<subseteq> set planned
         \<and> sort (map b_sequence (dr_batches x)) = [1..int (length (dr_batches x))]
         \<and> list_all (batch_preserves_message (dr_facilityId x) m) (dr_batches x))"

definition dispatchResultFromRow :: "outbox_row \<Rightarrow> outbox_db \<Rightarrow> (dispatch_thrown, dispatch_result) result" where
  "dispatchResultFromRow r db =
     bindR (resolveOutboxMessage r db) (\<lambda>resolved.
     bindR (outboxRecordFromRow r) (\<lambda>x.
     bindR (loadDispatchBatches r resolved db) (\<lambda>batches.
       let result = \<lparr>dr_facilityId = fst resolved, dr_record = x, dr_batches = batches\<rparr>
       in if DispatchOutboxResultSchema result then Inr result else Inl Unexpected_error)))"

end
