(* ===== verification/Outbox_Claim.thy ===== *)
theory Outbox_Claim
  imports Outbox_Store
begin

text \<open>
  The operations of the outbox store and the dispatch built on them: claim under a lease, hand the
  batches to the queue outside of any transaction, then publish or schedule a retry behind the
  fence of the claim (\<open>dispatcher.ts\<close>).
\<close>

section \<open>The batches of an outbox\<close>

definition plan_matches :: "channel_row list \<Rightarrow> channel_preview list \<Rightarrow> bool" where
  "plan_matches stored planned =
     (length stored = length planned
      \<and> list_all2 (\<lambda>r (k, p). ch_sequence r = int k + 1 \<and> ch_plan r = p) stored (enumerate 0 planned))"

definition new_batch :: "outbox_env \<Rightarrow> outbox_row \<Rightarrow> outbox_message \<Rightarrow> timestamp \<Rightarrow> nat \<Rightarrow> nat \<Rightarrow> channel_preview \<Rightarrow> batch_row" where
  "new_batch env r m createdAt drawn k planned =
     \<lparr>n_eventId = n_eventId m, n_kind = n_kind m, n_mode = n_mode m, n_purpose = n_purpose m,
      n_typeVersion = \<lparr>tv_id = tv_id (n_typeVersion m), tv_mode = n_mode m\<rparr>,
      n_rosterSnapshotId = n_rosterSnapshotId m, n_population = n_population m,
      n_requestId = n_requestId m, n_authorization = n_authorization m,
      br_id = oe_id env drawn, br_outboxId = ob_id r, br_intentId = om_intentId m,
      br_plan = planned, br_sequence = int k + 1, br_createdAt = createdAt\<rparr>"

text \<open>Only the channels that have no batch yet get one.\<close>

fun insert_missing ::
  "outbox_env \<Rightarrow> outbox_row \<Rightarrow> outbox_message \<Rightarrow> timestamp \<Rightarrow> channel list \<Rightarrow> (nat \<times> channel_preview) list
     \<Rightarrow> (outbox_db, dispatch_thrown, unit) comp" where
  "insert_missing env r m createdAt existing [] = retC ()"
| "insert_missing env r m createdAt existing ((k, planned) # rest) =
     (if cp_channel planned \<in> set existing then insert_missing env r m createdAt existing rest
      else bindC (\<lambda>db. insert_batch (new_batch env r m createdAt (db_idsDrawn db) k planned)
                         (db\<lparr>db_idsDrawn := Suc (db_idsDrawn db)\<rparr>)) (\<lambda>_.
           insert_missing env r m createdAt existing rest))"

definition ensureStableDispatchBatches ::
  "outbox_env \<Rightarrow> outbox_row \<Rightarrow> timestamp \<Rightarrow> (outbox_db, dispatch_thrown, uuid \<times> dispatch_batch list) comp" where
  "ensureStableDispatchBatches env r createdAt =
     bindC (\<lambda>db. liftR (resolveOutboxMessage r db) db) (\<lambda>resolved.
     bindC (\<lambda>db. liftR (guardR (plan_matches
              (sort_key ch_sequence (filter (\<lambda>c. ch_intentId c = ob_intentId r) (db_channels db)))
              (om_channels (snd resolved))) (persistence_failed False)) db) (\<lambda>_.
     bindC (\<lambda>db. insert_missing env r (snd resolved) createdAt
              (map (\<lambda>b. cp_channel (br_plan b)) (filter (\<lambda>b. br_outboxId b = ob_id r) (db_batches db)))
              (enumerate 0 (om_channels (snd resolved))) db) (\<lambda>_.
     bindC (\<lambda>db. liftR (loadDispatchBatches r resolved db) db) (\<lambda>batches.
     bindC (liftR (outboxRecordFromRow r)) (\<lambda>x.
     bindC (guardC (DispatchOutboxResultSchema \<lparr>dr_facilityId = fst resolved, dr_record = x, dr_batches = batches\<rparr>)
              Unexpected_error) (\<lambda>_.
     retC (fst resolved, batches)))))))"

section \<open>Claims\<close>

record dispatch_claim =
  dc_outboxId :: uuid
  dc_facilityId :: uuid
  dc_attempt :: int
  dc_lockedUntil :: timestamp
  dc_record :: outbox_record
  dc_batches :: "dispatch_batch list"

datatype claim_result =
  Claimed dispatch_claim | Published_before dispatch_result | Claim_busy | Claim_failed outbox_record | Claim_missing

definition claimable :: "timestamp \<Rightarrow> outbox_row \<Rightarrow> bool" where
  "claimable now r =
     (ob_status r = Outbox_pending \<and> ob_availableAt r \<le> now
      \<or> ob_status r = Outbox_processing \<and> (case ob_lockedUntil r of None \<Rightarrow> False | Some t \<Rightarrow> t \<le> now))"

definition listReadyOutboxIds :: "outbox_env \<Rightarrow> js_number \<Rightarrow> (outbox_db, dispatch_thrown, uuid list) comp" where
  "listReadyOutboxIds env limitValue =
     bindC (liftR (assertPositiveBoundedInteger limitValue MAX_OUTBOX_POLL_SIZE)) (\<lambda>limit.
     bindC (readDatabaseTime env) (\<lambda>now db.
       (Inr (take (nat limit) (map ob_id (sort_key ob_availableAt (sort_key ob_createdAt (sort_key ob_id
               (filter (claimable now) (db_outbox db))))))), db)))"

definition failExhaustedClaim :: "outbox_row \<Rightarrow> timestamp \<Rightarrow> (outbox_db, dispatch_thrown, outbox_row) comp" where
  "failExhaustedClaim row now =
     bindC (if ob_status row = Outbox_pending
            then if ob_attempts row \<ge> 100 then throwC (persistence_failed False)
                 else bindC (update_outbox
                        (\<lambda>r. ob_id r = ob_id row \<and> ob_status r = Outbox_pending \<and> ob_attempts r = ob_attempts row)
                        (\<lambda>r. r\<lparr>ob_status := Outbox_processing, ob_attempts := ob_attempts row + 1,
                               ob_lockedUntil := Some (now + 1)\<rparr>)) (\<lambda>claimed.
                        case claimed of None \<Rightarrow> throwC (Dispatcher_error OUTBOX_CLAIM_LOST True) | Some c \<Rightarrow> retC c)
            else retC row) (\<lambda>processing.
     bindC (update_outbox
              (\<lambda>r. ob_id r = ob_id processing \<and> ob_status r = Outbox_processing
                 \<and> ob_attempts r = ob_attempts processing)
              (\<lambda>r. r\<lparr>ob_status := Outbox_failed, ob_lockedUntil := None, ob_failedAt := Some now,
                     ob_lastErrorCode := Some (dispatcher_code_text OUTBOX_DISPATCH_RETRY_EXHAUSTED)\<rparr>)) (\<lambda>failed.
       case failed of None \<Rightarrow> throwC (Dispatcher_error OUTBOX_CLAIM_LOST True) | Some f \<Rightarrow> retC f))"

text \<open>
  A process crash is no failed attempt: a row whose lease expired is claimed again under the same
  attempt number, and only a pending row starts a new one.
\<close>

definition claimed_row :: "outbox_env \<Rightarrow> outbox_row \<Rightarrow> timestamp \<Rightarrow> outbox_row" where
  "claimed_row env row now =
     row\<lparr>ob_status := Outbox_processing,
         ob_attempts := (if ob_status row = Outbox_processing then ob_attempts row else ob_attempts row + 1),
         ob_lockedUntil := Some (now + oe_lease env)\<rparr>"

definition start_claim :: "outbox_env \<Rightarrow> outbox_row \<Rightarrow> timestamp \<Rightarrow> (outbox_db, dispatch_thrown, claim_result) comp" where
  "start_claim env row now =
     bindC (update_outbox
              (\<lambda>r. ob_id r = ob_id row \<and> ob_status r = ob_status row \<and> ob_attempts r = ob_attempts row)
              (\<lambda>r. claimed_row env r now)) (\<lambda>claimed.
       case claimed of
         None \<Rightarrow> retC Claim_busy
       | Some c \<Rightarrow>
           bindC (ensureStableDispatchBatches env c now) (\<lambda>(facilityId, batches).
           bindC (liftR (outboxRecordFromRow c)) (\<lambda>x.
           retC (Claimed \<lparr>dc_outboxId = ob_id c, dc_facilityId = facilityId, dc_attempt = ob_attempts c,
                          dc_lockedUntil = now + oe_lease env, dc_record = x, dc_batches = batches\<rparr>))))"

text \<open>The answer for a row that cannot be claimed now.\<close>

definition answer_unclaimed :: "uuid \<Rightarrow> (outbox_db, dispatch_thrown, claim_result) comp" where
  "answer_unclaimed outboxId db =
     (case find (\<lambda>r. ob_id r = outboxId) (db_outbox db) of
        None \<Rightarrow> (Inr Claim_missing, db)
      | Some current \<Rightarrow>
          if ob_status current = Outbox_published
          then (case dispatchResultFromRow current db of
                  Inl e \<Rightarrow> (Inl e, db) | Inr result \<Rightarrow> (Inr (Published_before result), db))
          else if ob_status current = Outbox_failed
          then (case outboxRecordFromRow current of Inl e \<Rightarrow> (Inl e, db) | Inr x \<Rightarrow> (Inr (Claim_failed x), db))
          else (Inr Claim_busy, db))"

text \<open>\<open>locked\<close>: another transaction holds the row; \<open>skip locked\<close> passes over it.\<close>

definition claim_body :: "outbox_env \<Rightarrow> bool \<Rightarrow> uuid \<Rightarrow> (outbox_db, dispatch_thrown, claim_result) comp" where
  "claim_body env locked outboxId =
     bindC (readDatabaseTime env) (\<lambda>queried db.
       case find (\<lambda>r. ob_id r = outboxId \<and> claimable queried r \<and> \<not> locked) (db_outbox db) of
         None \<Rightarrow> answer_unclaimed outboxId db
       | Some row \<Rightarrow>
           bindC (readDatabaseTime env) (\<lambda>now.
             if ob_status row \<noteq> Outbox_processing \<and> ob_attempts row \<ge> oe_maxAttempts env
             then bindC (failExhaustedClaim row now) (\<lambda>failed.
                  bindC (liftR (outboxRecordFromRow failed)) (\<lambda>x. retC (Claim_failed x)))
             else start_claim env row now) db)"

definition claimOutbox :: "outbox_env \<Rightarrow> bool \<Rightarrow> uuid \<Rightarrow> (outbox_db, dispatch_thrown, claim_result) comp" where
  "claimOutbox env locked outboxId =
     (if \<not> uuid_ok outboxId then throwC Unexpected_error
      else outbox_transaction (claim_body env locked (lower_case outboxId)))"

definition parseDispatchClaim :: "dispatch_claim \<Rightarrow> (dispatch_thrown, dispatch_claim) result" where
  "parseDispatchClaim c =
     (if \<not> uuid_ok (dc_outboxId c) \<or> \<not> uuid_ok (dc_facilityId c) then Inl Unexpected_error
      else if dc_attempt c < 1 \<or> dc_attempt c > 100 then Inl (Dispatcher_error OUTBOX_CONFIGURATION_INVALID False)
      else if \<not> OutboxRecordSchema (dc_record c) then Inl Unexpected_error
      else if or_id (dc_record c) \<noteq> dc_outboxId c \<or> or_status (dc_record c) \<noteq> Outbox_processing
              \<or> or_attempts (dc_record c) \<noteq> dc_attempt c \<or> or_lockedUntil (dc_record c) \<noteq> Some (dc_lockedUntil c)
      then Inl (persistence_failed False)
      else if \<not> list_all DispatchBatchSchema (dc_batches c)
              \<or> \<not> DispatchOutboxResultSchema
                   \<lparr>dr_facilityId = dc_facilityId c, dr_record = dc_record c, dr_batches = dc_batches c\<rparr>
      then Inl Unexpected_error
      else Inr c)"

definition claimFence :: "dispatch_claim \<Rightarrow> outbox_row \<Rightarrow> bool" where
  "claimFence c r =
     (ob_id r = lower_case (dc_outboxId c) \<and> ob_status r = Outbox_processing \<and> ob_attempts r = dc_attempt c
      \<and> ob_lockedUntil r = Some (dc_lockedUntil c))"

definition markPublished :: "outbox_env \<Rightarrow> dispatch_claim \<Rightarrow> (outbox_db, dispatch_thrown, dispatch_result option) comp" where
  "markPublished env claimValue =
     bindC (liftR (parseDispatchClaim claimValue)) (\<lambda>c.
       outbox_transaction (
         bindC (readDatabaseTime env) (\<lambda>now.
         bindC (update_outbox (claimFence c)
                  (\<lambda>r. r\<lparr>ob_status := Outbox_published, ob_lockedUntil := None, ob_publishedAt := Some now\<rparr>)) (\<lambda>published db.
           case published of
             None \<Rightarrow> (Inr None, db)
           | Some p \<Rightarrow> (case dispatchResultFromRow p db of
                          Inl e \<Rightarrow> (Inl e, db) | Inr result \<Rightarrow> (Inr (Some result), db))))))"

datatype failure_disposition = Retry_scheduled | Terminal_disposition | Stale_claim

definition recordFailure ::
  "outbox_env \<Rightarrow> dispatch_claim \<Rightarrow> dispatcher_code \<Rightarrow> bool \<Rightarrow> (outbox_db, dispatch_thrown, failure_disposition) comp" where
  "recordFailure env claimValue errorCode retryable =
     bindC (liftR (parseDispatchClaim claimValue)) (\<lambda>c.
       outbox_transaction (
         bindC (readDatabaseTime env) (\<lambda>now.
           if retryable \<and> dc_attempt c < oe_maxAttempts env
           then bindC (liftR (computeOutboxBackoffMilliseconds (Finite (of_int (dc_attempt c)))
                         (Finite (deterministicJitterFraction (oe_sha env) (dc_outboxId c))))) (\<lambda>backoff.
                bindC (update_outbox (claimFence c)
                  (\<lambda>r. r\<lparr>ob_status := Outbox_pending, ob_lockedUntil := None,
                         ob_availableAt := now + backoff\<rparr>)) (\<lambda>scheduled.
                retC (if scheduled = None then Stale_claim else Retry_scheduled)))
           else bindC (update_outbox (claimFence c)
                  (\<lambda>r. r\<lparr>ob_status := Outbox_failed, ob_lockedUntil := None, ob_failedAt := Some now,
                         ob_lastErrorCode := Some (dispatcher_code_text
                           (if retryable then OUTBOX_DISPATCH_RETRY_EXHAUSTED else errorCode))\<rparr>)) (\<lambda>failed.
                retC (if failed = None then Stale_claim else Terminal_disposition)))))"

end
