(* ===== verification/Outbox_Dispatch.thy ===== *)
theory Outbox_Dispatch
  imports Outbox_Claim Capability_Safety
begin

text \<open>
  One dispatch of an outbox, the capability around it, the scheduled poll and the fast path after
  a commit (\<open>dispatcher.ts\<close>). The queue is an argument that works on the whole world: while it
  sends, other dispatchers may change the tables.
\<close>

section \<open>One dispatch\<close>

datatype dispatch_start = Already_published dispatch_result | To_send dispatch_claim

definition dispatch_begin :: "outbox_env \<Rightarrow> bool \<Rightarrow> uuid \<Rightarrow> (outbox_db, dispatch_thrown, dispatch_start) comp" where
  "dispatch_begin env locked outboxIdValue =
     (if \<not> uuid_ok outboxIdValue then throwC Unexpected_error
      else bindC (claimOutbox env locked outboxIdValue) (\<lambda>claimed.
        case claimed of
          Published_before result \<Rightarrow>
            if DispatchOutboxResultSchema result then retC (Already_published result) else throwC Unexpected_error
        | Claim_missing \<Rightarrow> throwC (Dispatcher_error OUTBOX_NOT_FOUND False)
        | Claim_busy \<Rightarrow> throwC (Dispatcher_error OUTBOX_CLAIM_BUSY True)
        | Claim_failed _ \<Rightarrow> throwC (Dispatcher_error OUTBOX_ALREADY_FAILED False)
        | Claimed c \<Rightarrow> bindC (liftR (parseDispatchClaim c)) (\<lambda>claim. retC (To_send claim))))"

text \<open>What a failed hand-over is recorded as.\<close>

fun publish_error :: "dispatch_thrown \<Rightarrow> dispatcher_code \<times> bool \<times> queue_outcome" where
  "publish_error (Publish_error c retryable outcome) = (c, retryable, outcome)"
| "publish_error _ = (SQS_REQUEST_FAILED, True, Unknown_outcome)"

definition handed_over ::
  "outbox_env \<Rightarrow> dispatch_claim \<Rightarrow> (dispatch_thrown, queue_acknowledgement list) result \<Rightarrow> (dispatch_thrown, unit) result" where
  "handed_over env c answer = bindR answer (assertCompleteQueueAcknowledgement (oe_text env) (dc_batches c))"

definition dispatch_finish ::
  "outbox_env \<Rightarrow> dispatch_claim \<Rightarrow> (dispatch_thrown, queue_acknowledgement list) result
     \<Rightarrow> (outbox_db, dispatch_thrown, dispatch_result) comp" where
  "dispatch_finish env c answer =
     (case handed_over env c answer of
        Inl e \<Rightarrow>
          (case publish_error e of (code, retryable, outcome) \<Rightarrow>
             bindC (catchC (recordFailure env c code retryable) (\<lambda>_. throwC (persistence_failed True))) (\<lambda>disposition.
               if disposition = Stale_claim then throwC (Dispatcher_error OUTBOX_CLAIM_LOST True)
               else if disposition = Terminal_disposition \<and> retryable
               then throwC (Dispatcher_error OUTBOX_DISPATCH_RETRY_EXHAUSTED False)
               else throwC (Publish_error code retryable outcome)))
      | Inr _ \<Rightarrow>
          bindC (markPublished env c) (\<lambda>result.
            case result of
              None \<Rightarrow> throwC (Dispatcher_error OUTBOX_CLAIM_LOST True)
            | Some x \<Rightarrow> if DispatchOutboxResultSchema x then retC x else throwC Unexpected_error))"

record 'q dispatch_world =
  dw_db :: outbox_db
  dw_queue :: 'q

definition on_db :: "(outbox_db, dispatch_thrown, 'a) comp \<Rightarrow> ('q dispatch_world, dispatch_thrown, 'a) comp" where
  "on_db m w = (case m (dw_db w) of (x, db) \<Rightarrow> (x, w\<lparr>dw_db := db\<rparr>))"

type_synonym 'q batch_queue = "dispatch_batch list \<Rightarrow> ('q dispatch_world, dispatch_thrown, queue_acknowledgement list) comp"

definition dispatchOutbox ::
  "outbox_env \<Rightarrow> 'q batch_queue \<Rightarrow> bool \<Rightarrow> uuid \<Rightarrow> ('q dispatch_world, dispatch_thrown, dispatch_result) comp" where
  "dispatchOutbox env send locked outboxIdValue =
     bindC (on_db (dispatch_begin env locked outboxIdValue)) (\<lambda>begun.
       case begun of
         Already_published result \<Rightarrow> retC result
       | To_send claim \<Rightarrow>
           (\<lambda>w. case send (dc_batches claim) w of (answer, w') \<Rightarrow> on_db (dispatch_finish env claim answer) w'))"

section \<open>The capability around it\<close>

datatype dispatch_transport = Internal_post_commit | Scheduled_transport

record dispatch_context =
  dx_actor :: actor
  dx_source :: invocation_source
  dx_transport :: dispatch_transport
  dx_authenticated :: bool
  dx_requestId :: uuid
  dx_key :: string

definition createDispatchOutboxContext ::
  "uuid \<Rightarrow> invocation_source \<Rightarrow> uuid \<Rightarrow> (dispatch_thrown, dispatch_context) result" where
  "createDispatchOutboxContext outboxId source requestId =
     (if \<not> uuid_ok outboxId \<or> \<not> uuid_ok requestId then Inl Unexpected_error
      else Inr \<lparr>dx_actor = System_actor ''outbox-dispatcher'', dx_source = source,
                dx_transport = (if source = Scheduled_job then Scheduled_transport else Internal_post_commit),
                dx_authenticated = True, dx_requestId = requestId, dx_key = ''dispatch:'' @ outboxId\<rparr>)"

definition authorizeDispatch ::
  "capability_definition \<Rightarrow> uuid \<Rightarrow> requirement \<Rightarrow> dispatch_context \<Rightarrow> (dispatch_thrown, unit) result" where
  "authorizeDispatch d outboxId q x =
     (if def_id d \<noteq> ''dispatch-outbox'' \<or> operation d \<noteq> Mutation
         \<or> dx_actor x \<noteq> System_actor ''outbox-dispatcher''
         \<or> System \<notin> set (principalKinds (invocation d)) \<or> dx_source x \<notin> set (sources (invocation d))
         \<or> dx_transport x \<noteq> (if dx_source x = Scheduled_job then Scheduled_transport else Internal_post_commit)
         \<or> \<not> dx_authenticated x \<or> \<not> uuid_ok outboxId \<or> dx_key x \<noteq> ''dispatch:'' @ outboxId
         \<or> rq_actionIds q \<noteq> [] \<or> rq_digest q \<noteq> None
      then Inl (Dispatcher_error OUTBOX_CONFIGURATION_INVALID False)
      else guardR (uuid_ok (dx_requestId x) \<and> IdempotencyKeySchema (dx_key x) \<noteq> None) Unexpected_error)"

text \<open>\<open>invokeAuthorizedCapabilityHandler\<close> without a safety resolver, for the definition \<open>d\<close> in the catalog.\<close>

definition executeDispatchOutboxCapability ::
  "outbox_env \<Rightarrow> 'q batch_queue \<Rightarrow> capability_definition \<Rightarrow> bool \<Rightarrow> uuid \<Rightarrow> dispatch_context
     \<Rightarrow> ('q dispatch_world, dispatch_thrown, dispatch_result) comp" where
  "executeDispatchOutboxCapability env send d locked outboxId x =
     bindC (guardC (uuid_ok outboxId \<and> humanActionPolicy d = Policy_none) Unexpected_error) (\<lambda>_.
     bindC (liftR (authorizeDispatch d outboxId \<lparr>rq_actionIds = [], rq_digest = None\<rparr> x)) (\<lambda>_.
     bindC (dispatchOutbox env send locked outboxId) (\<lambda>result.
     bindC (guardC (DispatchOutboxResultSchema result) Unexpected_error) (\<lambda>_. retC result))))"

section \<open>The poll and the fast path\<close>

datatype poll_outcome = Poll_published | Poll_deferred | Poll_failed

record poll_item =
  pi_outboxId :: uuid
  pi_outcome :: poll_outcome
  pi_errorCode :: "dispatcher_code option"

record poll_report =
  pr_examinedCount :: nat
  pr_publishedCount :: nat
  pr_deferredCount :: nat
  pr_failedCount :: nat
  pr_items :: "poll_item list"

definition poll_one ::
  "outbox_env \<Rightarrow> 'q batch_queue \<Rightarrow> capability_definition \<Rightarrow> (uuid \<Rightarrow> bool) \<Rightarrow> uuid \<Rightarrow> uuid
     \<Rightarrow> ('q dispatch_world, dispatch_thrown, poll_item) comp" where
  "poll_one env send d locked outboxId requestId =
     catchC (bindC (liftR (createDispatchOutboxContext outboxId Scheduled_job requestId)) (\<lambda>x.
             bindC (executeDispatchOutboxCapability env send d (locked outboxId) outboxId x) (\<lambda>_.
             retC \<lparr>pi_outboxId = outboxId, pi_outcome = Poll_published, pi_errorCode = None\<rparr>)))
       (\<lambda>e. case normalizeDispatcherError e of (code, retryable) \<Rightarrow>
          retC \<lparr>pi_outboxId = outboxId, pi_outcome = (if retryable then Poll_deferred else Poll_failed),
                pi_errorCode = Some code\<rparr>)"

fun poll_all ::
  "outbox_env \<Rightarrow> 'q batch_queue \<Rightarrow> capability_definition \<Rightarrow> (uuid \<Rightarrow> bool) \<Rightarrow> uuid list \<Rightarrow> (nat \<Rightarrow> uuid) \<Rightarrow> poll_item list
     \<Rightarrow> ('q dispatch_world, dispatch_thrown, poll_item list) comp" where
  "poll_all env send d locked [] requestIds items = retC items"
| "poll_all env send d locked (i # is) requestIds items =
     bindC (poll_one env send d locked i (requestIds (length items))) (\<lambda>item.
       poll_all env send d locked is requestIds (items @ [item]))"

definition pollOutbox ::
  "outbox_env \<Rightarrow> 'q batch_queue \<Rightarrow> capability_definition \<Rightarrow> (uuid \<Rightarrow> bool) \<Rightarrow> js_number \<Rightarrow> (nat \<Rightarrow> uuid)
     \<Rightarrow> ('q dispatch_world, dispatch_thrown, poll_report) comp" where
  "pollOutbox env send d locked limitValue requestIds =
     bindC (liftR (assertPositiveBoundedInteger limitValue MAX_OUTBOX_POLL_SIZE)) (\<lambda>limit.
     bindC (on_db (listReadyOutboxIds env (Finite (of_int limit)))) (\<lambda>ids.
     bindC (poll_all env send d locked ids requestIds []) (\<lambda>items.
       let of_outcome = (\<lambda>x. length (filter (\<lambda>item. pi_outcome item = x) items))
       in retC \<lparr>pr_examinedCount = length items, pr_publishedCount = of_outcome Poll_published,
                pr_deferredCount = of_outcome Poll_deferred, pr_failedCount = of_outcome Poll_failed,
                pr_items = items\<rparr>)))"

datatype direct_result = Direct_published dispatch_result | Direct_deferred dispatcher_code

definition dispatchOutboxAfterCommit ::
  "outbox_env \<Rightarrow> 'q batch_queue \<Rightarrow> capability_definition \<Rightarrow> bool \<Rightarrow> uuid \<Rightarrow> uuid
     \<Rightarrow> ('q dispatch_world, dispatch_thrown, direct_result) comp" where
  "dispatchOutboxAfterCommit env send d locked outboxId requestId =
     catchC (bindC (liftR (createDispatchOutboxContext outboxId Worker requestId)) (\<lambda>x.
             bindC (executeDispatchOutboxCapability env send d locked outboxId x) (\<lambda>result.
             retC (Direct_published result))))
       (\<lambda>e. retC (Direct_deferred (fst (normalizeDispatcherError e))))"

end
