(* ===== verification/Outbox_Steps.thy ===== *)
theory Outbox_Steps
  imports Outbox_Dispatch
begin

text \<open>
  What the transactions of a dispatch do to the tables, case by case: nothing but let time pass,
  or exactly one step of one row.
\<close>

section \<open>Steps of the tables\<close>

definition set_row :: "outbox_row \<Rightarrow> outbox_db \<Rightarrow> outbox_db" where
  "set_row new db = db\<lparr>db_outbox := map (\<lambda>r. if ob_id r = ob_id new then new else r) (db_outbox db)\<rparr>"

lemma set_row_fields [simp]:
  "db_events (set_row new db) = db_events db" "db_channels (set_row new db) = db_channels db"
  "db_batches (set_row new db) = db_batches db" "db_reads (set_row new db) = db_reads db"
  "db_idsDrawn (set_row new db) = db_idsDrawn db"
  by (simp_all add: set_row_def)

lemma set_row_ids [simp]: "map ob_id (db_outbox (set_row new db)) = map ob_id (db_outbox db)"
  by (auto simp: set_row_def)

lemma set_row_rows: "r \<in> set (db_outbox (set_row new db)) \<Longrightarrow> r = new \<or> r \<in> set (db_outbox db) \<and> ob_id r \<noteq> ob_id new"
  by (auto simp: set_row_def split: if_splits)

lemma set_row_keeps:
  "r \<in> set (db_outbox db) \<Longrightarrow> ob_id r \<noteq> ob_id new \<Longrightarrow> r \<in> set (db_outbox (set_row new db))"
  "r \<in> set (db_outbox db) \<Longrightarrow> ob_id r = ob_id new \<Longrightarrow> new \<in> set (db_outbox (set_row new db))"
  by (auto simp: set_row_def image_iff)

lemma same_content_fields:
  assumes "same_content old new"
  shows "ob_id new = ob_id old" "ob_messageVersion new = ob_messageVersion old" "ob_intentId new = ob_intentId old"
    "ob_eventId new = ob_eventId old" "ob_eventKind new = ob_eventKind old"
    "ob_templateMode new = ob_templateMode old" "ob_rosterPopulation new = ob_rosterPopulation old"
    "ob_message new = ob_message old" "ob_createdAt new = ob_createdAt old"
  using assms by (simp_all add: same_content_def)

lemma guard_content: "guard_outbox_mutation old new \<Longrightarrow> same_content old new"
  by (simp add: guard_outbox_mutation_def)

lemma row_unique:
  "distinct (map ob_id rs) \<Longrightarrow> r \<in> set rs \<Longrightarrow> s \<in> set rs \<Longrightarrow> ob_id r = ob_id s \<Longrightarrow> r = s"
  by (auto simp: distinct_map inj_on_def)

lemma find_member: "find P xs = Some x \<Longrightarrow> x \<in> set xs \<and> P x"
  by (auto simp: find_Some_iff)

lemma find_row:
  assumes "distinct (map ob_id rs)" and "r \<in> set rs" and "P r" and "\<And>s. P s \<Longrightarrow> ob_id s = ob_id r"
  shows "find P rs = Some r"
proof (cases "find P rs")
  case None
  then show ?thesis using assms(2,3) by (auto simp: find_None_iff)
next
  case (Some s)
  then have s: "s \<in> set rs" "P s" by (auto dest: find_member)
  have "s = r" by (rule row_unique [OF assms(1) s(1) assms(2) assms(4) [OF s(2)]])
  then show ?thesis using Some by simp
qed

lemma update_cases:
  assumes "update_outbox hit f db = (x, db')"
  obtains (none) "find hit (db_outbox db) = None" "x = Inr None" "db' = db"
  | (refused) old where "find hit (db_outbox db) = Some old" "x = Inl Unexpected_error" "db' = db"
      "\<not> (guard_outbox_mutation old (f old) \<and> outbox_constraints (f old))"
  | (updated) old where "find hit (db_outbox db) = Some old" "guard_outbox_mutation old (f old)"
      "outbox_constraints (f old)" "x = Inr (Some (f old))" "db' = set_row (f old) db"
proof (cases "find hit (db_outbox db)")
  case None
  then have "x = Inr None" "db' = db" using assms by (simp_all add: update_outbox_def)
  then show thesis by (rule none [OF None])
next
  case (Some old)
  show thesis
  proof (cases "guard_outbox_mutation old (f old) \<and> outbox_constraints (f old)")
    case True
    then have "ob_id (f old) = ob_id old" using same_content_fields(1) guard_content by blast
    then have "x = Inr (Some (f old))" "db' = set_row (f old) db"
      using assms Some True by (simp_all add: update_outbox_def set_row_def)
    then show thesis by (rule updated [OF Some conjunct1 [OF True] conjunct2 [OF True]])
  next
    case False
    then have "x = Inl Unexpected_error" "db' = db" using assms Some by (auto simp: update_outbox_def)
    then show thesis by (rule refused [OF Some _ _ False])
  qed
qed

text \<open>Time passes and nothing else.\<close>

definition elapsed :: "outbox_db \<Rightarrow> outbox_db \<Rightarrow> bool" where
  "elapsed db db' = (\<exists>n \<ge> db_reads db. db' = db\<lparr>db_reads := n\<rparr>)"

lemma elapsed_refl [simp]: "elapsed db db"
  unfolding elapsed_def by (intro exI [of _ "db_reads db"]) simp

lemma elapsed_read [simp]: "elapsed db (db\<lparr>db_reads := Suc (db_reads db)\<rparr>)"
  unfolding elapsed_def by (intro exI [of _ "Suc (db_reads db)"]) simp

lemma elapsed_trans: "elapsed db db' \<Longrightarrow> elapsed db' db'' \<Longrightarrow> elapsed db db''"
  unfolding elapsed_def by (elim exE conjE, rule_tac x = na in exI) simp

text \<open>Whatever a transaction that throws did, it took back; readings of the clock stay.\<close>

definition reads_on :: "(outbox_db, dispatch_thrown, 'a) comp \<Rightarrow> bool" where
  "reads_on m = (\<forall>db x db'. m db = (x, db') \<longrightarrow> db_reads db \<le> db_reads db')"

lemma outbox_transaction_Inl:
  "reads_on m \<Longrightarrow> outbox_transaction m db = (Inl e, db') \<Longrightarrow> elapsed db db'"
  by (auto simp: outbox_transaction_def reads_on_def elapsed_def split: prod.splits sum.splits)

lemma outbox_transaction_Inr: "outbox_transaction m db = (Inr a, db') \<longleftrightarrow> m db = (Inr a, db')"
  by (auto simp: outbox_transaction_def split: prod.splits sum.splits)

lemma reads_on_intros [simp, intro!]:
  "reads_on (retC a)" "reads_on (throwC e)" "reads_on (liftR y)" "reads_on (guardC b e)"
  "reads_on (readDatabaseTime env)" "reads_on (update_outbox hit f)" "reads_on (insert_batch w)"
  by (auto simp: reads_on_def retC_def throwC_def liftR_def guardC_def readDatabaseTime_def insert_batch_def
      split: if_splits elim!: update_cases)

lemma reads_on_bindC [intro!]: "reads_on m \<Longrightarrow> (\<And>a. reads_on (f a)) \<Longrightarrow> reads_on (bindC m f)"
  unfolding reads_on_def bindC_def by (fastforce split: prod.splits sum.splits intro: order_trans)

section \<open>Batches\<close>

text \<open>The tables after batches were added to one outbox.\<close>

definition batches_added :: "uuid \<Rightarrow> outbox_db \<Rightarrow> outbox_db \<Rightarrow> bool" where
  "batches_added i db db' =
     (\<exists>new n. db' = db\<lparr>db_batches := db_batches db @ new, db_idsDrawn := n\<rparr> \<and> (\<forall>b \<in> set new. br_outboxId b = i))"

lemma batches_added_refl: "batches_added i db db"
  unfolding batches_added_def by (intro exI [of _ "[]"] exI [of _ "db_idsDrawn db"]) simp

lemma batches_added_trans: "batches_added i db db' \<Longrightarrow> batches_added i db' db'' \<Longrightarrow> batches_added i db db''"
proof -
  assume "batches_added i db db'" "batches_added i db' db''"
  then obtain xs m ys n where "db' = db\<lparr>db_batches := db_batches db @ xs, db_idsDrawn := m\<rparr>" "\<forall>b \<in> set xs. br_outboxId b = i"
    "db'' = db'\<lparr>db_batches := db_batches db' @ ys, db_idsDrawn := n\<rparr>" "\<forall>b \<in> set ys. br_outboxId b = i"
    by (auto simp: batches_added_def)
  then show ?thesis unfolding batches_added_def by (intro exI [of _ "xs @ ys"] exI [of _ n]) auto
qed

lemma batches_added_fields:
  assumes "batches_added i db db'"
  shows "db_outbox db' = db_outbox db" "db_events db' = db_events db" "db_channels db' = db_channels db"
    "db_reads db' = db_reads db"
    "j \<noteq> i \<Longrightarrow> filter (\<lambda>b. br_outboxId b = j) (db_batches db') = filter (\<lambda>b. br_outboxId b = j) (db_batches db)"
  using assms by (auto simp: batches_added_def)

lemma insert_missing_added:
  assumes "insert_missing env r m createdAt existing plan db = (x, db')"
  shows "batches_added (ob_id r) db db'"
  using assms
proof (induction plan arbitrary: db)
  case Nil
  then show ?case by (simp add: retC_def batches_added_refl)
next
  case (Cons p plan)
  obtain k planned where p: "p = (k, planned)" by (cases p)
  show ?case
  proof (cases "cp_channel planned \<in> set existing")
    case True
    then show ?thesis using Cons p by simp
  next
    case False
    define drawn where "drawn = db\<lparr>db_idsDrawn := Suc (db_idsDrawn db)\<rparr>"
    define b where "b = new_batch env r m createdAt (db_idsDrawn db) k planned"
    obtain y v where v: "insert_batch b drawn = (y, v)" by (cases "insert_batch b drawn")
    have "br_outboxId b = ob_id r" by (simp add: b_def new_batch_def)
    then have "batches_added (ob_id r) db v"
      using v unfolding batches_added_def drawn_def insert_batch_def
      by (intro exI [of _ "if y = Inr () then [b] else []"] exI [of _ "Suc (db_idsDrawn db)"])
         (auto split: if_splits)
    moreover have "batches_added (ob_id r) v db'"
    proof (cases y)
      case (Inl e)
      then show ?thesis
        using Cons.prems p False v by (simp add: bindC_def batches_added_refl flip: b_def drawn_def)
    next
      case (Inr u)
      then show ?thesis
        using Cons p False v by (simp add: bindC_def flip: b_def drawn_def)
    qed
    ultimately show ?thesis by (rule batches_added_trans)
  qed
qed

lemma ensure_cases:
  assumes "ensureStableDispatchBatches env r createdAt db = (x, db')"
  shows "batches_added (ob_id r) db db'"
    and "x = Inr (facilityId, batches) \<Longrightarrow> \<exists>message y. resolveOutboxMessage r db' = Inr (facilityId, message)
      \<and> loadDispatchBatches r (facilityId, message) db' = Inr batches \<and> outboxRecordFromRow r = Inr y
      \<and> DispatchOutboxResultSchema \<lparr>dr_facilityId = facilityId, dr_record = y, dr_batches = batches\<rparr>"
proof -
  show added: "batches_added (ob_id r) db db'"
    using assms
    by (auto simp: ensureStableDispatchBatches_def bindC_def liftR_def guardC_def retC_def batches_added_refl
        split: sum.splits prod.splits if_splits dest: insert_missing_added)
  have same: "resolveOutboxMessage r db' = resolveOutboxMessage r db"
    using batches_added_fields(2) [OF added] by (simp add: resolveOutboxMessage_def)
  assume "x = Inr (facilityId, batches)"
  then show "\<exists>message y. resolveOutboxMessage r db' = Inr (facilityId, message)
      \<and> loadDispatchBatches r (facilityId, message) db' = Inr batches \<and> outboxRecordFromRow r = Inr y
      \<and> DispatchOutboxResultSchema \<lparr>dr_facilityId = facilityId, dr_record = y, dr_batches = batches\<rparr>"
    using assms unfolding same
    by (auto simp: ensureStableDispatchBatches_def bindC_def liftR_def guardC_def retC_def
        split: sum.splits prod.splits if_splits)
qed

lemma reads_on_ensure: "reads_on (ensureStableDispatchBatches env r createdAt)"
  unfolding reads_on_def using ensure_cases(1) batches_added_fields(4) by (metis order_refl)

section \<open>The steps of a dispatch\<close>

lemma reads_on_prod [intro!]: "(\<And>a b. reads_on (f a b)) \<Longrightarrow> reads_on (case p of (a, b) \<Rightarrow> f a b)"
  by (cases p) simp

lemma reads_on_start: "reads_on (start_claim env row now)"
  unfolding start_claim_def using reads_on_ensure by (auto split: option.split)

lemma reads_on_exhausted: "reads_on (failExhaustedClaim row now)"
  unfolding failExhaustedClaim_def by (auto split: option.split)

lemma answer_unclaimed_quiet:
  assumes "answer_unclaimed outboxId db = (x, db')"
  shows "db' = db \<and> (\<forall>c. x \<noteq> Inr (Claimed c))"
  using assms by (auto simp: answer_unclaimed_def split: option.splits if_splits sum.splits)

lemma reads_on_claim_body: "reads_on (claim_body env locked outboxId)"
  unfolding reads_on_def
proof (intro allI impI)
  fix db x db'
  assume run: "claim_body env locked outboxId db = (x, db')"
  let ?db = "db\<lparr>db_reads := Suc (db_reads db)\<rparr>"
  show "db_reads db \<le> db_reads db'"
  proof (cases "find (\<lambda>r. ob_id r = outboxId \<and> claimable (oe_clock env (db_reads db)) r \<and> \<not> locked) (db_outbox db)")
    case None
    then have "db' = ?db"
      using run answer_unclaimed_quiet by (auto simp: claim_body_def bindC_def readDatabaseTime_def)
    then show ?thesis by simp
  next
    case (Some row)
    then have "bindC (readDatabaseTime env) (\<lambda>now.
             if ob_status row \<noteq> Outbox_processing \<and> ob_attempts row \<ge> oe_maxAttempts env
             then bindC (failExhaustedClaim row now) (\<lambda>failed.
                  bindC (liftR (outboxRecordFromRow failed)) (\<lambda>x. retC (Claim_failed x)))
             else start_claim env row now) ?db = (x, db')"
      using run by (simp add: claim_body_def bindC_def [of "readDatabaseTime env" "\<lambda>queried db. _ queried db"] readDatabaseTime_def)
    moreover have "reads_on (bindC (readDatabaseTime env) (\<lambda>now.
             if ob_status row \<noteq> Outbox_processing \<and> ob_attempts row \<ge> oe_maxAttempts env
             then bindC (failExhaustedClaim row now) (\<lambda>failed.
                  bindC (liftR (outboxRecordFromRow failed)) (\<lambda>x. retC (Claim_failed x)))
             else start_claim env row now))"
      using reads_on_start reads_on_exhausted by auto
    ultimately show ?thesis unfolding reads_on_def by fastforce
  qed
qed

lemma claimable_cases:
  assumes "claimable now r"
  shows "ob_status r = Outbox_pending \<and> ob_availableAt r \<le> now
    \<or> ob_status r = Outbox_processing \<and> (\<exists>t. ob_lockedUntil r = Some t \<and> t \<le> now)"
  using assms by (auto simp: claimable_def split: option.splits)

lemma start_claim_cases:
  assumes "start_claim env row now db = (Inr x, db')"
  obtains (busy) "x = Claim_busy" "db' = db"
  | (claimed) old new facilityId message y batches where
      "old \<in> set (db_outbox db)" "ob_id old = ob_id row" "new = claimed_row env old now"
      "guard_outbox_mutation old new" "outbox_constraints new"
      "ensureStableDispatchBatches env new now (set_row new db) = (Inr (facilityId, batches), db')"
      "resolveOutboxMessage new db' = Inr (facilityId, message)"
      "loadDispatchBatches new (facilityId, message) db' = Inr batches" "outboxRecordFromRow new = Inr y"
      "DispatchOutboxResultSchema \<lparr>dr_facilityId = facilityId, dr_record = y, dr_batches = batches\<rparr>"
      "x = Claimed \<lparr>dc_outboxId = ob_id old, dc_facilityId = facilityId, dc_attempt = ob_attempts new,
         dc_lockedUntil = now + oe_lease env, dc_record = y, dc_batches = batches\<rparr>"
proof -
  let ?hit = "\<lambda>r. ob_id r = ob_id row \<and> ob_status r = ob_status row \<and> ob_attempts r = ob_attempts row"
  obtain claimed v where upd: "update_outbox ?hit (\<lambda>r. claimed_row env r now) db = (Inr claimed, v)"
    using assms by (auto simp: start_claim_def elim!: bindC_InrE)
  from upd show thesis
  proof (cases rule: update_cases)
    case none
    then have "x = Claim_busy" "db' = db"
      using assms upd by (simp_all add: start_claim_def bindC_def retC_def)
    then show thesis by (rule busy)
  next
    case (updated old)
    define new where "new = claimed_row env old now"
    have old: "old \<in> set (db_outbox db)" "ob_id old = ob_id row" using find_member [OF updated(1)] by auto
    have id: "ob_id new = ob_id old" by (simp add: new_def claimed_row_def)
    have upd': "update_outbox ?hit (\<lambda>r. claimed_row env r now) db = (Inr (Some new), set_row new db)"
      using upd updated(4,5) by (simp add: new_def)
    then have "bindC (ensureStableDispatchBatches env new now) (\<lambda>(facilityId, batches).
           bindC (liftR (outboxRecordFromRow new)) (\<lambda>y.
           retC (Claimed \<lparr>dc_outboxId = ob_id new, dc_facilityId = facilityId, dc_attempt = ob_attempts new,
                          dc_lockedUntil = now + oe_lease env, dc_record = y, dc_batches = batches\<rparr>))) (set_row new db)
        = (Inr x, db')"
      using assms unfolding start_claim_def bindC_def [of "update_outbox ?hit _"] by simp
    then obtain facilityId batches y where
      ens: "ensureStableDispatchBatches env new now (set_row new db) = (Inr (facilityId, batches), db')"
      and y: "outboxRecordFromRow new = Inr y"
      and x: "x = Claimed \<lparr>dc_outboxId = ob_id new, dc_facilityId = facilityId, dc_attempt = ob_attempts new,
                          dc_lockedUntil = now + oe_lease env, dc_record = y, dc_batches = batches\<rparr>"
      by (auto simp: liftR_def retC_def elim!: bindC_InrE split: prod.splits)
    obtain message z where z: "resolveOutboxMessage new db' = Inr (facilityId, message)"
      "loadDispatchBatches new (facilityId, message) db' = Inr batches" "outboxRecordFromRow new = Inr z"
      "DispatchOutboxResultSchema \<lparr>dr_facilityId = facilityId, dr_record = z, dr_batches = batches\<rparr>"
      using ensure_cases(2) [OF ens refl] by blast
    then have "z = y" using y by simp
    then show thesis
      using claimed [OF old new_def _ _ ens z(1,2) y] updated(2,3) z(4) x id by (simp flip: new_def)
  qed simp
qed

text \<open>
  A claim succeeds on one row, at the second of two readings of the clock; otherwise nothing but
  time changed. (A pending row whose attempts are spent does not occur in a run.)
\<close>

lemma outbox_claim_cases:
  assumes "claimOutbox env locked i db = (x, db')" and "distinct (map ob_id (db_outbox db))"
    and "\<forall>r \<in> set (db_outbox db). ob_status r = Outbox_pending \<longrightarrow> ob_attempts r < oe_maxAttempts env"
  obtains (nothing) "elapsed db db'" "\<And>c. x \<noteq> Inr (Claimed c)"
  | (claimed) row new facilityId message y batches where
      "row \<in> set (db_outbox db)" "ob_id row = lower_case i" "uuid_ok i" "\<not> locked"
      "claimable (oe_clock env (db_reads db)) row"
      "new = claimed_row env row (oe_clock env (Suc (db_reads db)))"
      "guard_outbox_mutation row new" "outbox_constraints new"
      "ensureStableDispatchBatches env new (oe_clock env (Suc (db_reads db)))
         (set_row new (db\<lparr>db_reads := Suc (Suc (db_reads db))\<rparr>)) = (Inr (facilityId, batches), db')"
      "resolveOutboxMessage new db' = Inr (facilityId, message)"
      "loadDispatchBatches new (facilityId, message) db' = Inr batches" "outboxRecordFromRow new = Inr y"
      "DispatchOutboxResultSchema \<lparr>dr_facilityId = facilityId, dr_record = y, dr_batches = batches\<rparr>"
      "x = Inr (Claimed \<lparr>dc_outboxId = ob_id row, dc_facilityId = facilityId, dc_attempt = ob_attempts new,
         dc_lockedUntil = oe_clock env (Suc (db_reads db)) + oe_lease env, dc_record = y, dc_batches = batches\<rparr>)"
proof (cases "uuid_ok i")
  case False
  then have "elapsed db db'" "\<And>c. x \<noteq> Inr (Claimed c)" using assms(1) by (auto simp: claimOutbox_def throwC_def)
  then show thesis by (rule nothing)
next
  case ok: True
  then have tx: "outbox_transaction (claim_body env locked (lower_case i)) db = (x, db')"
    using assms(1) by (simp add: claimOutbox_def)
  let ?read = "db\<lparr>db_reads := Suc (db_reads db)\<rparr>" and ?twice = "db\<lparr>db_reads := Suc (Suc (db_reads db))\<rparr>"
  show thesis
  proof (cases x)
    case (Inl e)
    then have "elapsed db db'" using outbox_transaction_Inl [OF reads_on_claim_body] tx by blast
    then show thesis by (rule nothing) (simp add: Inl)
  next
    case (Inr z)
    then have run: "claim_body env locked (lower_case i) db = (Inr z, db')"
      using tx by (simp add: outbox_transaction_Inr)
    show thesis
    proof (cases "find (\<lambda>r. ob_id r = lower_case i \<and> claimable (oe_clock env (db_reads db)) r \<and> \<not> locked) (db_outbox db)")
      case None
      then have "answer_unclaimed (lower_case i) ?read = (Inr z, db')"
        using run by (simp add: claim_body_def bindC_def readDatabaseTime_def)
      then have "elapsed db db'" "\<And>c. x \<noteq> Inr (Claimed c)"
        using answer_unclaimed_quiet [of "lower_case i" ?read "Inr z" db'] Inr by auto
      then show thesis by (rule nothing)
    next
      case (Some row)
      have row: "row \<in> set (db_outbox db)" "ob_id row = lower_case i"
        "claimable (oe_clock env (db_reads db)) row" "\<not> locked"
        using find_member [OF Some] by auto
      have "\<not> (ob_status row \<noteq> Outbox_processing \<and> ob_attempts row \<ge> oe_maxAttempts env)"
        using claimable_cases [OF row(3)] assms(3) row(1) by auto
      then have start: "start_claim env row (oe_clock env (Suc (db_reads db))) ?twice = (Inr z, db')"
        using run Some by (auto simp: claim_body_def bindC_def readDatabaseTime_def split: if_splits)
      then show thesis
      proof (cases rule: start_claim_cases)
        case busy
        have "elapsed db ?twice" unfolding elapsed_def by (intro exI [of _ "Suc (Suc (db_reads db))"]) simp
        then have "elapsed db db'" "\<And>c. x \<noteq> Inr (Claimed c)" using busy Inr by simp_all
        then show thesis by (rule nothing)
      next
        case (claimed old new facilityId message y batches)
        have "old = row" using row_unique [OF assms(2) _ row(1)] claimed(1,2) by simp
        then show thesis
          using that(2) [OF row(1,2) ok row(4,3) _ _ _ _ claimed(7-10)] claimed Inr by simp
      qed
    qed
  qed
qed

end
