(* ===== verification/Outbox_Finish.thy ===== *)
theory Outbox_Finish
  imports Outbox_Steps
begin

text \<open>What the end of a dispatch does to the tables, case by case, and that a claim passes its own check.\<close>

text \<open>A claim passes the check that every later operation makes of it.\<close>

lemma record_fields:
  "outboxRecordFromRow r = Inr y \<Longrightarrow> or_id y = ob_id r \<and> or_status y = ob_status r \<and> or_attempts y = ob_attempts r
     \<and> or_lockedUntil y = ob_lockedUntil r \<and> or_message y = ob_message r \<and> OutboxRecordSchema y"
  by (auto simp: outboxRecordFromRow_def outboxMessageFromRow_def bindR_Inr_iff Let_def split: if_splits)

lemma message_from_row: "outboxMessageFromRow r = Inr m \<Longrightarrow> m = ob_message r \<and> NotificationOutboxMessageSchema m"
  by (simp add: outboxMessageFromRow_def split: if_split_asm)

lemma resolved_fields:
  assumes "resolveOutboxMessage r db = Inr (facilityId, m)"
  shows "m = ob_message r" "uuid_ok facilityId"
proof -
  let ?hit = "\<lambda>e. er_id e = ob_eventId r \<and> er_kind e = ob_eventKind r \<and> er_mode e = ob_templateMode r
                    \<and> er_population e = eventPopulationForNotification (ob_rosterPopulation r)"
  obtain n where n: "outboxMessageFromRow r = Inr n"
    and rest: "(case find ?hit (db_events db) of None \<Rightarrow> Inl (persistence_failed False)
       | Some event \<Rightarrow> if \<not> uuid_ok (er_facilityId event) then Inl Unexpected_error
           else if (case om_facilityId n of None \<Rightarrow> False | Some f \<Rightarrow> f \<noteq> er_facilityId event)
           then Inl (persistence_failed False) else Inr (er_facilityId event, n)) = Inr (facilityId, m)"
    using assms unfolding resolveOutboxMessage_def bindR_Inr_iff by blast
  show "m = ob_message r" "uuid_ok facilityId"
    using rest message_from_row [OF n] by (cases "find ?hit (db_events db)"; simp split: if_split_asm)+
qed

section \<open>The end of a dispatch\<close>

lemma publish_cases:
  assumes "markPublished env c db = (x, db')"
  obtains (nothing) "elapsed db db'" "\<And>z. x \<noteq> Inr (Some z)"
  | (published) row new z where "row \<in> set (db_outbox db)" "claimFence c row"
      "new = row\<lparr>ob_status := Outbox_published, ob_lockedUntil := None, ob_publishedAt := Some (oe_clock env (db_reads db))\<rparr>"
      "guard_outbox_mutation row new" "outbox_constraints new"
      "db' = set_row new (db\<lparr>db_reads := Suc (db_reads db)\<rparr>)" "dispatchResultFromRow new db' = Inr z" "x = Inr (Some z)"
proof (cases "parseDispatchClaim c")
  case (Inl e)
  then have "elapsed db db'" "\<And>z. x \<noteq> Inr (Some z)"
    using assms by (auto simp: markPublished_def bindC_def liftR_def)
  then show thesis by (rule nothing)
next
  case (Inr c')
  let ?f = "\<lambda>now r. r\<lparr>ob_status := Outbox_published, ob_lockedUntil := None, ob_publishedAt := Some now\<rparr>"
  define m where "m = bindC (readDatabaseTime env) (\<lambda>now.
         bindC (update_outbox (claimFence c) (?f now)) (\<lambda>published db.
           case published of
             None \<Rightarrow> (Inr None, db)
           | Some p \<Rightarrow> (case dispatchResultFromRow p db of
                          Inl e \<Rightarrow> (Inl e, db) | Inr result \<Rightarrow> (Inr (Some result), db))))"
  have "c' = c" using Inr by (auto simp: parseDispatchClaim_def split: if_splits)
  then have tx: "outbox_transaction m db = (x, db')"
    using assms Inr by (simp add: markPublished_def bindC_def [of "liftR _"] liftR_def m_def)
  have "reads_on (\<lambda>db. case published of None \<Rightarrow> (Inr None, db) | Some p \<Rightarrow> (case dispatchResultFromRow p db of
      Inl e \<Rightarrow> (Inl e, db) | Inr result \<Rightarrow> (Inr (Some result), db)))" for published
    by (auto simp: reads_on_def split: option.splits sum.splits)
  then have reads: "reads_on m" unfolding m_def by auto
  show thesis
  proof (cases "\<exists>z. x = Inr (Some z)")
    case False
    have "elapsed db db'" "\<And>z. x \<noteq> Inr (Some z)"
    proof -
      show "\<And>z. x \<noteq> Inr (Some z)" using False by blast
      show "elapsed db db'"
      proof (cases x)
      case (Inl e)
      then show ?thesis using outbox_transaction_Inl [OF reads] tx by blast
    next
      case (Inr y)
      then have "m db = (Inr None, db')" using tx False by (cases y) (auto simp: outbox_transaction_Inr)
      then show ?thesis
        by (auto simp: m_def bindC_def readDatabaseTime_def update_outbox_def
            split: option.splits if_splits sum.splits)
      qed
    qed
    then show thesis by (rule nothing)
  next
    case True
    then obtain z where z: "x = Inr (Some z)" by blast
    then have "m db = (Inr (Some z), db')" using tx by (simp add: outbox_transaction_Inr)
    then obtain published v where upd: "update_outbox (claimFence c) (?f (oe_clock env (db_reads db)))
          (db\<lparr>db_reads := Suc (db_reads db)\<rparr>) = (Inr published, v)"
      and rest: "(case published of None \<Rightarrow> (Inr None, v) | Some p \<Rightarrow> (case dispatchResultFromRow p v of
          Inl e \<Rightarrow> (Inl e, v) | Inr result \<Rightarrow> (Inr (Some result), v))) = (Inr (Some z), db')"
      by (auto simp: m_def readDatabaseTime_def elim!: bindC_InrE)
    from upd show thesis
    proof (cases rule: update_cases)
      case (updated old)
      then show thesis
        using rest z find_member [OF updated(1)] that(2) [of old]
        by (auto split: sum.splits)
    qed (use rest in auto)
  qed
qed

lemma parse_identity: "parseDispatchClaim c = Inr c' \<Longrightarrow> c' = c"
  by (simp add: parseDispatchClaim_def split: if_split_asm)

lemma failure_cases:
  assumes "recordFailure env c code retryable db = (x, db')"
  obtains (nothing) "elapsed db db'" "x \<noteq> Inr Retry_scheduled" "x \<noteq> Inr Terminal_disposition"
  | (retried) row backoff where "retryable" "row \<in> set (db_outbox db)" "claimFence c row"
      "dc_attempt c < oe_maxAttempts env" "parseDispatchClaim c = Inr c"
      "computeOutboxBackoffMilliseconds (Finite (of_int (dc_attempt c)))
         (Finite (deterministicJitterFraction (oe_sha env) (dc_outboxId c))) = Inr backoff"
      "guard_outbox_mutation row (row\<lparr>ob_status := Outbox_pending, ob_lockedUntil := None,
         ob_availableAt := oe_clock env (db_reads db) + backoff\<rparr>)"
      "outbox_constraints (row\<lparr>ob_status := Outbox_pending, ob_lockedUntil := None,
         ob_availableAt := oe_clock env (db_reads db) + backoff\<rparr>)"
      "db' = set_row (row\<lparr>ob_status := Outbox_pending, ob_lockedUntil := None,
         ob_availableAt := oe_clock env (db_reads db) + backoff\<rparr>) (db\<lparr>db_reads := Suc (db_reads db)\<rparr>)"
      "x = Inr Retry_scheduled"
  | (failed) row new where "\<not> (retryable \<and> dc_attempt c < oe_maxAttempts env)" "row \<in> set (db_outbox db)" "claimFence c row"
      "new = row\<lparr>ob_status := Outbox_failed, ob_lockedUntil := None, ob_failedAt := Some (oe_clock env (db_reads db)),
         ob_lastErrorCode := Some (dispatcher_code_text (if retryable then OUTBOX_DISPATCH_RETRY_EXHAUSTED else code))\<rparr>"
      "guard_outbox_mutation row new" "outbox_constraints new"
      "db' = set_row new (db\<lparr>db_reads := Suc (db_reads db)\<rparr>)" "x = Inr Terminal_disposition"
proof (cases "parseDispatchClaim c")
  case (Inl e)
  then have "elapsed db db'" "x \<noteq> Inr Retry_scheduled" "x \<noteq> Inr Terminal_disposition"
    using assms by (auto simp: recordFailure_def bindC_def liftR_def)
  then show thesis by (rule nothing)
next
  case (Inr c')
  then have parsed: "parseDispatchClaim c = Inr c" using parse_identity by simp
  let ?retry = "\<lambda>now backoff r. r\<lparr>ob_status := Outbox_pending, ob_lockedUntil := None, ob_availableAt := now + backoff\<rparr>"
  let ?fail = "\<lambda>now r. r\<lparr>ob_status := Outbox_failed, ob_lockedUntil := None, ob_failedAt := Some now,
      ob_lastErrorCode := Some (dispatcher_code_text (if retryable then OUTBOX_DISPATCH_RETRY_EXHAUSTED else code))\<rparr>"
  let ?compute = "computeOutboxBackoffMilliseconds (Finite (of_int (dc_attempt c)))
     (Finite (deterministicJitterFraction (oe_sha env) (dc_outboxId c)))"
  let ?read = "db\<lparr>db_reads := Suc (db_reads db)\<rparr>" and ?now = "oe_clock env (db_reads db)"
  define m where "m = bindC (readDatabaseTime env) (\<lambda>now.
           if retryable \<and> dc_attempt c < oe_maxAttempts env
           then bindC (liftR ?compute) (\<lambda>backoff.
                bindC (update_outbox (claimFence c) (?retry now backoff)) (\<lambda>scheduled.
                retC (if scheduled = None then Stale_claim else Retry_scheduled)))
           else bindC (update_outbox (claimFence c) (?fail now)) (\<lambda>failed.
                retC (if failed = None then Stale_claim else Terminal_disposition)))"
  have tx: "outbox_transaction m db = (x, db')"
    using assms parsed by (simp add: recordFailure_def bindC_def [of "liftR _"] liftR_def m_def)
  have reads: "reads_on m" unfolding m_def by auto
  show thesis
  proof (cases x)
    case (Inl e)
    have "elapsed db db'" using outbox_transaction_Inl [OF reads] tx Inl by blast
    then show thesis by (rule nothing) (simp_all add: Inl)
  next
    case x: (Inr y)
    then have run: "m db = (Inr y, db')" using tx by (simp add: outbox_transaction_Inr)
    show thesis
    proof (cases "retryable \<and> dc_attempt c < oe_maxAttempts env")
      case True
      then obtain backoff scheduled where b: "?compute = Inr backoff"
        and upd: "update_outbox (claimFence c) (?retry ?now backoff) ?read = (Inr scheduled, db')"
        and y: "y = (if scheduled = None then Stale_claim else Retry_scheduled)"
        using run by (auto simp: m_def readDatabaseTime_def liftR_def retC_def elim!: bindC_InrE)
      from upd show thesis
      proof (cases rule: update_cases)
        case none
        then have "elapsed db db'" "x \<noteq> Inr Retry_scheduled" "x \<noteq> Inr Terminal_disposition"
          using x y by (simp_all add: elapsed_read)
        then show thesis by (rule nothing)
      next
        case (updated old)
        then have "old \<in> set (db_outbox db)" "claimFence c old" using find_member [OF updated(1)] by simp_all
        then show thesis
          using that(2) [of old backoff] True parsed b updated x y by simp
      qed simp
    next
      case False
      then obtain failed where upd: "update_outbox (claimFence c) (?fail ?now) ?read = (Inr failed, db')"
        and y: "y = (if failed = None then Stale_claim else Terminal_disposition)"
        using run by (auto simp: m_def readDatabaseTime_def retC_def elim!: bindC_InrE split: if_split_asm)
      from upd show thesis
      proof (cases rule: update_cases)
        case none
        then have "elapsed db db'" "x \<noteq> Inr Retry_scheduled" "x \<noteq> Inr Terminal_disposition"
          using x y by (simp_all add: elapsed_read)
        then show thesis by (rule nothing)
      next
        case (updated old)
        then have "old \<in> set (db_outbox db)" "claimFence c old" using find_member [OF updated(1)] by simp_all
        then show thesis
          using that(3) [OF False, of old "?fail ?now old"] updated x y by simp
      qed simp
    qed
  qed
qed

section \<open>The two transactions of a dispatch\<close>

lemma result_schema_fields:
  assumes "DispatchOutboxResultSchema x"
  shows "uuid_ok (dr_facilityId x)" "OutboxRecordSchema (dr_record x)" "list_all DispatchBatchSchema (dr_batches x)"
    "distinct (map b_channel (dr_batches x))"
    "length (dr_batches x) = length (om_channels (or_message (dr_record x)))"
    "set (map b_channel (dr_batches x)) \<subseteq> set (map cp_channel (om_channels (or_message (dr_record x))))"
  using assms unfolding DispatchOutboxResultSchema_def by (simp_all add: Let_def)

lemma claim_parses:
  assumes "outboxRecordFromRow r = Inr y" and "ob_status r = Outbox_processing" and "1 \<le> ob_attempts r"
    and "DispatchOutboxResultSchema \<lparr>dr_facilityId = f, dr_record = y, dr_batches = bs\<rparr>"
    and "ob_lockedUntil r = Some t"
    and c: "c = \<lparr>dc_outboxId = ob_id r, dc_facilityId = f, dc_attempt = ob_attempts r, dc_lockedUntil = t,
      dc_record = y, dc_batches = bs\<rparr>"
  shows "parseDispatchClaim c = Inr c"
proof -
  note y = record_fields [OF assms(1)]
  have "uuid_ok (ob_id r)" "ob_attempts r \<le> 100" using y by (auto simp: OutboxRecordSchema_def)
  then show ?thesis
    using assms(2,3,4,5) y result_schema_fields(1,3) [OF assms(4)]
    unfolding parseDispatchClaim_def c by simp
qed

lemma begin_cases:
  assumes "dispatch_begin env locked i db = (x, db')" and "distinct (map ob_id (db_outbox db))"
    and "\<forall>r \<in> set (db_outbox db). ob_status r = Outbox_pending \<longrightarrow> 0 \<le> ob_attempts r \<and> ob_attempts r < oe_maxAttempts env"
    and "\<forall>r \<in> set (db_outbox db). ob_status r = Outbox_processing \<longrightarrow> 1 \<le> ob_attempts r"
  obtains (nothing) "elapsed db db'" "\<And>c. x \<noteq> Inr (To_send c)"
  | (begun) row new c message where
      "row \<in> set (db_outbox db)" "claimable (oe_clock env (db_reads db)) row"
      "new = claimed_row env row (oe_clock env (Suc (db_reads db)))"
      "guard_outbox_mutation row new" "outbox_constraints new"
      "ensureStableDispatchBatches env new (oe_clock env (Suc (db_reads db)))
         (set_row new (db\<lparr>db_reads := Suc (Suc (db_reads db))\<rparr>)) = (Inr (dc_facilityId c, dc_batches c), db')"
      "resolveOutboxMessage new db' = Inr (dc_facilityId c, message)"
      "loadDispatchBatches new (dc_facilityId c, message) db' = Inr (dc_batches c)"
      "outboxRecordFromRow new = Inr (dc_record c)" "dc_outboxId c = ob_id row" "dc_attempt c = ob_attempts new"
      "ob_lockedUntil new = Some (dc_lockedUntil c)" "parseDispatchClaim c = Inr c" "x = Inr (To_send c)"
proof (cases "uuid_ok i")
  case False
  then have "elapsed db db'" "\<And>c. x \<noteq> Inr (To_send c)"
    using assms(1) by (auto simp: dispatch_begin_def throwC_def)
  then show thesis by (rule nothing)
next
  case True
  obtain y v where y: "claimOutbox env locked i db = (y, v)" by (cases "claimOutbox env locked i db")
  have pending: "\<forall>r \<in> set (db_outbox db). ob_status r = Outbox_pending \<longrightarrow> ob_attempts r < oe_maxAttempts env"
    using assms(3) by blast
  from y assms(2) pending show thesis
  proof (cases rule: outbox_claim_cases)
    case nothing
    note quiet = this
    have "db' = v \<and> (\<forall>c. x \<noteq> Inr (To_send c))"
    proof (cases y)
      case (Inr z)
      then show ?thesis
        using assms(1) y True quiet(2)
        by (cases z) (auto simp: dispatch_begin_def bindC_def retC_def throwC_def split: if_split_asm)
    qed (use assms(1) y True in \<open>auto simp: dispatch_begin_def bindC_def\<close>)
    then have "elapsed db db'" "\<And>c. x \<noteq> Inr (To_send c)" using quiet(1) by simp_all
    then show thesis by (rule that(1))
  next
    case (claimed row new facilityId message r batches)
    define c where "c = \<lparr>dc_outboxId = ob_id row, dc_facilityId = facilityId, dc_attempt = ob_attempts new,
         dc_lockedUntil = oe_clock env (Suc (db_reads db)) + oe_lease env, dc_record = r, dc_batches = batches\<rparr>"
    have new: "ob_id new = ob_id row" "ob_status new = Outbox_processing"
      "ob_lockedUntil new = Some (dc_lockedUntil c)"
      by (simp_all add: claimed(6) claimed_row_def c_def)
    have "1 \<le> ob_attempts new"
      using claimable_cases [OF claimed(5)] assms(3,4) claimed(1) by (auto simp: claimed(6) claimed_row_def)
    then have parsed: "parseDispatchClaim c = Inr c"
      using claim_parses [OF claimed(12) new(2) _ claimed(13) new(3)] new(1) by (simp add: c_def)
    have "y = Inr (Claimed c)" using claimed(14) by (simp add: c_def)
    then have "x = Inr (To_send c)" "db' = v"
      using assms(1) y True parsed by (simp_all add: dispatch_begin_def bindC_def retC_def liftR_def)
    then show thesis
      using that(2) [of row new c message, OF claimed(1,5,6,7,8)] claimed(9-12) new parsed by (simp add: c_def)
  qed
qed

lemma finish_cases:
  assumes "dispatch_finish env c answer db = (x, db')"
  obtains (nothing) "elapsed db db'" "\<And>z. x \<noteq> Inr z"
  | (published) row new z where "handed_over env c answer = Inr ()" "row \<in> set (db_outbox db)" "claimFence c row"
      "new = row\<lparr>ob_status := Outbox_published, ob_lockedUntil := None, ob_publishedAt := Some (oe_clock env (db_reads db))\<rparr>"
      "guard_outbox_mutation row new" "outbox_constraints new"
      "db' = set_row new (db\<lparr>db_reads := Suc (db_reads db)\<rparr>)" "dispatchResultFromRow new db' = Inr z" "x = Inr z"
  | (returned) row new where "row \<in> set (db_outbox db)" "claimFence c row" "ob_status new \<noteq> Outbox_published"
      "ob_status new = Outbox_pending \<and> ob_attempts new < oe_maxAttempts env \<or> ob_status new = Outbox_failed"
      "guard_outbox_mutation row new" "outbox_constraints new"
      "db' = set_row new (db\<lparr>db_reads := Suc (db_reads db)\<rparr>)" "\<And>z. x \<noteq> Inr z"
proof (cases "handed_over env c answer")
  case (Inl e)
  obtain code retryable outcome where e: "publish_error e = (code, retryable, outcome)" by (cases "publish_error e")
  obtain y v where y: "recordFailure env c code retryable db = (y, v)" by (cases "recordFailure env c code retryable db")
  have x: "db' = v" "\<And>z. x \<noteq> Inr z"
    using assms Inl e y
    by (auto simp: dispatch_finish_def bindC_def catchC_def throwC_def split: sum.splits if_splits)
  from y show thesis
  proof (cases rule: failure_cases)
    case nothing
    then show thesis using that(1) x by simp
  next
    case (retried row backoff)
    then show thesis
      using that(3) [OF retried(2,3) _ _ retried(7,8)] x by (simp add: claimFence_def)
  next
    case (failed row new)
    then show thesis using that(3) [OF failed(2,3) _ _ failed(5,6)] x by simp
  qed
next
  case (Inr u)
  obtain y v where y: "markPublished env c db = (y, v)" by (cases "markPublished env c db")
  from y show thesis
  proof (cases rule: publish_cases)
    case nothing
    then have "db' = v" "\<And>z. x \<noteq> Inr z"
      using assms Inr y by (auto simp: dispatch_finish_def bindC_def throwC_def split: sum.splits option.splits)
    then have "elapsed db db'" "\<And>z. x \<noteq> Inr z" using \<open>elapsed db v\<close> by simp_all
    then show thesis by (rule that(1))
  next
    case (published row new z)
    have "DispatchOutboxResultSchema z"
      using published(7) by (auto simp: dispatchResultFromRow_def bindR_Inr_iff Let_def split: if_split_asm)
    then have "x = Inr z" "db' = v"
      using assms Inr y published(8) by (simp_all add: dispatch_finish_def bindC_def retC_def)
    then show thesis using that(2) [OF _ published(1-5)] published(6,7) Inr by simp
  qed
qed

end
