(* ===== verification/Outbox_Run.thy ===== *)
theory Outbox_Run
  imports Outbox_Finish
begin

text \<open>
  Runs of any number of dispatchers over the outbox: they begin dispatches, hand batches to the
  queue, and end dispatches in any order, may stop between the two transactions, and may end one
  dispatch with any answer of the queue. The invariant of the tables and of the claims handed out.
\<close>

section \<open>Runs\<close>

text \<open>A row as its producer writes it, with the channels of its intent.\<close>

definition recorded_row :: "outbox_row \<Rightarrow> channel_row list \<Rightarrow> outbox_db \<Rightarrow> bool" where
  "recorded_row r cs db =
     (ob_status r = Outbox_pending \<and> ob_attempts r = 0 \<and> outbox_constraints r \<and> lower_case (ob_id r) = ob_id r
      \<and> ob_id r \<notin> set (map ob_id (db_outbox db)) \<and> ob_intentId r \<notin> set (map ob_intentId (db_outbox db))
      \<and> list_all (\<lambda>c. ch_intentId c = ob_intentId r) cs)"

type_synonym acknowledged = "dispatch_claim \<times> queue_acknowledgement list"

text \<open>
  The claims handed out so far and the acknowledgements that covered every batch of a claim.
\<close>

inductive outbox_run :: "outbox_env \<Rightarrow> outbox_db \<Rightarrow> dispatch_claim set \<Rightarrow> acknowledged set \<Rightarrow> bool" for env where
  started: "outbox_run env \<lparr>db_events = [], db_channels = [], db_outbox = [], db_batches = [], db_idsDrawn = 0, db_reads = n\<rparr> {} {}"
| recorded: "outbox_run env db G A \<Longrightarrow> recorded_row r cs db \<Longrightarrow>
    outbox_run env (db\<lparr>db_outbox := db_outbox db @ [r], db_events := db_events db @ es, db_channels := db_channels db @ cs\<rparr>) G A"
| elsewhere: "outbox_run env db G A \<Longrightarrow> elapsed db db' \<Longrightarrow> outbox_run env db' G A"
| begun: "outbox_run env db G A \<Longrightarrow> dispatch_begin env locked i db = (Inr (To_send c), db') \<Longrightarrow>
    outbox_run env db' (insert c G) A"
| not_begun: "outbox_run env db G A \<Longrightarrow> dispatch_begin env locked i db = (x, db') \<Longrightarrow> (\<And>c. x \<noteq> Inr (To_send c)) \<Longrightarrow>
    outbox_run env db' G A"
| acknowledged: "outbox_run env db G A \<Longrightarrow> c \<in> G \<Longrightarrow>
    assertCompleteQueueAcknowledgement (oe_text env) (dc_batches c) acks = Inr () \<Longrightarrow>
    dispatch_finish env c (Inr acks) db = (x, db') \<Longrightarrow> outbox_run env db' G (insert (c, acks) A)"
| not_acknowledged: "outbox_run env db G A \<Longrightarrow> c \<in> G \<Longrightarrow> handed_over env c answer = Inl e \<Longrightarrow>
    dispatch_finish env c answer db = (x, db') \<Longrightarrow> outbox_run env db' G A"

text \<open>The clock does not go back and the options are in their bounds.\<close>

definition sound_env :: "outbox_env \<Rightarrow> bool" where
  "sound_env env = (mono (oe_clock env) \<and> 1 \<le> oe_lease env \<and> 1 \<le> oe_maxAttempts env \<and> oe_maxAttempts env \<le> 100)"

lemma later: "sound_env env \<Longrightarrow> n \<le> k \<Longrightarrow> oe_clock env n \<le> oe_clock env k"
  by (auto simp: sound_env_def mono_def)

section \<open>The invariant\<close>

text \<open>A claim is older than the state of its row, or the last one.\<close>

definition claim_upto :: "dispatch_claim \<Rightarrow> outbox_row \<Rightarrow> bool" where
  "claim_upto c r =
     (dc_attempt c < ob_attempts r
      \<or> dc_attempt c = ob_attempts r
        \<and> (case ob_lockedUntil r of None \<Rightarrow> True | Some t \<Rightarrow> dc_lockedUntil c \<le> t))"

text \<open>What a claim was handed out with is still what the tables say.\<close>

definition claim_backed :: "outbox_db \<Rightarrow> dispatch_claim \<Rightarrow> outbox_row \<Rightarrow> bool" where
  "claim_backed db c r =
     (ob_id r = dc_outboxId c \<and> parseDispatchClaim c = Inr c \<and> or_message (dc_record c) = ob_message r
      \<and> or_availableAt (dc_record c) \<le> ob_availableAt r
      \<and> resolveOutboxMessage r db = Inr (dc_facilityId c, ob_message r)
      \<and> plan_matches (sort_key ch_sequence (filter (\<lambda>c. ch_intentId c = ob_intentId r) (db_channels db)))
           (om_channels (ob_message r))
      \<and> loadDispatchBatches r (dc_facilityId c, ob_message r) db = Inr (dc_batches c))"

definition row_ok :: "outbox_env \<Rightarrow> outbox_db \<Rightarrow> dispatch_claim set \<Rightarrow> acknowledged set \<Rightarrow> outbox_row \<Rightarrow> bool" where
  "row_ok env db G A r =
     (outbox_constraints r \<and> lower_case (ob_id r) = ob_id r \<and> ob_attempts r \<le> oe_maxAttempts env
      \<and> (ob_status r = Outbox_pending \<longrightarrow> ob_attempts r < oe_maxAttempts env)
      \<and> (ob_status r = Outbox_processing \<longrightarrow> 1 \<le> ob_attempts r \<and> ob_availableAt r \<le> oe_clock env (db_reads db)
           \<and> (\<exists>c \<in> G. claimFence c r))
      \<and> (ob_status r = Outbox_published \<longrightarrow>
           (\<exists>(c, acks) \<in> A. dc_outboxId c = ob_id r \<and> dc_attempt c = ob_attempts r)))"

definition fence_of :: "dispatch_claim \<Rightarrow> uuid \<times> int \<times> timestamp" where
  "fence_of c = (dc_outboxId c, dc_attempt c, dc_lockedUntil c)"

definition outbox_invariant :: "outbox_env \<Rightarrow> outbox_db \<Rightarrow> dispatch_claim set \<Rightarrow> acknowledged set \<Rightarrow> bool" where
  "outbox_invariant env db G A =
     (distinct (map ob_id (db_outbox db))
      \<and> (\<forall>r \<in> set (db_outbox db). row_ok env db G A r)
      \<and> (\<forall>c \<in> G. \<exists>r \<in> set (db_outbox db). claim_backed db c r \<and> claim_upto c r)
      \<and> inj_on fence_of G
      \<and> (\<forall>(c, acks) \<in> A. c \<in> G \<and> assertCompleteQueueAcknowledgement (oe_text env) (dc_batches c) acks = Inr ()))"

end
