(* ===== verification/Outbox_Invariant.thy ===== *)
theory Outbox_Invariant
  imports Outbox_Run
begin

text \<open>Every run of dispatchers keeps the invariant of the outbox.\<close>

section \<open>What a claim was handed out with does not change\<close>

lemma find_in_append: "find P xs = Some x \<Longrightarrow> find P (xs @ ys) = Some x"
  by (induction xs) auto

lemma message_same: "same_content r r' \<Longrightarrow> outboxMessageFromRow r' = outboxMessageFromRow r"
  by (simp add: outboxMessageFromRow_def same_content_def)

lemma resolve_same:
  assumes "resolveOutboxMessage r db = Inr z" and "same_content r r'" and "db_events db' = db_events db @ es"
  shows "resolveOutboxMessage r' db' = Inr z"
proof -
  let ?hit = "\<lambda>e. er_id e = ob_eventId r \<and> er_kind e = ob_eventKind r \<and> er_mode e = ob_templateMode r
                    \<and> er_population e = eventPopulationForNotification (ob_rosterPopulation r)"
  obtain e where e: "find ?hit (db_events db) = Some e"
    using assms(1) unfolding resolveOutboxMessage_def bindR_Inr_iff by (cases "find ?hit (db_events db)") auto
  then have "find ?hit (db_events db @ es) = Some e" by (rule find_in_append)
  then show ?thesis
    using assms(1) e message_same [OF assms(2)] same_content_fields [OF assms(2)] assms(3)
    by (simp add: resolveOutboxMessage_def)
qed

lemma load_same:
  "ob_id r' = ob_id r \<Longrightarrow>
   filter (\<lambda>b. br_outboxId b = ob_id r) (db_batches db') = filter (\<lambda>b. br_outboxId b = ob_id r) (db_batches db) \<Longrightarrow>
   loadDispatchBatches r' z db' = loadDispatchBatches r z db"
  by (simp add: loadDispatchBatches_def)

lemma backed_stable:
  assumes "claim_backed db c r" and "same_content r r'" and "ob_availableAt r \<le> ob_availableAt r'"
    and "db_events db' = db_events db @ es"
    and "filter (\<lambda>c. ch_intentId c = ob_intentId r) (db_channels db') = filter (\<lambda>c. ch_intentId c = ob_intentId r) (db_channels db)"
    and "filter (\<lambda>b. br_outboxId b = ob_id r) (db_batches db') = filter (\<lambda>b. br_outboxId b = ob_id r) (db_batches db)"
  shows "claim_backed db' c r'"
  using assms(1,3,5) resolve_same [OF _ assms(2,4)] load_same [OF same_content_fields(1) [OF assms(2)] assms(6)]
    same_content_fields [OF assms(2)]
  unfolding claim_backed_def by simp

text \<open>Two claims of one row carry the same facility and the same batches.\<close>

lemma backed_agree:
  "claim_backed db c r \<Longrightarrow> claim_backed db d r \<Longrightarrow>
   dc_batches c = dc_batches d \<and> dc_facilityId c = dc_facilityId d \<and> or_message (dc_record c) = or_message (dc_record d)"
  by (auto simp: claim_backed_def)

section \<open>No batch is added to a row that was claimed before\<close>

lemma insert_missing_covered:
  "list_all (\<lambda>(k, p). cp_channel p \<in> set existing) plan \<Longrightarrow> insert_missing env r m createdAt existing plan db = (Inr (), db)"
  by (induction plan) (auto simp: retC_def)

lemma sequenceR_map_Inr:
  "sequenceR (map f xs) = Inr ys \<Longrightarrow> (\<And>x y. f x = Inr y \<Longrightarrow> g y = h x) \<Longrightarrow> map g ys = map h xs"
  by (induction xs arbitrary: ys) (auto simp: bindR_Inr_iff)

lemma batch_channel: "batchFromRow b m f = Inr d \<Longrightarrow> b_channel d = cp_channel (br_plan b)"
  by (auto simp: batchFromRow_def Let_def split: option.split_asm if_split_asm)

lemma loaded_channels:
  assumes "loadDispatchBatches r z db = Inr bs"
  shows "set (map b_channel bs) = (\<lambda>b. cp_channel (br_plan b)) ` set (filter (\<lambda>b. br_outboxId b = ob_id r) (db_batches db))"
proof -
  have "map b_channel bs = map (\<lambda>b. cp_channel (br_plan b))
     (sort_key br_sequence (filter (\<lambda>b. br_outboxId b = ob_id r) (db_batches db)))"
    using assms unfolding loadDispatchBatches_def by (rule sequenceR_map_Inr) (rule batch_channel)
  then show ?thesis by simp
qed

lemma planned_covered:
  assumes "DispatchOutboxResultSchema x"
  shows "set (map b_channel (dr_batches x)) = set (map cp_channel (om_channels (or_message (dr_record x))))"
proof (rule card_subset_eq)
  note s = result_schema_fields [OF assms]
  show "set (map b_channel (dr_batches x)) \<subseteq> set (map cp_channel (om_channels (or_message (dr_record x))))" by (rule s(6))
  have "card (set (map b_channel (dr_batches x))) = length (om_channels (or_message (dr_record x)))"
    using distinct_card [OF s(4)] s(5) by simp
  moreover have "card (set (map b_channel (dr_batches x))) \<le> card (set (map cp_channel (om_channels (or_message (dr_record x)))))"
    by (rule card_mono [OF _ s(6)]) simp
  ultimately show "card (set (map b_channel (dr_batches x))) = card (set (map cp_channel (om_channels (or_message (dr_record x)))))"
    using card_length [of "map cp_channel (om_channels (or_message (dr_record x)))"] by simp
qed simp

lemma parsed_schema:
  assumes "parseDispatchClaim c = Inr c"
  shows "DispatchOutboxResultSchema \<lparr>dr_facilityId = dc_facilityId c, dr_record = dc_record c, dr_batches = dc_batches c\<rparr>"
    "or_id (dc_record c) = dc_outboxId c" "OutboxRecordSchema (dc_record c)" "or_attempts (dc_record c) = dc_attempt c"
    "1 \<le> dc_attempt c" "dc_attempt c \<le> 100" "or_lockedUntil (dc_record c) = Some (dc_lockedUntil c)"
    "uuid_ok (dc_outboxId c)" "or_status (dc_record c) = Outbox_processing"
  using assms unfolding parseDispatchClaim_def by (simp_all split: if_split_asm)

lemma missing_none:
  assumes "claim_backed db c r"
  shows "insert_missing env r' (ob_message r) createdAt
      (map (\<lambda>b. cp_channel (br_plan b)) (filter (\<lambda>b. br_outboxId b = ob_id r) (db_batches db)))
      (enumerate 0 (om_channels (ob_message r))) db2 = (Inr (), db2)"
proof (rule insert_missing_covered)
  have c: "parseDispatchClaim c = Inr c" "or_message (dc_record c) = ob_message r"
    "loadDispatchBatches r (dc_facilityId c, ob_message r) db = Inr (dc_batches c)"
    using assms by (simp_all add: claim_backed_def)
  have "(\<lambda>b. cp_channel (br_plan b)) ` set (filter (\<lambda>b. br_outboxId b = ob_id r) (db_batches db))
      = set (map cp_channel (om_channels (ob_message r)))"
    using planned_covered [OF parsed_schema(1) [OF c(1)]] loaded_channels [OF c(3)] c(2) by simp
  then show "list_all (\<lambda>(k, p). cp_channel p
      \<in> set (map (\<lambda>b. cp_channel (br_plan b)) (filter (\<lambda>b. br_outboxId b = ob_id r) (db_batches db))))
     (enumerate 0 (om_channels (ob_message r)))"
    by (auto simp: list_all_iff in_set_enumerate_eq)
qed

lemma ensure_covered:
  assumes "claim_backed db c r" and "same_content r r'" and "outboxRecordFromRow r' = Inr y"
    and "db_events db' = db_events db" and "db_channels db' = db_channels db" and "db_batches db' = db_batches db"
  shows "ensureStableDispatchBatches env r' createdAt db'
    = (if DispatchOutboxResultSchema \<lparr>dr_facilityId = dc_facilityId c, dr_record = y, dr_batches = dc_batches c\<rparr>
       then (Inr (dc_facilityId c, dc_batches c), db') else (Inl Unexpected_error, db'))"
proof -
  note same = same_content_fields [OF assms(2)]
  have r: "resolveOutboxMessage r' db' = Inr (dc_facilityId c, ob_message r)"
    using assms(1) resolve_same [OF _ assms(2), of db _ db' "[]"] assms(4) by (simp add: claim_backed_def)
  have l: "loadDispatchBatches r' (dc_facilityId c, ob_message r) db' = Inr (dc_batches c)"
    using assms(1) load_same [OF same(1), of db' db] assms(6) by (simp add: claim_backed_def)
  have p: "plan_matches (sort_key ch_sequence (filter (\<lambda>c. ch_intentId c = ob_intentId r') (db_channels db')))
           (om_channels (ob_message r))"
    using assms(1,5) same(3) by (simp add: claim_backed_def)
  show ?thesis
    using r l p missing_none [OF assms(1), of env r' createdAt db'] assms(3,6) same(1)
    by (simp add: ensureStableDispatchBatches_def bindC_def liftR_def guardC_def guardR_def retC_def)
qed

section \<open>The invariant, step by step\<close>

lemma row_ok_mono:
  "row_ok env db G A r \<Longrightarrow> sound_env env \<Longrightarrow> db_reads db \<le> db_reads db' \<Longrightarrow> G \<subseteq> G' \<Longrightarrow> A \<subseteq> A' \<Longrightarrow> row_ok env db' G' A' r"
  unfolding row_ok_def using later [of env "db_reads db" "db_reads db'"] by fastforce

lemma guard_available:
  "guard_outbox_mutation old new \<Longrightarrow> ob_availableAt old \<le> ob_availableAt new"
  by (cases "ob_status old"; cases "ob_status new") (simp_all add: guard_outbox_mutation_def)

lemma invariant_step:
  assumes inv: "outbox_invariant env db G A" and env: "sound_env env"
    and row: "row \<in> set (db_outbox db)" and guard: "guard_outbox_mutation row new"
    and rows: "db_outbox db' = db_outbox (set_row new db)" and later: "db_reads db \<le> db_reads db'"
    and events: "db_events db' = db_events db" and channels: "db_channels db' = db_channels db"
    and batches: "\<And>d r. d \<in> G \<Longrightarrow> r \<in> set (db_outbox db) \<Longrightarrow> claim_backed db d r \<Longrightarrow>
      filter (\<lambda>b. br_outboxId b = ob_id r) (db_batches db') = filter (\<lambda>b. br_outboxId b = ob_id r) (db_batches db)"
    and new: "row_ok env db' G' A' new" and more: "G \<subseteq> G'" "A \<subseteq> A'"
    and upto: "\<And>d. d \<in> G \<Longrightarrow> claim_upto d row \<Longrightarrow> claim_upto d new"
  shows "distinct (map ob_id (db_outbox db'))" "\<forall>r \<in> set (db_outbox db'). row_ok env db' G' A' r"
    "\<forall>d \<in> G. \<exists>r \<in> set (db_outbox db'). claim_backed db' d r \<and> claim_upto d r"
proof -
  have same: "same_content row new" using guard by (rule guard_content)
  have id: "ob_id new = ob_id row" by (rule same_content_fields(1) [OF same])
  have unique: "distinct (map ob_id (db_outbox db))" using inv by (simp add: outbox_invariant_def)
  then show "distinct (map ob_id (db_outbox db'))" by (simp add: rows)
  show "\<forall>r \<in> set (db_outbox db'). row_ok env db' G' A' r"
    using new row_ok_mono [OF _ env later more] inv
    by (auto simp: rows outbox_invariant_def dest: set_row_rows)
  show "\<forall>d \<in> G. \<exists>r \<in> set (db_outbox db'). claim_backed db' d r \<and> claim_upto d r"
  proof
    fix d assume d: "d \<in> G"
    then obtain r where r: "r \<in> set (db_outbox db)" "claim_backed db d r" "claim_upto d r"
      using inv by (auto simp: outbox_invariant_def)
    note backed = backed_stable [OF r(2) _ _ _ _ batches [OF d r(1,2)], where es = "[]"]
    show "\<exists>r \<in> set (db_outbox db'). claim_backed db' d r \<and> claim_upto d r"
    proof (cases "ob_id r = ob_id row")
      case True
      have "r = row" by (rule row_unique [OF unique r(1) row True])
      then have "claim_backed db' d new" "claim_upto d new"
        using backed [OF _ guard_available] same guard events channels upto [OF d] r(3) by simp_all
      moreover have "new \<in> set (db_outbox db')" using set_row_keeps(2) [OF row] id rows by simp
      ultimately show ?thesis by blast
    next
      case False
      have "claim_backed db' d r" by (rule backed) (simp_all add: same_content_def events channels)
      moreover have "r \<in> set (db_outbox db')" using set_row_keeps(1) [OF r(1)] False id rows by simp
      ultimately show ?thesis using r(3) by blast
    qed
  qed
qed

lemma invariant_recorded:
  assumes "outbox_invariant env db G A" and "sound_env env" and "recorded_row r cs db"
  shows "outbox_invariant env (db\<lparr>db_outbox := db_outbox db @ [r], db_events := db_events db @ es,
    db_channels := db_channels db @ cs\<rparr>) G A" (is "outbox_invariant env ?db G A")
proof -
  note i = assms(1) [unfolded outbox_invariant_def]
  have "row_ok env ?db G A s" if "s \<in> set (db_outbox ?db)" for s
  proof (cases "s = r")
    case True
    then show ?thesis using assms(2,3) by (simp add: row_ok_def recorded_row_def sound_env_def)
  next
    case False
    then have "row_ok env db G A s" using that i by simp
    then show ?thesis by (rule row_ok_mono) (simp_all add: assms(2))
  qed
  moreover have "\<exists>s \<in> set (db_outbox ?db). claim_backed ?db c s \<and> claim_upto c s" if c: "c \<in> G" for c
  proof -
    obtain s where s: "s \<in> set (db_outbox db)" "claim_backed db c s" "claim_upto c s" using i c by blast
    have "filter (\<lambda>c. ch_intentId c = ob_intentId s) cs = []"
      using assms(3) s(1) by (auto simp: recorded_row_def filter_empty_conv list_all_iff)
    then have "claim_backed ?db c s"
      by (intro backed_stable [OF s(2), where es = es]) (simp_all add: same_content_def)
    then show ?thesis using s by auto
  qed
  moreover have "distinct (map ob_id (db_outbox ?db))" using i assms(3) by (auto simp: recorded_row_def)
  ultimately show ?thesis using i unfolding outbox_invariant_def by blast
qed

lemma invariant_elapsed:
  assumes "outbox_invariant env db G A" and "sound_env env" and "elapsed db db'"
  shows "outbox_invariant env db' G A"
proof -
  obtain n where n: "db_reads db \<le> n" "db' = db\<lparr>db_reads := n\<rparr>" using assms(3) by (auto simp: elapsed_def)
  have "claim_backed db' c r" if "claim_backed db c r" for c r
    by (rule backed_stable [OF that, where es = "[]"]) (simp_all add: n same_content_def)
  moreover have "row_ok env db' G A r" if "row_ok env db G A r" for r
    by (rule row_ok_mono [OF that assms(2)]) (simp_all add: n)
  moreover have "db_outbox db' = db_outbox db" by (simp add: n)
  ultimately show ?thesis using assms(1) unfolding outbox_invariant_def by (metis (no_types, lifting))
qed

text \<open>A row that is claimed leaves every earlier claim of it strictly behind.\<close>

lemma claimed_later:
  assumes "claim_upto d row" and "claimable now row" and "now \<le> now'" and "sound_env env" and "outbox_constraints row"
  shows "dc_attempt d < ob_attempts (claimed_row env row now')
    \<or> dc_attempt d = ob_attempts (claimed_row env row now') \<and> dc_lockedUntil d < now' + oe_lease env"
  using claimable_cases [OF assms(2)]
proof
  assume "ob_status row = Outbox_pending \<and> ob_availableAt row \<le> now"
  then show ?thesis using assms(1) by (auto simp: claim_upto_def claimed_row_def)
next
  assume "ob_status row = Outbox_processing \<and> (\<exists>t. ob_lockedUntil row = Some t \<and> t \<le> now)"
  then obtain t where t: "ob_status row = Outbox_processing" "ob_lockedUntil row = Some t" "t \<le> now" by blast
  have "0 < oe_lease env" using assms(4) by (simp add: sound_env_def)
  then show ?thesis using assms(1,3) t by (auto simp: claim_upto_def claimed_row_def)
qed

lemma ensure_planned:
  assumes "ensureStableDispatchBatches env r createdAt db = (Inr z, db')" and "resolveOutboxMessage r db' = Inr (f, m)"
  shows "plan_matches (sort_key ch_sequence (filter (\<lambda>c. ch_intentId c = ob_intentId r) (db_channels db')))
    (om_channels m)"
proof -
  note added = batches_added_fields [OF ensure_cases(1) [OF assms(1)]]
  have same: "resolveOutboxMessage r db = Inr (f, m)"
    using assms(2) added(2) by (simp add: resolveOutboxMessage_def)
  show ?thesis
    using assms(1) same added(3)
    by (auto simp: ensureStableDispatchBatches_def liftR_def guardR_def retC_def elim!: bindC_InrE split: if_split_asm)
qed

lemma invariant_rows:
  assumes "outbox_invariant env db G A"
  shows "distinct (map ob_id (db_outbox db))"
    "\<forall>r \<in> set (db_outbox db). ob_status r = Outbox_pending \<longrightarrow> 0 \<le> ob_attempts r \<and> ob_attempts r < oe_maxAttempts env"
    "\<forall>r \<in> set (db_outbox db). ob_status r = Outbox_processing \<longrightarrow> 1 \<le> ob_attempts r"
    "r \<in> set (db_outbox db) \<Longrightarrow> row_ok env db G A r"
    "r \<in> set (db_outbox db) \<Longrightarrow> outbox_constraints r"
  using assms by (auto simp: outbox_invariant_def row_ok_def outbox_constraints_def)

lemma invariant_claim:
  assumes "outbox_invariant env db G A" and "c \<in> G"
  obtains r where "r \<in> set (db_outbox db)" "claim_backed db c r" "claim_upto c r" "ob_id r = dc_outboxId c"
    "lower_case (dc_outboxId c) = dc_outboxId c"
proof -
  obtain r where r: "r \<in> set (db_outbox db)" "claim_backed db c r" "claim_upto c r"
    using assms by (auto simp: outbox_invariant_def)
  have "ob_id r = dc_outboxId c" using r(2) by (simp add: claim_backed_def)
  then show thesis using that r invariant_rows(4) [OF assms(1) r(1)] by (simp add: row_ok_def)
qed

lemma available_now:
  assumes "row_ok env db G A row" and "claimable (oe_clock env (db_reads db)) row" and "sound_env env" and "db_reads db \<le> n"
  shows "ob_availableAt row \<le> oe_clock env n"
proof -
  have "ob_availableAt row \<le> oe_clock env (db_reads db)"
    using claimable_cases [OF assms(2)] assms(1) by (auto simp: row_ok_def)
  then show ?thesis using later [OF assms(3,4)] by simp
qed

lemma invariant_begin:
  assumes inv: "outbox_invariant env db G A" and env: "sound_env env"
    and run: "dispatch_begin env locked i db = (x, db')"
  shows "(\<forall>c. x \<noteq> Inr (To_send c)) \<Longrightarrow> outbox_invariant env db' G A"
    and "x = Inr (To_send c) \<Longrightarrow> outbox_invariant env db' (insert c G) A"
proof -
  note ir = invariant_rows [OF inv]
  have "(\<forall>c. x \<noteq> Inr (To_send c)) \<and> outbox_invariant env db' G A
    \<or> (\<exists>c. x = Inr (To_send c) \<and> outbox_invariant env db' (insert c G) A)"
    using run ir(1,2,3)
  proof (cases rule: begin_cases)
    case nothing
    note quiet = this
    show ?thesis using quiet(2) invariant_elapsed [OF inv env quiet(1)] by blast
  next
    case (begun row new c message)
    let ?now = "oe_clock env (db_reads db)" and ?then = "oe_clock env (Suc (db_reads db))"
    let ?mid = "set_row new (db\<lparr>db_reads := Suc (Suc (db_reads db))\<rparr>)"
    note added = batches_added_fields [OF ensure_cases(1) [OF begun(6)]]
    have same: "same_content row new" using begun(4) by (rule guard_content)
    have id: "ob_id new = ob_id row" by (rule same_content_fields(1) [OF same])
    have new: "ob_status new = Outbox_processing" "ob_availableAt new = ob_availableAt row"
      by (simp_all add: begun(3) claimed_row_def)
    have reads: "db_reads db' = Suc (Suc (db_reads db))" using added(4) by simp
    have lock: "dc_lockedUntil c = ?then + oe_lease env" using begun(12) by (simp add: begun(3) claimed_row_def)
    have message: "message = ob_message new" "uuid_ok (dc_facilityId c)" using resolved_fields [OF begun(7)] by simp_all
    have mid: "db_batches ?mid = db_batches db" by simp
    have "or_availableAt (dc_record c) = ob_availableAt new"
      using begun(9) by (auto simp: outboxRecordFromRow_def bindR_Inr_iff Let_def split: if_split_asm)
    then have backed: "claim_backed db' c new"
      unfolding claim_backed_def
      using begun(7,8,10,13) id message(1) record_fields [OF begun(9)] ensure_planned [OF begun(6,7)] by simp
    have late: "dc_attempt d < dc_attempt c \<or> dc_attempt d = dc_attempt c \<and> dc_lockedUntil d < dc_lockedUntil c"
      if "claim_upto d row" for d
      using claimed_later [OF that begun(2) later [OF env, of "db_reads db" "Suc (db_reads db)"] env ir(5) [OF begun(1)]]
        begun(3,11) lock by simp
    have "1 \<le> ob_attempts new \<and> ob_attempts new \<le> oe_maxAttempts env"
      using claimable_cases [OF begun(2)] ir(2,3) ir(4) [OF begun(1)] begun(1)
      by (auto simp: begun(3) claimed_row_def row_ok_def)
    moreover have "ob_availableAt new \<le> oe_clock env (db_reads db')"
      using available_now [OF ir(4) [OF begun(1)] begun(2) env, of "db_reads db'"] new(2) reads by simp
    moreover have "lower_case (ob_id new) = ob_id new" using ir(4) [OF begun(1)] id by (simp add: row_ok_def)
    ultimately have ok: "row_ok env db' (insert c G) A new"
      using begun(5,10,11,12) new(1) id by (simp add: row_ok_def claimFence_def)
    have kept: "filter (\<lambda>b. br_outboxId b = ob_id r) (db_batches db') = filter (\<lambda>b. br_outboxId b = ob_id r) (db_batches db)"
      if r: "d \<in> G" "r \<in> set (db_outbox db)" "claim_backed db d r" for d r
    proof (cases "ob_id r = ob_id row")
      case True
      then have "r = row" by (rule row_unique [OF ir(1) r(2) begun(1)])
      then have "ensureStableDispatchBatches env new ?then ?mid = (Inr (dc_facilityId c, dc_batches c), ?mid)
          \<or> ensureStableDispatchBatches env new ?then ?mid = (Inl Unexpected_error, ?mid)"
        using ensure_covered [OF r(3) _ begun(9), of ?mid] same begun(6) by (auto split: if_split_asm)
      then have "db' = ?mid" using begun(6) by auto
      then show ?thesis by simp
    next
      case False
      then show ?thesis using added(5) [of "ob_id r"] id by simp
    qed
    note step = invariant_step [OF inv env begun(1,4), of db' "insert c G" A]
    have upto: "claim_upto d new" if "claim_upto d row" for d
      using late [OF that] begun(11,12) by (auto simp: claim_upto_def)
    have parts: "distinct (map ob_id (db_outbox db'))" "\<forall>r \<in> set (db_outbox db'). row_ok env db' (insert c G) A r"
      "\<forall>d \<in> G. \<exists>r \<in> set (db_outbox db'). claim_backed db' d r \<and> claim_upto d r"
      by (rule step; simp add: added reads kept ok upto set_row_def subset_insertI)+
    have "new \<in> set (db_outbox db')" using set_row_keeps(2) [of row db new] begun(1) id added(1) by (simp add: set_row_def)
    moreover have "claim_upto c new" using begun(11,12) by (simp add: claim_upto_def)
    moreover have "\<forall>d \<in> G. fence_of d \<noteq> fence_of c"
    proof (intro ballI notI)
      fix d assume d: "d \<in> G" and f: "fence_of d = fence_of c"
      obtain r where r: "r \<in> set (db_outbox db)" "claim_backed db d r" "claim_upto d r" "ob_id r = dc_outboxId d"
        by (rule invariant_claim [OF inv d])
      have "r = row" using f r(4) begun(10) by (intro row_unique [OF ir(1) r(1) begun(1)]) (simp add: fence_of_def)
      then show False using late [of d] r(3) f by (auto simp: fence_of_def)
    qed
    moreover have "inj_on fence_of G" "\<forall>(c, acks) \<in> A. c \<in> G \<and> assertCompleteQueueAcknowledgement (oe_text env) (dc_batches c) acks = Inr ()"
      using inv by (simp_all add: outbox_invariant_def)
    ultimately have "outbox_invariant env db' (insert c G) A"
      using parts backed unfolding outbox_invariant_def by (auto simp: inj_on_def)
    then show ?thesis using begun(14) by blast
  qed
  then show "(\<forall>c. x \<noteq> Inr (To_send c)) \<Longrightarrow> outbox_invariant env db' G A"
    and "x = Inr (To_send c) \<Longrightarrow> outbox_invariant env db' (insert c G) A" by auto
qed

lemma fence_row:
  assumes "outbox_invariant env db G A" and "c \<in> G" and "row \<in> set (db_outbox db)" and "claimFence c row"
  shows "ob_id row = dc_outboxId c" "claim_backed db c row" "ob_status row = Outbox_processing" "ob_attempts row = dc_attempt c"
proof -
  obtain r where r: "r \<in> set (db_outbox db)" "claim_backed db c r" "ob_id r = dc_outboxId c"
    "lower_case (dc_outboxId c) = dc_outboxId c" by (rule invariant_claim [OF assms(1,2)])
  then show id: "ob_id row = dc_outboxId c" using assms(4) by (simp add: claimFence_def)
  have "r = row" using r(3) id by (intro row_unique [OF invariant_rows(1) [OF assms(1)] r(1) assms(3)]) simp
  then show "claim_backed db c row" using r(2) by simp
  show "ob_status row = Outbox_processing" "ob_attempts row = dc_attempt c" using assms(4) by (simp_all add: claimFence_def)
qed

text \<open>A row leaves the processing state with its attempt and without a lease.\<close>

lemma guard_leaves:
  assumes "guard_outbox_mutation row new" and "ob_status row = Outbox_processing" and "ob_status new \<noteq> Outbox_processing"
  shows "ob_attempts new = ob_attempts row" "ob_lockedUntil new = None" "ob_id new = ob_id row"
  using assms same_content_fields(1) [OF guard_content [OF assms(1)]]
  by (cases "ob_status new"; simp add: guard_outbox_mutation_def)+

lemma invariant_leaves:
  assumes inv: "outbox_invariant env db G A" and env: "sound_env env"
    and row: "row \<in> set (db_outbox db)" "ob_status row = Outbox_processing"
    and guard: "guard_outbox_mutation row new" and new: "outbox_constraints new" "ob_status new \<noteq> Outbox_processing"
    and pending: "ob_status new = Outbox_pending \<longrightarrow> ob_attempts new < oe_maxAttempts env"
    and published: "ob_status new = Outbox_published \<longrightarrow>
      (\<exists>(c, acks) \<in> A'. dc_outboxId c = ob_id row \<and> dc_attempt c = ob_attempts row)"
    and more: "A \<subseteq> A'"
    and acks: "\<forall>(c, acks) \<in> A'. c \<in> G \<and> assertCompleteQueueAcknowledgement (oe_text env) (dc_batches c) acks = Inr ()"
    and db': "db' = set_row new (db\<lparr>db_reads := Suc (db_reads db)\<rparr>)"
  shows "outbox_invariant env db' G A'"
proof -
  note left = guard_leaves [OF guard row(2) new(2)]
  have "lower_case (ob_id new) = ob_id new" "ob_attempts new \<le> oe_maxAttempts env"
    using invariant_rows(4) [OF inv row(1)] left(1,3) by (simp_all add: row_ok_def)
  then have ok: "row_ok env db' G A' new" using new pending published left by (simp add: row_ok_def)
  have upto: "claim_upto d new" if "claim_upto d row" for d using that left by (auto simp: claim_upto_def)
  have fields: "db_outbox db' = db_outbox (set_row new db)" "db_reads db' = Suc (db_reads db)"
    "db_events db' = db_events db" "db_channels db' = db_channels db" "db_batches db' = db_batches db"
    by (simp_all add: db' set_row_def)
  note step = invariant_step [OF inv env row(1) guard, of db' G A']
  have "distinct (map ob_id (db_outbox db'))" "\<forall>r \<in> set (db_outbox db'). row_ok env db' G A' r"
    "\<forall>d \<in> G. \<exists>r \<in> set (db_outbox db'). claim_backed db' d r \<and> claim_upto d r"
    by (rule step; simp add: fields ok upto more)+
  moreover have "inj_on fence_of G" using inv by (simp add: outbox_invariant_def)
  ultimately show ?thesis using acks unfolding outbox_invariant_def by blast
qed

lemma invariant_acks_grow:
  assumes "outbox_invariant env db G A" and "A \<subseteq> A'"
    and "\<forall>(c, acks) \<in> A'. c \<in> G \<and> assertCompleteQueueAcknowledgement (oe_text env) (dc_batches c) acks = Inr ()"
    and "sound_env env"
  shows "outbox_invariant env db G A'"
  using assms row_ok_mono [OF _ assms(4) order_refl order_refl assms(2), of db G]
  unfolding outbox_invariant_def by blast

lemma invariant_finish:
  assumes inv: "outbox_invariant env db G A" and env: "sound_env env" and c: "c \<in> G"
    and run: "dispatch_finish env c answer db = (x, db')" and more: "A \<subseteq> A'"
    and acks: "\<forall>(c, acks) \<in> A'. c \<in> G \<and> assertCompleteQueueAcknowledgement (oe_text env) (dc_batches c) acks = Inr ()"
    and covered: "handed_over env c answer = Inr () \<Longrightarrow> \<exists>acks. (c, acks) \<in> A'"
  shows "outbox_invariant env db' G A'"
  using run
proof (cases rule: finish_cases)
  case nothing
  note quiet = this
  show ?thesis by (rule invariant_acks_grow [OF invariant_elapsed [OF inv env quiet(1)] more acks env])
next
  case (published row new z)
  note f = fence_row [OF inv c published(2,3)]
  have "ob_status new = Outbox_published" by (simp add: published(4))
  then show ?thesis
    using covered [OF published(1)] f(1,4)
    by (intro invariant_leaves [OF inv env published(2) f(3) published(5,6) _ _ _ more acks published(7)]) auto
next
  case (returned row new)
  note f = fence_row [OF inv c returned(1,2)]
  show ?thesis
    using returned(3,4)
    by (intro invariant_leaves [OF inv env returned(1) f(3) returned(5,6) _ _ _ more acks returned(7)]) auto
qed

theorem run_invariant:
  assumes "outbox_run env db G A" and "sound_env env"
  shows "outbox_invariant env db G A"
  using assms(1)
proof (induction rule: outbox_run.induct)
  case (started n)
  show ?case by (simp add: outbox_invariant_def)
next
  case (recorded db G A r cs es)
  then show ?case using invariant_recorded assms(2) by blast
next
  case (elsewhere db G A db')
  then show ?case using invariant_elapsed assms(2) by blast
next
  case (begun db G A locked i c db')
  then show ?case using invariant_begin(2) [OF _ assms(2)] by blast
next
  case (not_begun db G A locked i x db')
  then show ?case using invariant_begin(1) [OF _ assms(2)] by blast
next
  case (acknowledged db G A c acks x db')
  have "\<forall>(c, acks) \<in> A. c \<in> G \<and> assertCompleteQueueAcknowledgement (oe_text env) (dc_batches c) acks = Inr ()"
    using acknowledged.IH by (simp add: outbox_invariant_def)
  then have "\<forall>(c, acks) \<in> insert (c, acks) A.
      c \<in> G \<and> assertCompleteQueueAcknowledgement (oe_text env) (dc_batches c) acks = Inr ()"
    using acknowledged.hyps(2,3) by simp
  then show ?case
    by (rule invariant_finish [OF acknowledged.IH assms(2) acknowledged.hyps(2,4) subset_insertI]) auto
next
  case (not_acknowledged db G A c answer e x db')
  have "\<forall>(c, acks) \<in> A. c \<in> G \<and> assertCompleteQueueAcknowledgement (oe_text env) (dc_batches c) acks = Inr ()"
    using not_acknowledged.IH by (simp add: outbox_invariant_def)
  then show ?case
    by (rule invariant_finish [OF not_acknowledged.IH assms(2) not_acknowledged.hyps(2,4) order_refl])
       (simp add: not_acknowledged.hyps(3))
qed

end
