(* ===== verification/Outbox_Facts.thy ===== *)
theory Outbox_Facts
  imports Outbox_Invariant
begin

text \<open>
  What a run of dispatchers guarantees: writes that the tables accept, leases that are recovered
  and cannot be used after they were taken over, and publication after a complete hand-over only.
\<close>

section \<open>The writes of a run pass the update trigger and the constraints\<close>

definition published_at :: "timestamp \<Rightarrow> outbox_row \<Rightarrow> outbox_row" where
  "published_at now r = r\<lparr>ob_status := Outbox_published, ob_lockedUntil := None, ob_publishedAt := Some now\<rparr>"

definition retried_at :: "timestamp \<Rightarrow> outbox_row \<Rightarrow> outbox_row" where
  "retried_at t r = r\<lparr>ob_status := Outbox_pending, ob_lockedUntil := None, ob_availableAt := t\<rparr>"

definition failed_at :: "timestamp \<Rightarrow> dispatcher_code \<Rightarrow> outbox_row \<Rightarrow> outbox_row" where
  "failed_at now code r = r\<lparr>ob_status := Outbox_failed, ob_lockedUntil := None, ob_failedAt := Some now,
     ob_lastErrorCode := Some (dispatcher_code_text code)\<rparr>"

lemma code_text_ok: "reason_code_ok (dispatcher_code_text code)"
  by (cases code; simp only:; code_simp)

lemma processing_columns:
  assumes "outbox_constraints r" and "ob_status r = Outbox_processing"
  shows "ob_publishedAt r = None" "ob_failedAt r = None" "ob_lockedUntil r \<noteq> None" "ob_createdAt r \<le> ob_availableAt r"
    "pred_option reason_code_ok (ob_lastErrorCode r)" "0 \<le> ob_attempts r" "ob_attempts r \<le> 100"
  using assms unfolding outbox_constraints_def by auto

lemma published_accepted:
  assumes "outbox_constraints r" and "ob_status r = Outbox_processing" and "ob_availableAt r \<le> now"
  shows "guard_outbox_mutation r (published_at now r)" "outbox_constraints (published_at now r)"
  using processing_columns [OF assms(1,2)] assms(2,3)
  by (simp_all add: guard_outbox_mutation_def same_content_def outbox_constraints_def published_at_def)

lemma retried_accepted:
  assumes "outbox_constraints r" and "ob_status r = Outbox_processing" and "ob_availableAt r \<le> t"
  shows "guard_outbox_mutation r (retried_at t r)" "outbox_constraints (retried_at t r)"
  using processing_columns [OF assms(1,2)] assms(2,3)
  by (simp_all add: guard_outbox_mutation_def same_content_def outbox_constraints_def retried_at_def)

lemma failed_accepted:
  assumes "outbox_constraints r" and "ob_status r = Outbox_processing" and "ob_availableAt r \<le> now"
  shows "guard_outbox_mutation r (failed_at now code r)" "outbox_constraints (failed_at now code r)"
  using processing_columns [OF assms(1,2)] assms(2,3) code_text_ok
  by (simp_all add: guard_outbox_mutation_def same_content_def outbox_constraints_def failed_at_def)

lemma claimed_accepted:
  assumes "row_ok env db G A r" and "claimable now r" and "now \<le> now'" and "sound_env env"
  shows "guard_outbox_mutation r (claimed_row env r now')" "outbox_constraints (claimed_row env r now')"
proof -
  have r: "outbox_constraints r" "ob_status r = Outbox_pending \<longrightarrow> ob_attempts r < oe_maxAttempts env"
    using assms(1) by (simp_all add: row_ok_def)
  have env: "0 < oe_lease env" "oe_maxAttempts env \<le> 100" using assms(4) by (simp_all add: sound_env_def)
  show "guard_outbox_mutation r (claimed_row env r now')"
    using claimable_cases [OF assms(2)]
  proof
    assume "ob_status r = Outbox_pending \<and> ob_availableAt r \<le> now"
    then show ?thesis by (simp add: guard_outbox_mutation_def same_content_def claimed_row_def)
  next
    assume "ob_status r = Outbox_processing \<and> (\<exists>t. ob_lockedUntil r = Some t \<and> t \<le> now)"
    then show ?thesis using assms(3) env(1) by (auto simp: guard_outbox_mutation_def same_content_def claimed_row_def)
  qed
  show "outbox_constraints (claimed_row env r now')"
    using claimable_cases [OF assms(2)] r env assms(3) by (auto simp: outbox_constraints_def claimed_row_def)
qed

text \<open>
  C15: In every run, whatever the dispatchers write to a row, a claim of a
  claimable row, or a publication, a failure or a retry behind the fence of a claim that was
  handed out, the update trigger and the constraints of the table accept: the state machine of
  the code refines the one that the database enforces.
\<close>

theorem outbox_writes_accepted:
  assumes "outbox_run env db G A" and "sound_env env" and "r \<in> set (db_outbox db)"
    and now: "now = oe_clock env (db_reads db)"
    and "claimable now r \<and> w = claimed_row env r (oe_clock env (Suc (db_reads db)))
      \<or> (\<exists>c \<in> G. claimFence c r) \<and> w \<in> {published_at now r, failed_at now code r, retried_at (now + int delay) r}"
  shows "guard_outbox_mutation r w \<and> outbox_constraints w"
  using assms(5)
proof
  have ok: "row_ok env db G A r" using run_invariant [OF assms(1,2)] assms(3) by (simp add: outbox_invariant_def)
  {
    assume "claimable now r \<and> w = claimed_row env r (oe_clock env (Suc (db_reads db)))"
    then show ?thesis using claimed_accepted [OF ok _ later [OF assms(2), of "db_reads db" "Suc (db_reads db)"] assms(2)] now by simp
  next
    assume w: "(\<exists>c \<in> G. claimFence c r) \<and> w \<in> {published_at now r, failed_at now code r, retried_at (now + int delay) r}"
    then have p: "ob_status r = Outbox_processing" by (auto simp: claimFence_def)
    have r: "ob_availableAt r \<le> now" "outbox_constraints r" using ok p now by (simp_all add: row_ok_def)
    then have "ob_availableAt r \<le> now + int delay" by simp
    then show ?thesis
      using w published_accepted [OF r(2) p r(1)] failed_accepted [OF r(2) p r(1)] retried_accepted [OF r(2) p] by auto
  }
qed

section \<open>Records and results of rows that a claim stands behind\<close>

lemma result_schema_record:
  "DispatchOutboxResultSchema \<lparr>dr_facilityId = f, dr_record = x, dr_batches = bs\<rparr> \<Longrightarrow> OutboxRecordSchema y \<Longrightarrow>
   or_message y = or_message x \<Longrightarrow> DispatchOutboxResultSchema \<lparr>dr_facilityId = f, dr_record = y, dr_batches = bs\<rparr>"
  by (simp add: DispatchOutboxResultSchema_def Let_def)

lemma record_of_row:
  assumes "claim_backed db c r" and "same_content r r'" and "outbox_constraints r'"
    and "ob_availableAt r \<le> ob_availableAt r'"
    and "pred_option (\<lambda>t. ob_availableAt r \<le> t) (ob_lockedUntil r')"
    and "pred_option (\<lambda>t. ob_availableAt r \<le> t) (ob_publishedAt r')"
    and "pred_option (\<lambda>t. ob_availableAt r \<le> t) (ob_failedAt r')"
  obtains y where "outboxRecordFromRow r' = Inr y" "OutboxRecordSchema y" "or_message y = or_message (dc_record c)"
    "DispatchOutboxResultSchema \<lparr>dr_facilityId = dc_facilityId c, dr_record = y, dr_batches = dc_batches c\<rparr>"
    "or_status y = ob_status r'" "or_id y = dc_outboxId c"
proof -
  have c: "parseDispatchClaim c = Inr c" "or_message (dc_record c) = ob_message r" "ob_id r = dc_outboxId c"
    "or_availableAt (dc_record c) \<le> ob_availableAt r"
    "resolveOutboxMessage r db = Inr (dc_facilityId c, ob_message r)"
    using assms(1) by (simp_all add: claim_backed_def)
  note s = parsed_schema [OF c(1)] and same = same_content_fields [OF assms(2)]
  have "outboxMessageFromRow r = Inr (ob_message r)"
    using c(5) by (auto simp: resolveOutboxMessage_def bindR_Inr_iff dest: message_from_row)
  then have m: "outboxMessageFromRow r' = Inr (ob_message r)" using message_same [OF assms(2)] by simp
  define y where "y = \<lparr>or_id = ob_id r', or_message = ob_message r, or_status = ob_status r', or_attempts = ob_attempts r',
                or_availableAt = ob_availableAt r', or_lockedUntil = ob_lockedUntil r',
                or_publishedAt = ob_publishedAt r', or_failedAt = ob_failedAt r',
                or_lastErrorCode = ob_lastErrorCode r'\<rparr>"
  have created: "om_createdAt (ob_message r) \<le> ob_availableAt r"
    using s(3) c(2,4) by (simp add: OutboxRecordSchema_def isAtOrAfter_def)
  have "OutboxRecordSchema y"
    using s(2,3) c(2,3) same(1) assms(3-7) created
    by (cases "ob_lockedUntil r'"; cases "ob_publishedAt r'"; cases "ob_failedAt r'")
       (auto simp: OutboxRecordSchema_def outbox_constraints_def isAtOrAfter_def y_def)
  moreover have "outboxRecordFromRow r' = Inr y"
    using m calculation by (simp add: outboxRecordFromRow_def y_def)
  ultimately show thesis
    using that [of y] result_schema_record [OF s(1), of y] c(2,3) same(1) by (simp add: y_def)
qed

section \<open>Claims of one outbox\<close>

text \<open>
  C13: All claims that were ever handed out for one outbox carry the same
  facility, message and batches, so that a message sent again is the same message; two of them with the
  same attempt and lease are the same claim, and no attempt number exceeds the configured maximum.
\<close>

theorem outbox_claims_agree:
  assumes "outbox_run env db G A" and "sound_env env" and "c \<in> G" and "d \<in> G" and "dc_outboxId c = dc_outboxId d"
  shows "dc_batches c = dc_batches d \<and> dc_facilityId c = dc_facilityId d
    \<and> or_message (dc_record c) = or_message (dc_record d)
    \<and> ((dc_attempt c, dc_lockedUntil c) = (dc_attempt d, dc_lockedUntil d)) = (c = d)
    \<and> 1 \<le> dc_attempt c \<and> dc_attempt c \<le> oe_maxAttempts env"
proof -
  have inv: "outbox_invariant env db G A" by (rule run_invariant [OF assms(1,2)])
  obtain r where r: "r \<in> set (db_outbox db)" "claim_backed db c r" "claim_upto c r" "ob_id r = dc_outboxId c"
    by (rule invariant_claim [OF inv assms(3)])
  obtain s where s: "s \<in> set (db_outbox db)" "claim_backed db d s" "ob_id s = dc_outboxId d"
    by (rule invariant_claim [OF inv assms(4)])
  have "r = s" using r(4) s(3) assms(5) by (intro row_unique [OF invariant_rows(1) [OF inv] r(1) s(1)]) simp
  then have "dc_batches c = dc_batches d \<and> dc_facilityId c = dc_facilityId d
      \<and> or_message (dc_record c) = or_message (dc_record d)"
    using backed_agree r(2) s(2) by blast
  moreover have "((dc_attempt c, dc_lockedUntil c) = (dc_attempt d, dc_lockedUntil d)) = (c = d)"
  proof
    assume "(dc_attempt c, dc_lockedUntil c) = (dc_attempt d, dc_lockedUntil d)"
    then have "fence_of c = fence_of d" using assms(5) by (simp add: fence_of_def)
    moreover have "inj_on fence_of G" using inv by (simp add: outbox_invariant_def)
    ultimately show "c = d" using assms(3,4) by (simp only: inj_on_def)
  qed simp
  moreover have "1 \<le> dc_attempt c" using parsed_schema(5) r(2) by (simp add: claim_backed_def)
  moreover have "dc_attempt c \<le> oe_maxAttempts env"
    using r(3) invariant_rows(4) [OF inv r(1)] by (auto simp: claim_upto_def row_ok_def)
  ultimately show ?thesis by simp
qed

section \<open>A lease that was taken over\<close>

definition overtaken_by :: "dispatch_claim \<Rightarrow> dispatch_claim \<Rightarrow> bool" where
  "overtaken_by c d =
     (dc_outboxId d = dc_outboxId c
      \<and> (dc_attempt c < dc_attempt d \<or> dc_attempt c = dc_attempt d \<and> dc_lockedUntil c < dc_lockedUntil d))"

text \<open>
  C7: A dispatcher whose lease another one has taken over changes
  nothing but the time that passes and reports no result, whatever its queue answered.
\<close>

theorem overtaken_dispatcher_harmless:
  assumes "outbox_run env db G A" and "sound_env env" and "c \<in> G" and "d \<in> G" and "overtaken_by c d"
    and "dispatch_finish env c answer db = (x, db')"
  shows "elapsed db db' \<and> (\<exists>e. x = Inl e)"
proof -
  have inv: "outbox_invariant env db G A" by (rule run_invariant [OF assms(1,2)])
  obtain s where s: "s \<in> set (db_outbox db)" "claim_upto d s" "ob_id s = dc_outboxId d"
    by (rule invariant_claim [OF inv assms(4)])
  have unfenced: False if row: "row \<in> set (db_outbox db)" "claimFence c row" for row
  proof -
    have "ob_id row = dc_outboxId c" by (rule fence_row(1) [OF inv assms(3) row])
    then have "row = s"
      using s(3) assms(5) by (intro row_unique [OF invariant_rows(1) [OF inv] row(1) s(1)]) (simp add: overtaken_by_def)
    then have "ob_attempts s = dc_attempt c" "ob_lockedUntil s = Some (dc_lockedUntil c)"
      using row(2) by (simp_all add: claimFence_def)
    then have "dc_attempt d < dc_attempt c \<or> dc_attempt d = dc_attempt c \<and> dc_lockedUntil d \<le> dc_lockedUntil c"
      using s(2) unfolding claim_upto_def by simp
    moreover have "dc_attempt c < dc_attempt d \<or> dc_attempt c = dc_attempt d \<and> dc_lockedUntil c < dc_lockedUntil d"
      using assms(5) unfolding overtaken_by_def by (rule conjunct2)
    ultimately show False by linarith
  qed
  from assms(6) show ?thesis
  proof (cases rule: finish_cases)
    case nothing
    then show ?thesis by (cases x) auto
  qed (use unfenced in blast)+
qed

section \<open>Publication\<close>

text \<open>
  C6: A row is published only after the queue acknowledged every
  batch of one of its claims, exactly the batches that the tables hold for it, in the attempt that the row records.
\<close>

theorem outbox_published_after_handover:
  assumes "outbox_run env db G A" and "sound_env env" and "r \<in> set (db_outbox db)" and "ob_status r = Outbox_published"
  shows "\<exists>(c, acks) \<in> A. dc_outboxId c = ob_id r \<and> dc_attempt c = ob_attempts r
    \<and> loadDispatchBatches r (dc_facilityId c, ob_message r) db = Inr (dc_batches c)
    \<and> assertCompleteQueueAcknowledgement (oe_text env) (dc_batches c) acks = Inr ()"
proof -
  have inv: "outbox_invariant env db G A" by (rule run_invariant [OF assms(1,2)])
  then obtain c acks where c: "(c, acks) \<in> A" "dc_outboxId c = ob_id r" "dc_attempt c = ob_attempts r"
    using assms(3,4) by (fastforce simp: outbox_invariant_def row_ok_def)
  then have k: "c \<in> G" "assertCompleteQueueAcknowledgement (oe_text env) (dc_batches c) acks = Inr ()"
    using inv by (auto simp: outbox_invariant_def)
  obtain s where s: "s \<in> set (db_outbox db)" "claim_backed db c s" "ob_id s = dc_outboxId c"
    by (rule invariant_claim [OF inv k(1)])
  have "s = r" using s(3) c(2) by (intro row_unique [OF invariant_rows(1) [OF inv] s(1) assms(3)]) simp
  then show ?thesis using c k(2) s(2) by (intro bexI [of _ "(c, acks)"]) (simp_all add: claim_backed_def)
qed

end
