(* ===== verification/Outbox_Progress.thy ===== *)
theory Outbox_Progress
  imports Outbox_Facts
begin

text \<open>
  Progress: a dispatcher that still holds its lease publishes what the queue acknowledged, and an
  outbox whose dispatcher was lost is taken over, under the same attempt and with the same batches.
\<close>

lemma update_accepted:
  assumes "distinct (map ob_id (db_outbox db))" and "r \<in> set (db_outbox db)" and "hit r"
    and "\<And>s. hit s \<Longrightarrow> ob_id s = ob_id r" and "guard_outbox_mutation r (f r)" and "outbox_constraints (f r)"
  shows "update_outbox hit f db = (Inr (Some (f r)), set_row (f r) db)"
proof -
  have "find hit (db_outbox db) = Some r" by (rule find_row; fact assms)
  then show ?thesis
    using assms(5,6) same_content_fields(1) [OF guard_content [OF assms(5)]] by (simp add: update_outbox_def set_row_def)
qed

text \<open>What a claim stands for is still there after its row changed.\<close>

lemma backed_after:
  assumes "claim_backed db c r" and "guard_outbox_mutation r new"
  shows "claim_backed (set_row new (db\<lparr>db_reads := n\<rparr>)) c new"
  by (rule backed_stable [OF assms(1) guard_content [OF assms(2)] guard_available [OF assms(2)], where es = "[]"]) simp_all

lemma result_of_row:
  assumes "claim_backed db c r" and "outboxRecordFromRow r = Inr y"
    and "DispatchOutboxResultSchema \<lparr>dr_facilityId = dc_facilityId c, dr_record = y, dr_batches = dc_batches c\<rparr>"
  shows "dispatchResultFromRow r db = Inr \<lparr>dr_facilityId = dc_facilityId c, dr_record = y, dr_batches = dc_batches c\<rparr>"
  using assms by (simp add: dispatchResultFromRow_def claim_backed_def)

text \<open>
  A dispatcher that still holds its lease and whose queue acknowledged
  every batch publishes the row: it answers with the published record and the batches of its claim.
\<close>

theorem lease_holder_publishes:
  assumes "outbox_run env db G A" and "sound_env env" and "c \<in> G" and "r \<in> set (db_outbox db)" and "claimFence c r"
    and "assertCompleteQueueAcknowledgement (oe_text env) (dc_batches c) acks = Inr ()"
  shows "\<exists>z db'. dispatch_finish env c (Inr acks) db = (Inr z, db') \<and> dr_batches z = dc_batches c
    \<and> or_id (dr_record z) = dc_outboxId c \<and> or_status (dr_record z) = Outbox_published
    \<and> published_at (oe_clock env (db_reads db)) r \<in> set (db_outbox db')"
proof -
  let ?now = "oe_clock env (db_reads db)" and ?read = "db\<lparr>db_reads := Suc (db_reads db)\<rparr>"
  let ?new = "published_at ?now r" and ?f = "published_at ?now"
  let ?db = "set_row ?new ?read"
  have inv: "outbox_invariant env db G A" by (rule run_invariant [OF assms(1,2)])
  note f = fence_row [OF inv assms(3,4,5)]
  have ok: "row_ok env db G A r" by (rule invariant_rows(4) [OF inv assms(4)])
  have now: "ob_availableAt r \<le> ?now" "outbox_constraints r" using ok f(3) by (simp_all add: row_ok_def)
  note accepted = published_accepted [OF now(2) f(3) now(1)]
  have fence: "\<And>s. claimFence c s \<Longrightarrow> ob_id s = ob_id r" using assms(5) by (simp add: claimFence_def)
  have update: "update_outbox (claimFence c) ?f ?read = (Inr (Some ?new), ?db)"
    by (rule update_accepted; (rule fence accepted assms(5))?) (simp_all add: assms(4) invariant_rows(1) [OF inv])
  have none: "ob_failedAt r = None" "ob_publishedAt r = None"
    using processing_columns [OF now(2) f(3)] by simp_all
  obtain y where y: "outboxRecordFromRow ?new = Inr y" "or_status y = ob_status ?new" "or_id y = dc_outboxId c"
    "DispatchOutboxResultSchema \<lparr>dr_facilityId = dc_facilityId c, dr_record = y, dr_batches = dc_batches c\<rparr>"
    by (rule record_of_row [OF f(2) guard_content [OF accepted(1)] accepted(2)])
       (use now(1) none in \<open>simp_all add: published_at_def\<close>)
  note result = result_of_row [OF backed_after [OF f(2) accepted(1)] y(1,4)]
  have parsed: "parseDispatchClaim c = Inr c" using f(2) by (simp add: claim_backed_def)
  have "markPublished env c db = (Inr (Some \<lparr>dr_facilityId = dc_facilityId c, dr_record = y, dr_batches = dc_batches c\<rparr>), ?db)"
    using update result parsed
    by (simp add: markPublished_def bindC_def liftR_def retC_def outbox_transaction_def readDatabaseTime_def
        published_at_def [abs_def])
  moreover have "?new \<in> set (db_outbox ?db)"
    using set_row_keeps(2) [of r ?read ?new] assms(4) by (simp add: published_at_def)
  ultimately show ?thesis
    using assms(6) y(2,3,4)
    by (auto simp: dispatch_finish_def handed_over_def bindC_def retC_def published_at_def)
qed

text \<open>
  What the recovery of an expired lease rests on: any two claims of an outbox carry the same batches,
  and a row in processing that may be claimed again is claimed with the batches of its last claim.
\<close>

lemma claims_one_plan:
  assumes "outbox_invariant env db G A" and "d \<in> G" and "e \<in> G" and "dc_outboxId e = dc_outboxId d"
  shows "dc_batches e = dc_batches d"
proof -
  obtain r where r: "r \<in> set (db_outbox db)" "claim_backed db d r" "ob_id r = dc_outboxId d"
    by (rule invariant_claim [OF assms(1,2)])
  obtain s where s: "s \<in> set (db_outbox db)" "claim_backed db e s" "ob_id s = dc_outboxId e"
    by (rule invariant_claim [OF assms(1,3)])
  have "s = r" using s(3) r(3) assms(4) by (intro row_unique [OF invariant_rows(1) [OF assms(1)] s(1) r(1)]) simp
  then show ?thesis using backed_agree r(2) s(2) by blast
qed

lemma retaken_start:
  assumes "outbox_invariant env db G A" and "sound_env env" and "r \<in> set (db_outbox db)" and "d \<in> G" and "claimFence d r"
    and "claimable now r" and "now \<le> t" and "ob_availableAt r \<le> t"
    and now: "db_outbox db' = db_outbox db" "db_events db' = db_events db" "db_channels db' = db_channels db"
      "db_batches db' = db_batches db"
  obtains y where "outboxRecordFromRow (claimed_row env r t) = Inr y"
    "DispatchOutboxResultSchema \<lparr>dr_facilityId = dc_facilityId d, dr_record = y, dr_batches = dc_batches d\<rparr>"
    "start_claim env r t db' = (Inr (Claimed \<lparr>dc_outboxId = ob_id r, dc_facilityId = dc_facilityId d,
       dc_attempt = ob_attempts r, dc_lockedUntil = t + oe_lease env, dc_record = y, dc_batches = dc_batches d\<rparr>),
       set_row (claimed_row env r t) db')"
proof -
  let ?new = "claimed_row env r t"
  note f = fence_row [OF assms(1,4,3,5)]
  have ok: "row_ok env db G A r" by (rule invariant_rows(4) [OF assms(1,3)])
  then have constraints: "outbox_constraints r" by (simp add: row_ok_def)
  note accepted = claimed_accepted [OF ok assms(6,7,2)]
  have lease: "1 \<le> oe_lease env" using assms(2) by (simp add: sound_env_def)
  obtain y where y: "outboxRecordFromRow ?new = Inr y"
    "DispatchOutboxResultSchema \<lparr>dr_facilityId = dc_facilityId d, dr_record = y, dr_batches = dc_batches d\<rparr>"
    by (rule record_of_row [OF f(2) guard_content [OF accepted(1)] accepted(2)])
       (use assms(8) lease processing_columns [OF constraints f(3)] in \<open>simp_all add: claimed_row_def\<close>)
  have new: "ob_id ?new = ob_id r" "ob_attempts ?new = ob_attempts r" "ob_lockedUntil ?new = Some (t + oe_lease env)"
    using f(3) by (simp_all add: claimed_row_def)
  have "ensureStableDispatchBatches env ?new t (set_row ?new db')
      = (Inr (dc_facilityId d, dc_batches d), set_row ?new db')"
    using ensure_covered [OF f(2) guard_content [OF accepted(1)] y(1), of "set_row ?new db'"] y(2) now
    by (simp add: set_row_def)
  moreover have "update_outbox (\<lambda>s. ob_id s = ob_id r \<and> ob_status s = ob_status r \<and> ob_attempts s = ob_attempts r)
      (\<lambda>s. claimed_row env s t) db' = (Inr (Some ?new), set_row ?new db')"
    by (rule update_accepted) (simp_all add: assms(3) invariant_rows(1) [OF assms(1)] accepted now)
  ultimately have "start_claim env r t db' = (Inr (Claimed \<lparr>dc_outboxId = ob_id r, dc_facilityId = dc_facilityId d,
       dc_attempt = ob_attempts r, dc_lockedUntil = t + oe_lease env, dc_record = y, dc_batches = dc_batches d\<rparr>),
       set_row ?new db')"
    using y(1) new by (simp add: start_claim_def bindC_def liftR_def retC_def)
  with y show thesis by (rule that)
qed

text \<open>
  C14: Once the lease of an outbox in processing has run out, the next
  dispatcher that tries (and finds the row free) is handed a claim of it, under the same attempt
  number and with the same batches as every claim before, so a crash neither loses the
  message nor consumes an attempt.
\<close>

theorem expired_lease_taken_over:
  assumes "outbox_run env db G A" and "sound_env env" and "r \<in> set (db_outbox db)"
    and "ob_status r = Outbox_processing" and "ob_lockedUntil r = Some t" and "t \<le> oe_clock env (db_reads db)"
  shows "\<exists>c db'. dispatch_begin env False (ob_id r) db = (Inr (To_send c), db') \<and> dc_outboxId c = ob_id r
    \<and> dc_attempt c = ob_attempts r \<and> t < dc_lockedUntil c
    \<and> {d \<in> G. dc_outboxId d = ob_id r} \<noteq> {}
    \<and> dc_batches ` {d \<in> G. dc_outboxId d = ob_id r} = {dc_batches c}"
proof -
  let ?now = "oe_clock env (db_reads db)" and ?then = "oe_clock env (Suc (db_reads db))"
  let ?twice = "db\<lparr>db_reads := Suc (Suc (db_reads db))\<rparr>" and ?new = "claimed_row env r (oe_clock env (Suc (db_reads db)))"
  have inv: "outbox_invariant env db G A" by (rule run_invariant [OF assms(1,2)])
  have ok: "row_ok env db G A r" by (rule invariant_rows(4) [OF inv assms(3)])
  then obtain d where d: "d \<in> G" "claimFence d r" and r: "lower_case (ob_id r) = ob_id r" "1 \<le> ob_attempts r"
    using assms(4) by (auto simp: row_ok_def)
  note f = fence_row [OF inv d(1) assms(3) d(2)]
  have claim: "claimable ?now r" using assms(4-6) by (simp add: claimable_def)
  have clock: "?now \<le> ?then" by (rule later [OF assms(2)]) simp
  have available: "ob_availableAt r \<le> ?then" using ok assms(4) clock by (simp add: row_ok_def)
  obtain y where y: "outboxRecordFromRow ?new = Inr y"
    "DispatchOutboxResultSchema \<lparr>dr_facilityId = dc_facilityId d, dr_record = y, dr_batches = dc_batches d\<rparr>"
    and start: "start_claim env r ?then ?twice = (Inr (Claimed \<lparr>dc_outboxId = ob_id r, dc_facilityId = dc_facilityId d,
       dc_attempt = ob_attempts r, dc_lockedUntil = ?then + oe_lease env, dc_record = y, dc_batches = dc_batches d\<rparr>),
       set_row ?new ?twice)"
    by (rule retaken_start [OF inv assms(2,3) d claim clock available, of ?twice]) simp_all
  define c where "c = \<lparr>dc_outboxId = ob_id r, dc_facilityId = dc_facilityId d, dc_attempt = ob_attempts r,
      dc_lockedUntil = ?then + oe_lease env, dc_record = y, dc_batches = dc_batches d\<rparr>"
  have "find (\<lambda>s. ob_id s = ob_id r \<and> claimable ?now s \<and> \<not> False) (db_outbox db) = Some r"
    by (rule find_row) (simp_all add: claim assms(3) invariant_rows(1) [OF inv])
  then have claimed: "claimOutbox env False (ob_id r) db = (Inr (Claimed c), set_row ?new ?twice)"
    using start assms(4) r(1) parsed_schema(8) [of d] f(1,2)
    by (simp add: claimOutbox_def claim_body_def outbox_transaction_def bindC_def readDatabaseTime_def claim_backed_def c_def)
  have parsed: "parseDispatchClaim c = Inr c"
    by (rule claim_parses [OF y(1) _ _ y(2)]) (use assms(4) r(2) in \<open>simp_all add: claimed_row_def c_def\<close>)
  have "dispatch_begin env False (ob_id r) db = (Inr (To_send c), set_row ?new ?twice)"
    using claimed parsed parsed_schema(8) [of d] f(1,2)
    by (simp add: dispatch_begin_def bindC_def liftR_def retC_def claim_backed_def)
  moreover have "t < dc_lockedUntil c" using assms(2,6) clock by (simp add: c_def sound_env_def)
  moreover have own: "d \<in> {d \<in> G. dc_outboxId d = ob_id r}" using d(1) f(1) by simp
  moreover have "dc_batches e = dc_batches c" if "e \<in> {d \<in> G. dc_outboxId d = ob_id r}" for e
    using claims_one_plan [OF inv d(1), of e] that f(1) by (simp add: c_def)
  then have "dc_batches ` {d \<in> G. dc_outboxId d = ob_id r} = {dc_batches c}"
    using own by (auto intro!: image_eqI [of _ _ d])
  moreover have "dc_outboxId c = ob_id r" "dc_attempt c = ob_attempts r" by (simp_all add: c_def)
  ultimately show ?thesis by blast
qed

end
