(* ===== verification/Outbox_Sqs.thy ===== *)
theory Outbox_Sqs
  imports Outbox_Dispatch
begin

text \<open>
  The production queue of the dispatcher (\<open>dispatcher.ts\<close>): the validated destination, temporary
  credentials from the environment or from the container role, kept until shortly before they
  expire, the SigV4 request of one batch, the bounded reading of an answer, and the hand-over. The
  URL parser, dates, digests, text decoding and the network are arguments.
\<close>

section \<open>What the adapter is given\<close>

text \<open>A \<open>Date\<close> is its time value, none when it is invalid.\<close>

type_synonym js_date = "timestamp option"

record parsed_url =
  u_protocol :: string
  u_hostname :: string
  u_host :: string
  u_port :: string
  u_username :: string
  u_password :: string
  u_search :: string
  u_hash :: string
  u_pathname :: string
  u_origin :: string
  u_href :: string

record temporary_credentials =
  tc_accessKeyId :: string
  tc_secretAccessKey :: string
  tc_sessionToken :: string
  tc_expiration :: "js_date option"

record sqs_configuration =
  sc_queueUrl :: string
  sc_region :: string
  sc_timeout :: js_number

record http_request =
  hq_method :: string
  hq_endpoint :: string
  hq_headers :: "(string \<times> string) list"
  hq_body :: string

text \<open>The chunks that the reader of a body yields, and what follows them.\<close>

datatype read_finish = Read_done | Read_aborted | Read_failed

record http_response =
  hr_status :: int
  hr_contentLength :: "string option"
  hr_body :: "(string list \<times> read_finish) option"

definition response_ok :: "http_response \<Rightarrow> bool" where
  "response_ok r = (200 \<le> hr_status r \<and> hr_status r \<le> 299)"

record 'h sqs_env =
  se_environment :: "string \<Rightarrow> string option"
  se_url :: "string \<Rightarrow> parsed_url option"
  se_relativeUrl :: "string \<Rightarrow> string \<Rightarrow> parsed_url option"
  se_date :: "string \<Rightarrow> js_date"
  se_iso :: "timestamp \<Rightarrow> string"
  se_utf8 :: "string \<Rightarrow> string option"
  se_json :: "string \<Rightarrow> js_value option"
  se_batch :: "js_value \<Rightarrow> dispatch_batch option"
  se_batchText :: "dispatch_batch \<Rightarrow> string"
  se_jsonText :: "js_value \<Rightarrow> string"
  se_sha256Hex :: "string \<Rightarrow> string"
  se_hmac :: "string \<Rightarrow> string \<Rightarrow> string"
  se_hex :: "string \<Rightarrow> string"
  se_clock :: "nat \<Rightarrow> js_date"
  se_fetch :: "http_request \<Rightarrow> 'h \<Rightarrow> http_response option \<times> 'h"

text \<open>The readings of the clock so far, the kept credentials, and what lies outside.\<close>

record 'h sqs_state =
  ss_reads :: nat
  ss_cached :: "temporary_credentials option"
  ss_net :: 'h

definition MAX_CONTAINER_CREDENTIAL_RESPONSE_BYTES :: nat where "MAX_CONTAINER_CREDENTIAL_RESPONSE_BYTES = 32 * 1024"
definition MAX_SQS_RESPONSE_BYTES :: nat where "MAX_SQS_RESPONSE_BYTES = 64 * 1024"
definition MAX_SQS_BATCH_PAYLOAD_BYTES :: nat where "MAX_SQS_BATCH_PAYLOAD_BYTES = 1048576"
definition CREDENTIAL_REFRESH_SKEW_MILLISECONDS :: int where "CREDENTIAL_REFRESH_SKEW_MILLISECONDS = 5 * 60 * 1000"

definition config_invalid :: dispatch_thrown where
  "config_invalid = Dispatcher_error OUTBOX_CONFIGURATION_INVALID False"

definition credentials_unavailable :: "bool \<Rightarrow> dispatch_thrown" where
  "credentials_unavailable retryable = Publish_error SQS_CREDENTIALS_UNAVAILABLE retryable Not_sent"

section \<open>The destination\<close>

text \<open>The parts between the occurrences of a separator.\<close>

fun split_at_char :: "char \<Rightarrow> string \<Rightarrow> string list" where
  "split_at_char c [] = [[]]"
| "split_at_char c (x # xs) =
     (if x = c then [] # split_at_char c xs
      else case split_at_char c xs of [] \<Rightarrow> [[x]] | p # ps \<Rightarrow> (x # p) # ps)"

definition region_ok :: "string \<Rightarrow> bool" where
  "region_ok region =
     (length region \<le> 32
      \<and> (let ps = split_at_char CHR ''-'' region
         in 3 \<le> length ps
            \<and> list_all (\<lambda>p. p \<noteq> [] \<and> list_all (\<lambda>c. ascii_lower c \<or> ascii_digit c) p) ps
            \<and> list_all ascii_digit (last ps)))"

definition queue_name_char :: "char \<Rightarrow> bool" where
  "queue_name_char c = (ascii_lower c \<or> ascii_upper c \<or> ascii_digit c \<or> c = CHR ''_'' \<or> c = CHR ''-'')"

text \<open>\<open>/^\/\d{12}\/[A-Za-z0-9_-]{1,80}\/?$/\<close>; a FIFO queue has a name that ends in \<open>.fifo\<close>.\<close>

definition queue_path_ok :: "string \<Rightarrow> bool" where
  "queue_path_ok path =
     (case split_at_char CHR ''/'' path of
        [] # account # name # rest \<Rightarrow>
          length account = 12 \<and> list_all ascii_digit account
          \<and> 1 \<le> length name \<and> length name \<le> 80 \<and> list_all queue_name_char name \<and> rest \<in> {[], [[]]}
      | _ \<Rightarrow> False)"

definition sqs_host :: "string \<Rightarrow> string" where
  "sqs_host region =
     ''sqs.'' @ region @ ''.'' @ (if take 3 region = ''cn-'' then ''amazonaws.com.cn'' else ''amazonaws.com'')"

definition validatedSqsQueueUrl :: "'h sqs_env \<Rightarrow> string \<Rightarrow> string \<Rightarrow> (dispatch_thrown, string) result" where
  "validatedSqsQueueUrl env queueUrlValue region =
     (case se_url env queueUrlValue of
        None \<Rightarrow> Inl config_invalid
      | Some u \<Rightarrow>
          if u_protocol u \<noteq> ''https:'' \<or> u_hostname u \<noteq> sqs_host region
             \<or> u_port u \<noteq> [] \<or> u_username u \<noteq> [] \<or> u_password u \<noteq> [] \<or> u_search u \<noteq> [] \<or> u_hash u \<noteq> []
             \<or> \<not> queue_path_ok (u_pathname u)
          then Inl config_invalid else Inr (u_href u))"

definition parseSqsDispatchBatchQueueConfiguration ::
  "'h sqs_env \<Rightarrow> sqs_configuration \<Rightarrow> (dispatch_thrown, sqs_configuration) result" where
  "parseSqsDispatchBatchQueueConfiguration env v =
     (if \<not> region_ok (sc_region v) then Inl config_invalid
      else bindR (assertPositiveBoundedInteger (sc_timeout v) 30000) (\<lambda>timeout.
           bindR (validatedSqsQueueUrl env (sc_queueUrl v) (sc_region v)) (\<lambda>queueUrl.
           Inr \<lparr>sc_queueUrl = queueUrl, sc_region = sc_region v, sc_timeout = Finite (of_int timeout)\<rparr>)))"

text \<open>Characters of a header or variable that must not occur.\<close>

definition breaks_line :: "char \<Rightarrow> bool" where
  "breaks_line c = (of_char c \<in> {0::nat, 10, 13})"

definition requiredDispatcherEnvironmentValue ::
  "(string \<Rightarrow> string option) \<Rightarrow> string \<Rightarrow> nat \<Rightarrow> (dispatch_thrown, string) result" where
  "requiredDispatcherEnvironmentValue environment name maximumLength =
     (case environment name of
        None \<Rightarrow> Inl config_invalid
      | Some v \<Rightarrow> if length v = 0 \<or> length v > maximumLength \<or> list_ex breaks_line v
                  then Inl config_invalid else Inr v)"

text \<open>\<open>number_of\<close> is \<open>Number\<close> on a string.\<close>

definition readSqsDispatchBatchQueueConfiguration ::
  "(string \<Rightarrow> js_number) \<Rightarrow> 'h sqs_env \<Rightarrow> (dispatch_thrown, sqs_configuration) result" where
  "readSqsDispatchBatchQueueConfiguration number_of env =
     bindR (requiredDispatcherEnvironmentValue (se_environment env) ''AWS_REGION'' 32) (\<lambda>region.
     bindR (requiredDispatcherEnvironmentValue (se_environment env) ''DELIVERY_QUEUE_URL'' 2048) (\<lambda>queueUrl.
     let timeoutRaw = (case se_environment env ''OUTBOX_SQS_HTTP_TIMEOUT_MS'' of None \<Rightarrow> ''10000'' | Some s \<Rightarrow> s)
     in parseSqsDispatchBatchQueueConfiguration env
          \<lparr>sc_queueUrl = queueUrl, sc_region = region, sc_timeout = number_of timeoutRaw\<rparr>))"

section \<open>Temporary credentials\<close>

definition visible_ascii :: "char \<Rightarrow> bool" where
  "visible_ascii c = (0x21 \<le> (of_char c :: nat) \<and> (of_char c :: nat) \<le> 0x7e)"

text \<open>An expiry that is not after the given time, or not a time at all.\<close>

fun expired_by :: "timestamp \<Rightarrow> js_date option \<Rightarrow> bool" where
  "expired_by now None = False"
| "expired_by now (Some None) = True"
| "expired_by now (Some (Some t)) = (t \<le> now)"

definition validatedTemporaryCredentials ::
  "temporary_credentials \<Rightarrow> js_date \<Rightarrow> (dispatch_thrown, temporary_credentials) result" where
  "validatedTemporaryCredentials v now =
     (if length (tc_accessKeyId v) < 16 \<or> length (tc_accessKeyId v) > 128
         \<or> \<not> list_all (\<lambda>c. ascii_upper c \<or> ascii_digit c) (tc_accessKeyId v)
         \<or> length (tc_secretAccessKey v) < 16 \<or> length (tc_secretAccessKey v) > 256
         \<or> \<not> list_all visible_ascii (tc_secretAccessKey v)
         \<or> length (tc_sessionToken v) < 16 \<or> length (tc_sessionToken v) > 16384
         \<or> \<not> list_all visible_ascii (tc_sessionToken v)
         \<or> (case now of None \<Rightarrow> True | Some t \<Rightarrow> expired_by t (tc_expiration v))
      then Inl (credentials_unavailable True) else Inr v)"

definition environmentTemporaryCredentials ::
  "'h sqs_env \<Rightarrow> js_date \<Rightarrow> (dispatch_thrown, temporary_credentials option) result" where
  "environmentTemporaryCredentials env now =
     (case (se_environment env ''AWS_ACCESS_KEY_ID'', se_environment env ''AWS_SECRET_ACCESS_KEY'',
            se_environment env ''AWS_SESSION_TOKEN'') of
        (None, None, None) \<Rightarrow> Inr None
      | (Some accessKeyId, Some secretAccessKey, Some sessionToken) \<Rightarrow>
          bindR (validatedTemporaryCredentials
            \<lparr>tc_accessKeyId = accessKeyId, tc_secretAccessKey = secretAccessKey, tc_sessionToken = sessionToken,
             tc_expiration = map_option (se_date env) (se_environment env ''AWS_CREDENTIAL_EXPIRATION'')\<rparr> now)
            (\<lambda>c. Inr (Some c))
      | _ \<Rightarrow> Inl (credentials_unavailable False))"

definition bare_url :: "parsed_url \<Rightarrow> bool" where
  "bare_url u = (u_username u = [] \<and> u_password u = [] \<and> u_hash u = [])"

definition role_endpoint :: "'h sqs_env \<Rightarrow> (dispatch_thrown, parsed_url) result" where
  "role_endpoint env =
     (case se_environment env ''AWS_CONTAINER_CREDENTIALS_RELATIVE_URI'' of
        Some relative \<Rightarrow>
          if length relative < 2 \<or> length relative > 2048 \<or> take 1 relative \<noteq> ''/'' \<or> take 2 relative = ''//''
             \<or> list_ex breaks_line relative
          then Inl (credentials_unavailable False)
          else (case se_relativeUrl env relative ''http://169.254.170.2'' of
                  None \<Rightarrow> Inl Unexpected_error
                | Some u \<Rightarrow>
                    if u_protocol u \<noteq> ''http:'' \<or> u_hostname u \<noteq> ''169.254.170.2'' \<or> \<not> bare_url u
                    then Inl (credentials_unavailable False) else Inr u)
      | None \<Rightarrow>
          (case se_environment env ''AWS_CONTAINER_CREDENTIALS_FULL_URI'' of
             None \<Rightarrow> Inl (credentials_unavailable True)
           | Some full \<Rightarrow>
               (case se_url env full of
                  None \<Rightarrow> Inl (credentials_unavailable False)
                | Some u \<Rightarrow>
                    if u_protocol u \<noteq> ''https:''
                         \<and> \<not> (u_protocol u = ''http:''
                              \<and> u_hostname u \<in> {''169.254.170.2'', ''127.0.0.1'', ''[::1]'', ''localhost''})
                       \<or> \<not> bare_url u
                    then Inl (credentials_unavailable False) else Inr u)))"

definition validCredentialEndpoint :: "'h sqs_env \<Rightarrow> (dispatch_thrown, string \<times> string option) result" where
  "validCredentialEndpoint env =
     bindR (role_endpoint env) (\<lambda>endpoint.
       let authorization = se_environment env ''AWS_CONTAINER_AUTHORIZATION_TOKEN''
       in if (case authorization of None \<Rightarrow> False
              | Some a \<Rightarrow> length a = 0 \<or> length a > 4096 \<or> list_ex breaks_line a)
          then Inl (credentials_unavailable False) else Inr (u_href endpoint, authorization))"

definition credentialsFromContainerResponse ::
  "'h sqs_env \<Rightarrow> js_value \<Rightarrow> js_date \<Rightarrow> (dispatch_thrown, temporary_credentials) result" where
  "credentialsFromContainerResponse env v now =
     (case unknownRecord v of
        None \<Rightarrow> Inl (credentials_unavailable True)
      | Some fs \<Rightarrow>
          if js_field fs ''Code'' \<noteq> JUndefined \<and> js_field fs ''Code'' \<noteq> JStr ''Success''
          then Inl (credentials_unavailable True)
          else (case (js_field fs ''AccessKeyId'', js_field fs ''SecretAccessKey'', js_field fs ''Token'',
                      js_field fs ''Expiration'') of
                  (JStr accessKeyId, JStr secretAccessKey, JStr sessionToken, JStr expirationRaw) \<Rightarrow>
                    validatedTemporaryCredentials
                      \<lparr>tc_accessKeyId = accessKeyId, tc_secretAccessKey = secretAccessKey,
                       tc_sessionToken = sessionToken, tc_expiration = Some (se_date env expirationRaw)\<rparr> now
                | _ \<Rightarrow> Inl (credentials_unavailable True)))"

section \<open>One signed request\<close>

text \<open>\<open>toISOString\<close> without its dashes, colons and milliseconds, and the day alone.\<close>

definition awsDateParts :: "'h sqs_env \<Rightarrow> js_date \<Rightarrow> (dispatch_thrown, string \<times> string) result" where
  "awsDateParts env now =
     (case now of
        None \<Rightarrow> Inl config_invalid
      | Some t \<Rightarrow>
          let s = filter (\<lambda>c. c \<noteq> CHR ''-'' \<and> c \<noteq> CHR '':'') (se_iso env t);
              ending = drop (length s - 5) s;
              amzDate = (if length s \<ge> 5 \<and> take 1 ending = ''.'' \<and> list_all ascii_digit (take 3 (drop 1 ending))
                            \<and> drop 4 ending = ''Z''
                         then take (length s - 5) s @ ''Z'' else s)
          in Inr (amzDate, take 8 amzDate))"

definition signable_entry :: "'h sqs_env \<Rightarrow> queue_entry \<Rightarrow> bool" where
  "signable_entry env e =
     (1 \<le> length (qe_id e) \<and> length (qe_id e) \<le> 80 \<and> list_all queue_name_char (qe_id e)
      \<and> uuid_ok (qe_batchId e) \<and> length (qe_body e) \<noteq> 0
      \<and> (case se_json env (qe_body e) of
           None \<Rightarrow> False
         | Some v \<Rightarrow> (case se_batch env v of None \<Rightarrow> False | Some b \<Rightarrow> b_id b = qe_batchId e)))"

definition entry_rejected :: dispatch_thrown where
  "entry_rejected = Publish_error SQS_BATCH_ENTRY_REJECTED False Not_sent"

definition NEWLINE :: string where
  "NEWLINE = [CHR 0x0A]"

fun join_lines :: "string list \<Rightarrow> string" where
  "join_lines [] = []"
| "join_lines [s] = s"
| "join_lines (s # t # ts) = s @ NEWLINE @ join_lines (t # ts)"

definition signing_key :: "'h sqs_env \<Rightarrow> string \<Rightarrow> string \<Rightarrow> string \<Rightarrow> string" where
  "signing_key env secretAccessKey dateStamp region =
     (let dateKey = se_hmac env (''AWS4'' @ secretAccessKey) dateStamp;
          regionKey = se_hmac env dateKey region;
          serviceKey = se_hmac env regionKey ''sqs''
      in se_hmac env serviceKey ''aws4_request'')"

definition signed_request ::
  "'h sqs_env \<Rightarrow> parsed_url \<Rightarrow> string \<Rightarrow> temporary_credentials \<Rightarrow> string \<times> string \<Rightarrow> string \<Rightarrow> http_request" where
  "signed_request env queueUrl region credentials dates content =
     (let amzDate = fst dates; dateStamp = snd dates;
          contentType = ''application/x-amz-json-1.0''; target = ''AmazonSQS.SendMessageBatch'';
          canonicalHeaders =
            ''content-type:'' @ contentType @ NEWLINE @ ''host:'' @ u_host queueUrl @ NEWLINE
            @ ''x-amz-date:'' @ amzDate @ NEWLINE
            @ ''x-amz-security-token:'' @ tc_sessionToken credentials @ NEWLINE
            @ ''x-amz-target:'' @ target @ NEWLINE;
          signedHeaders = ''content-type;host;x-amz-date;x-amz-security-token;x-amz-target'';
          canonicalRequest = join_lines [''POST'', ''/'', [], canonicalHeaders, signedHeaders, se_sha256Hex env content];
          credentialScope = dateStamp @ ''/'' @ region @ ''/sqs/aws4_request'';
          stringToSign = join_lines [''AWS4-HMAC-SHA256'', amzDate, credentialScope, se_sha256Hex env canonicalRequest];
          signature = se_hex env (se_hmac env (signing_key env (tc_secretAccessKey credentials) dateStamp region) stringToSign);
          authorization =
            ''AWS4-HMAC-SHA256 Credential='' @ tc_accessKeyId credentials @ ''/'' @ credentialScope
            @ '', SignedHeaders='' @ signedHeaders @ '', Signature='' @ signature
      in \<lparr>hq_method = ''POST'', hq_endpoint = u_origin queueUrl @ ''/'',
          hq_headers = [(''authorization'', authorization), (''content-type'', contentType), (''x-amz-date'', amzDate),
            (''x-amz-security-token'', tc_sessionToken credentials), (''x-amz-target'', target)],
          hq_body = content\<rparr>)"

definition signSqsSendMessageBatchRequest ::
  "'h sqs_env \<Rightarrow> sqs_configuration \<Rightarrow> queue_entry list \<Rightarrow> temporary_credentials \<Rightarrow> js_date
     \<Rightarrow> (dispatch_thrown, http_request) result" where
  "signSqsSendMessageBatchRequest env configurationValue entries credentialsValue now =
     bindR (parseSqsDispatchBatchQueueConfiguration env configurationValue) (\<lambda>configuration.
     bindR (validatedTemporaryCredentials credentialsValue now) (\<lambda>credentials.
     if \<not> list_all (signable_entry env) entries \<or> length entries < 1 \<or> length entries > 10
        \<or> sum_list (map (\<lambda>e. length (qe_body e)) entries) > MAX_SQS_BATCH_PAYLOAD_BYTES
     then Inl entry_rejected
     else let content = se_jsonText env (JObj [(''QueueUrl'', JStr (sc_queueUrl configuration)),
                (''Entries'', JArr (map (\<lambda>e. JObj [(''Id'', JStr (qe_id e)), (''MessageBody'', JStr (qe_body e))]) entries))])
          in case se_url env (sc_queueUrl configuration) of
               None \<Rightarrow> Inl Unexpected_error
             | Some queueUrl \<Rightarrow>
                 bindR (awsDateParts env now) (\<lambda>dates.
                 Inr (signed_request env queueUrl (sc_region configuration) credentials dates content))))"

section \<open>Reading an answer\<close>

text \<open>The loop over the chunks: what was read, or the failure of the caller at the first chunk too many.\<close>

fun read_chunks :: "nat \<Rightarrow> dispatch_thrown \<Rightarrow> string \<Rightarrow> string list \<Rightarrow> (dispatch_thrown, string) result" where
  "read_chunks maximumBytes failure bytes [] = Inr bytes"
| "read_chunks maximumBytes failure bytes (c # cs) =
     (if length bytes + length c > maximumBytes then Inl failure
      else read_chunks maximumBytes failure (bytes @ c) cs)"

definition readBoundedJson ::
  "'h sqs_env \<Rightarrow> http_response \<Rightarrow> nat \<Rightarrow> dispatch_thrown \<Rightarrow> (dispatch_thrown, js_value) result" where
  "readBoundedJson env response maximumBytes failure =
     (if (case hr_contentLength response of None \<Rightarrow> False
          | Some l \<Rightarrow> l = [] \<or> \<not> list_all ascii_digit l \<or> undecimal l > maximumBytes)
      then Inl failure
      else case hr_body response of
             None \<Rightarrow> Inl failure
           | Some (chunks, finish) \<Rightarrow>
               bindR (read_chunks maximumBytes failure [] chunks) (\<lambda>bytes.
                 case finish of
                   Read_aborted \<Rightarrow> Inl failure
                 | Read_failed \<Rightarrow> Inl Unexpected_error
                 | Read_done \<Rightarrow>
                     (case se_utf8 env bytes of
                        None \<Rightarrow> Inl failure
                      | Some s \<Rightarrow> (case se_json env s of None \<Rightarrow> Inl failure | Some v \<Rightarrow> Inr v))))"

text \<open>Any error but a queue error becomes the failure of the network.\<close>

fun network_error :: "dispatch_thrown \<Rightarrow> dispatch_thrown \<Rightarrow> dispatch_thrown" where
  "network_error networkFailure (Publish_error c r q) = Publish_error c r q"
| "network_error networkFailure e = networkFailure"

definition fetchWithDispatcherTimeout ::
  "'h sqs_env \<Rightarrow> http_request \<Rightarrow> dispatch_thrown \<Rightarrow> (http_response \<Rightarrow> ('h sqs_state, dispatch_thrown, 'a) comp)
     \<Rightarrow> ('h sqs_state, dispatch_thrown, 'a) comp" where
  "fetchWithDispatcherTimeout env request networkFailure consume s =
     (case se_fetch env request (ss_net s) of
        (None, net) \<Rightarrow> (Inl networkFailure, s\<lparr>ss_net := net\<rparr>)
      | (Some response, net) \<Rightarrow>
          catchC (consume response) (\<lambda>e. throwC (network_error networkFailure e)) (s\<lparr>ss_net := net\<rparr>))"

section \<open>The credential provider\<close>

definition sqs_now :: "'h sqs_env \<Rightarrow> ('h sqs_state, dispatch_thrown, js_date) comp" where
  "sqs_now env s = (Inr (se_clock env (ss_reads s)), s\<lparr>ss_reads := Suc (ss_reads s)\<rparr>)"

definition loadCredentials :: "'h sqs_env \<Rightarrow> ('h sqs_state, dispatch_thrown, temporary_credentials) comp" where
  "loadCredentials env =
     bindC (sqs_now env) (\<lambda>currentTime.
     bindC (liftR (environmentTemporaryCredentials env currentTime)) (\<lambda>configured.
       case configured of
         Some c \<Rightarrow> retC c
       | None \<Rightarrow>
           bindC (liftR (validCredentialEndpoint env)) (\<lambda>(endpoint, authorization).
             fetchWithDispatcherTimeout env
               \<lparr>hq_method = ''GET'', hq_endpoint = endpoint,
                hq_headers = (''Accept'', ''application/json'')
                  # (case authorization of None \<Rightarrow> [] | Some a \<Rightarrow> [(''Authorization'', a)]), hq_body = []\<rparr>
               (credentials_unavailable True)
               (\<lambda>response.
                  if \<not> response_ok response
                  then throwC (credentials_unavailable (500 \<le> hr_status response \<or> hr_status response = 429))
                  else bindC (liftR (readBoundedJson env response MAX_CONTAINER_CREDENTIAL_RESPONSE_BYTES
                               (credentials_unavailable True))) (\<lambda>parsed.
                       bindC (sqs_now env) (\<lambda>now. liftR (credentialsFromContainerResponse env parsed now)))))))"

text \<open>Whether kept credentials outlive the refresh margin.\<close>

definition still_fresh :: "js_date \<Rightarrow> temporary_credentials \<Rightarrow> bool" where
  "still_fresh now c =
     (case tc_expiration c of
        None \<Rightarrow> True
      | Some e \<Rightarrow> (case (e, now) of (Some t, Some n) \<Rightarrow> t - CREDENTIAL_REFRESH_SKEW_MILLISECONDS > n | _ \<Rightarrow> False))"

definition getCredentials :: "'h sqs_env \<Rightarrow> ('h sqs_state, dispatch_thrown, temporary_credentials) comp" where
  "getCredentials env =
     bindC (sqs_now env) (\<lambda>now s.
       case ss_cached s of
         Some c \<Rightarrow>
           if still_fresh now c then (Inr c, s)
           else bindC (loadCredentials env) (\<lambda>loaded s. (Inr loaded, s\<lparr>ss_cached := Some loaded\<rparr>)) s
       | None \<Rightarrow> bindC (loadCredentials env) (\<lambda>loaded s. (Inr loaded, s\<lparr>ss_cached := Some loaded\<rparr>)) s)"

definition invalidate :: "('h sqs_state, dispatch_thrown, unit) comp" where
  "invalidate s = (Inr (), s\<lparr>ss_cached := None\<rparr>)"

section \<open>The hand-over\<close>

definition consume_answer ::
  "'h sqs_env \<Rightarrow> queue_entry list \<Rightarrow> http_response \<Rightarrow> ('h sqs_state, dispatch_thrown, queue_acknowledgement list) comp" where
  "consume_answer env entries response =
     (case readBoundedJson env response MAX_SQS_RESPONSE_BYTES (Publish_error SQS_RESPONSE_INVALID True Unknown_outcome) of
        Inl e \<Rightarrow> if response_ok response then throwC e else throwC (sqsHttpFailure (hr_status response) JNull)
      | Inr parsed \<Rightarrow>
          if \<not> response_ok response then throwC (sqsHttpFailure (hr_status response) parsed)
          else liftR (parseSqsSendMessageBatchResponse parsed entries))"

definition sqs_send ::
  "'h sqs_env \<Rightarrow> sqs_configuration \<Rightarrow> dispatch_batch list \<Rightarrow> ('h sqs_state, dispatch_thrown, queue_acknowledgement list) comp" where
  "sqs_send env configuration batches =
     bindC (liftR (serializeDispatchQueueEntries (se_batchText env) batches)) (\<lambda>entries.
     bindC (catchC (getCredentials env) (\<lambda>e. throwC (network_error (credentials_unavailable True) e))) (\<lambda>credentials.
     bindC (sqs_now env) (\<lambda>now.
     bindC (liftR (signSqsSendMessageBatchRequest env configuration entries credentials now)) (\<lambda>request.
       catchC (fetchWithDispatcherTimeout env request (Publish_error SQS_REQUEST_FAILED True Unknown_outcome)
                 (consume_answer env entries))
         (\<lambda>e. bindC (case e of Publish_error SQS_AUTHENTICATION_FAILED _ _ \<Rightarrow> invalidate | _ \<Rightarrow> retC ())
                 (\<lambda>_. throwC e))))))"

text \<open>
  The adapter as the queue of a dispatcher whose world also holds the tables: while the request is
  on its way, the tables move as \<open>meanwhile\<close> has it.
\<close>

definition sqs_queue ::
  "'h sqs_env \<Rightarrow> sqs_configuration \<Rightarrow> (outbox_db \<Rightarrow> outbox_db) \<Rightarrow> ('h sqs_state) batch_queue" where
  "sqs_queue env configuration meanwhile batches w =
     (case sqs_send env configuration batches (dw_queue w) of
        (answer, s) \<Rightarrow> (answer, w\<lparr>dw_queue := s, dw_db := meanwhile (dw_db w)\<rparr>))"

definition createSqsDispatchBatchQueue ::
  "'h sqs_env \<Rightarrow> sqs_configuration \<Rightarrow> (outbox_db \<Rightarrow> outbox_db) \<Rightarrow> (dispatch_thrown, ('h sqs_state) batch_queue) result" where
  "createSqsDispatchBatchQueue env configurationValue meanwhile =
     bindR (parseSqsDispatchBatchQueueConfiguration env configurationValue) (\<lambda>configuration.
     Inr (sqs_queue env configuration meanwhile))"

end
