(* ===== verification/Outbox_Service.thy ===== *)
theory Outbox_Service
  imports Outbox_Progress Outbox_Sqs
begin

text \<open>
  What the callers of the dispatcher rely on: the contract of a queue as a locale, every dispatch, poll
  and fast path proved to be a run inside it, and the SQS adapter as its interpretation.
\<close>

section \<open>Results are those of published rows\<close>

definition published_result :: "outbox_env \<Rightarrow> acknowledged set \<Rightarrow> dispatch_result \<Rightarrow> bool" where
  "published_result env A z =
     (or_status (dr_record z) = Outbox_published
      \<and> (\<exists>(c, acks) \<in> A. dc_outboxId c = or_id (dr_record z) \<and> dc_batches c = dr_batches z
           \<and> assertCompleteQueueAcknowledgement (oe_text env) (dr_batches z) acks = Inr ()))"

lemma result_fields:
  assumes "claim_backed db c r" and "dispatchResultFromRow r db = Inr z"
  shows "dr_batches z = dc_batches c" "or_status (dr_record z) = ob_status r" "or_id (dr_record z) = dc_outboxId c"
proof -
  have "resolveOutboxMessage r db = Inr (dc_facilityId c, ob_message r)"
    "loadDispatchBatches r (dc_facilityId c, ob_message r) db = Inr (dc_batches c)" "ob_id r = dc_outboxId c"
    using assms(1) by (simp_all add: claim_backed_def)
  moreover obtain y where y: "outboxRecordFromRow r = Inr y"
    using assms(2) by (auto simp: dispatchResultFromRow_def bindR_Inr_iff)
  ultimately show "dr_batches z = dc_batches c" "or_status (dr_record z) = ob_status r" "or_id (dr_record z) = dc_outboxId c"
    using assms(2) record_fields [OF y] by (simp_all add: dispatchResultFromRow_def Let_def split: if_split_asm, auto)
qed

lemma finish_result:
  assumes "outbox_run env db G A" and "sound_env env" and "c \<in> G"
    and "dispatch_finish env c (Inr acks) db = (Inr z, db')"
  shows "published_result env (insert (c, acks) A) z"
proof -
  have inv: "outbox_invariant env db G A" by (rule run_invariant [OF assms(1,2)])
  from assms(4) show ?thesis
  proof (cases rule: finish_cases)
    case (published row new z')
    note f = fence_row [OF inv assms(3) published(2,3)]
    have "claim_backed db' c new" using backed_after [OF f(2) published(5)] published(7) by simp
    then have "dr_batches z = dc_batches c" "or_status (dr_record z) = Outbox_published" "or_id (dr_record z) = dc_outboxId c"
      using result_fields [of db' c new z] published(4,8,9) by simp_all
    then show ?thesis using published(1) by (auto simp: published_result_def handed_over_def)
  qed blast+
qed

lemma published_before_row:
  assumes "claimOutbox env locked i db = (Inr (Published_before z), db')"
  shows "\<exists>r \<in> set (db_outbox db). ob_status r = Outbox_published \<and> dispatchResultFromRow r db = Inr z"
proof -
  let ?read = "db\<lparr>db_reads := Suc (db_reads db)\<rparr>" and ?i = "lower_case i"
  have ok: "claim_body env locked ?i db = (Inr (Published_before z), db')"
    using assms by (simp add: claimOutbox_def throwC_def outbox_transaction_Inr split: if_split_asm)
  show ?thesis
  proof (cases "find (\<lambda>r. ob_id r = ?i \<and> claimable (oe_clock env (db_reads db)) r \<and> \<not> locked) (db_outbox db)")
    case None
    then have "answer_unclaimed ?i ?read = (Inr (Published_before z), db')"
      using ok by (simp add: claim_body_def bindC_def readDatabaseTime_def)
    then obtain r where r: "find (\<lambda>r. ob_id r = ?i) (db_outbox db) = Some r" "ob_status r = Outbox_published"
      "dispatchResultFromRow r ?read = Inr z"
      by (auto simp: answer_unclaimed_def split: option.splits if_splits sum.splits)
    have "dispatchResultFromRow r ?read = dispatchResultFromRow r db"
      by (simp add: dispatchResultFromRow_def resolveOutboxMessage_def loadDispatchBatches_def)
    then show ?thesis using r find_member by (metis (no_types, lifting))
  next
    case (Some row)
    then show ?thesis
      using ok by (auto simp: claim_body_def bindC_def [of "readDatabaseTime env"] readDatabaseTime_def retC_def
          split: if_split_asm elim!: bindC_InrE elim: start_claim_cases)
  qed
qed

lemma begin_result:
  assumes "outbox_run env db G A" and "sound_env env"
    and "dispatch_begin env locked i db = (Inr (Already_published z), db')"
  shows "published_result env A z"
proof -
  have inv: "outbox_invariant env db G A" by (rule run_invariant [OF assms(1,2)])
  obtain v where "claimOutbox env locked i db = (Inr (Published_before z), v)"
    using assms(3) by (auto simp: dispatch_begin_def retC_def throwC_def liftR_def elim!: bindC_InrE
        split: if_split_asm claim_result.splits)
  then obtain r where r: "r \<in> set (db_outbox db)" "ob_status r = Outbox_published" "dispatchResultFromRow r db = Inr z"
    using published_before_row by blast
  obtain c acks where c: "(c, acks) \<in> A" "dc_outboxId c = ob_id r" "c \<in> G"
    "assertCompleteQueueAcknowledgement (oe_text env) (dc_batches c) acks = Inr ()"
    using invariant_rows(4) [OF inv r(1)] r(2) inv by (fastforce simp: row_ok_def outbox_invariant_def)
  obtain s where s: "s \<in> set (db_outbox db)" "claim_backed db c s" "ob_id s = dc_outboxId c"
    by (rule invariant_claim [OF inv c(3)])
  have "s = r" using s(3) c(2) by (intro row_unique [OF invariant_rows(1) [OF inv] s(1) r(1)]) simp
  then show ?thesis
    using result_fields [OF _ r(3)] s(2) r(2) c by (fastforce simp: published_result_def)
qed

section \<open>The contract of a queue\<close>

text \<open>
  While a queue sends, other dispatchers may move the tables, but only as a run does; and what it
  acknowledges is no business of the tables.
\<close>

definition continues :: "outbox_env \<Rightarrow> dispatch_claim set \<Rightarrow> acknowledged set \<Rightarrow> outbox_db \<Rightarrow> bool" where
  "continues env G A db = (\<exists>G' A'. G \<subseteq> G' \<and> A \<subseteq> A' \<and> outbox_run env db G' A')"

lemma continues_refl: "outbox_run env db G A \<Longrightarrow> continues env G A db"
  unfolding continues_def by blast

locale dispatch_queue =
  fixes env :: outbox_env and send :: "'q batch_queue"
  assumes tables_run: "outbox_run env (dw_db w) G A \<Longrightarrow> continues env G A (dw_db (snd (send batches w)))"
begin

lemma begin_run:
  assumes "outbox_run env db G A" and "dispatch_begin env locked i db = (x, db')"
  shows "outbox_run env db' (case x of Inr (To_send c) \<Rightarrow> insert c G | _ \<Rightarrow> G) A"
proof (cases "\<exists>c. x = Inr (To_send c)")
  case True
  then show ?thesis using outbox_run.begun [OF assms(1)] assms(2) by auto
next
  case False
  then have "outbox_run env db' G A" using outbox_run.not_begun [OF assms] by blast
  then show ?thesis using False by (auto split: sum.split dispatch_start.split)
qed

lemma finish_run:
  assumes "outbox_run env db G A" and "c \<in> G" and "dispatch_finish env c answer db = (x, db')"
  shows "\<exists>A'. A \<subseteq> A' \<and> outbox_run env db' G A'
    \<and> (\<forall>z. x = Inr z \<longrightarrow> (\<exists>acks. answer = Inr acks \<and> (c, acks) \<in> A'))"
proof (cases "handed_over env c answer")
  case (Inl e)
  have "\<forall>z. x \<noteq> Inr z" using assms(3) by (cases rule: finish_cases) (use Inl in auto)
  moreover have "outbox_run env db' G A" by (rule outbox_run.not_acknowledged [OF assms(1,2) Inl assms(3)])
  ultimately show ?thesis by (intro exI [of _ A]) simp
next
  case (Inr u)
  then obtain acks where acks: "answer = Inr acks"
    "assertCompleteQueueAcknowledgement (oe_text env) (dc_batches c) acks = Inr ()"
    by (auto simp: handed_over_def bindR_Inr_iff)
  then have "outbox_run env db' G (insert (c, acks) A)"
    using outbox_run.acknowledged [OF assms(1,2) acks(2)] assms(3) by simp
  then show ?thesis using acks(1) by (intro exI [of _ "insert (c, acks) A"]) auto
qed

text \<open>A dispatch continues the run, and a result that it returns is that of a published row.\<close>

lemma dispatch_sent:
  assumes run: "outbox_run env (dw_db w) G A" and b: "dispatch_begin env locked i (dw_db w) = (Inr (To_send c), db)"
    and dispatch: "dispatchOutbox env send locked i w = (x, w')"
  shows "\<exists>G' A'. G \<subseteq> G' \<and> A \<subseteq> A' \<and> outbox_run env (dw_db w') G' A'
    \<and> (sound_env env \<longrightarrow> (\<forall>z. x = Inr z \<longrightarrow> published_result env A' z))"
proof -
  let ?w = "w\<lparr>dw_db := db\<rparr>"
  have run1: "outbox_run env (dw_db ?w) (insert c G) A" using begin_run [OF run b] by simp
  obtain answer v where v: "send (dc_batches c) ?w = (answer, v)" by (cases "send (dc_batches c) ?w")
  obtain G2 A2 where run2: "insert c G \<subseteq> G2" "A \<subseteq> A2" "outbox_run env (dw_db v) G2 A2"
    using tables_run [OF run1, of "dc_batches c"] v by (auto simp: continues_def)
  obtain y db' where y: "dispatch_finish env c answer (dw_db v) = (y, db')" by (cases "dispatch_finish env c answer (dw_db v)")
  have "dispatchOutbox env send locked i w = (y, v\<lparr>dw_db := db'\<rparr>)"
    by (simp add: dispatchOutbox_def bindC_def on_db_def b v y)
  then have x: "x = y" "dw_db w' = db'" using dispatch by auto
  have c: "c \<in> G2" using run2(1) by simp
  then obtain A3 where run3: "A2 \<subseteq> A3" "outbox_run env db' G2 A3"
    "\<forall>z. y = Inr z \<longrightarrow> (\<exists>acks. answer = Inr acks \<and> (c, acks) \<in> A3)"
    using finish_run [OF run2(3) _ y] by blast
  have "published_result env A3 z" if z: "sound_env env" "y = Inr z" for z
  proof -
    obtain acks where acks: "answer = Inr acks" "(c, acks) \<in> A3" using run3(3) z(2) by blast
    have "published_result env (insert (c, acks) A2) z"
      using finish_result [OF run2(3) z(1) c] y z(2) acks(1) by blast
    then show ?thesis using acks(2) run3(1) by (auto simp: published_result_def)
  qed
  then show ?thesis using x run2(1,2) run3(1,2) by (intro exI [of _ G2] exI [of _ A3]) auto
qed

lemma dispatch_run:
  assumes run: "outbox_run env (dw_db w) G A" and dispatch: "dispatchOutbox env send locked i w = (x, w')"
  shows "\<exists>G' A'. G \<subseteq> G' \<and> A \<subseteq> A' \<and> outbox_run env (dw_db w') G' A'
    \<and> (sound_env env \<longrightarrow> (\<forall>z. x = Inr z \<longrightarrow> published_result env A' z))"
proof -
  obtain b db where b: "dispatch_begin env locked i (dw_db w) = (b, db)" by (cases "dispatch_begin env locked i (dw_db w)")
  show ?thesis
  proof (cases "\<exists>c. b = Inr (To_send c)")
    case True
    then show ?thesis using dispatch_sent [OF run _ dispatch] b by blast
  next
    case False
    have quiet: "dw_db w' = db \<and> (\<forall>z. x = Inr z \<longrightarrow> b = Inr (Already_published z))"
    proof (cases b)
      case (Inr s)
      then show ?thesis
        using dispatch b False by (cases s) (auto simp: dispatchOutbox_def bindC_def on_db_def retC_def)
    qed (use dispatch b in \<open>auto simp: dispatchOutbox_def bindC_def on_db_def\<close>)
    have run1: "outbox_run env db G A"
      using begin_run [OF run b] False by (auto split: sum.splits dispatch_start.splits)
    have "published_result env A z" if "sound_env env" "x = Inr z" for z
      by (rule begin_result [OF run that(1)]) (use quiet b that in simp)
    then show ?thesis using quiet run1 by (intro exI [of _ G] exI [of _ A]) simp
  qed
qed

lemma dispatch_continues:
  "outbox_run env (dw_db w) G A \<Longrightarrow> continues env G A (dw_db (snd (dispatchOutbox env send locked i w)))"
  unfolding continues_def by (cases "dispatchOutbox env send locked i w") (metis dispatch_run snd_conv)

end

section \<open>The SQS adapter keeps the contract\<close>

text \<open>What moves the tables while a request is on its way continues every run.\<close>

locale shared_tables =
  fixes env :: outbox_env and meanwhile :: "outbox_db \<Rightarrow> outbox_db"
  assumes moves: "outbox_run env db G A \<Longrightarrow> continues env G A (meanwhile db)"

lemma sqs_queue_tables: "dw_db (snd (sqs_queue senv configuration meanwhile batches w)) = meanwhile (dw_db w)"
  by (simp add: sqs_queue_def split: prod.split)

sublocale shared_tables < sqs: dispatch_queue env "sqs_queue senv configuration meanwhile" for senv configuration
  by unfold_locales (simp add: sqs_queue_tables moves)

text \<open>A dispatcher that is alone, and one beside which others complete dispatches of their own.\<close>

interpretation alone: shared_tables env "\<lambda>db. db" for env
  by unfold_locales (rule continues_refl)

fun others ::
  "outbox_env \<Rightarrow> 'h sqs_env \<Rightarrow> sqs_configuration \<Rightarrow> (bool \<times> uuid \<times> 'h sqs_state) list \<Rightarrow> outbox_db \<Rightarrow> outbox_db" where
  "others env senv configuration [] db = db"
| "others env senv configuration ((locked, i, q) # rest) db =
     others env senv configuration rest
       (dw_db (snd (dispatchOutbox env (sqs_queue senv configuration (\<lambda>db. db)) locked i \<lparr>dw_db = db, dw_queue = q\<rparr>)))"

lemma continues_trans:
  "continues env G A db \<Longrightarrow> (\<And>G' A'. outbox_run env db G' A' \<Longrightarrow> continues env G' A' db') \<Longrightarrow> continues env G A db'"
  unfolding continues_def by (metis order_trans)

lemma others_continue:
  "outbox_run env db G A \<Longrightarrow> continues env G A (others env senv configuration dispatches db)"
proof (induction dispatches arbitrary: db G A)
  case Nil
  then show ?case by (simp add: continues_refl)
next
  case (Cons d dispatches)
  obtain locked i q where d: "d = (locked, i, q)" by (cases d)
  let ?w = "\<lparr>dw_db = db, dw_queue = q\<rparr>"
  have "continues env G A (dw_db (snd (dispatchOutbox env (sqs_queue senv configuration (\<lambda>db. db)) locked i ?w)))"
    by (rule alone.sqs.dispatch_continues) (simp add: Cons.prems)
  then show ?case unfolding d others.simps by (rule continues_trans) (rule Cons.IH)
qed

interpretation among: shared_tables env "others env senv configuration dispatches" for env senv configuration dispatches
  by unfold_locales (rule others_continue)

text \<open>
  C5: A dispatch through SQS, beside which any number of other dispatchers
  complete dispatches of their own, continues the run of the outbox, and a result that it returns is the record
  of a published row with exactly the batches of a claim that the queue acknowledged completely.
\<close>

theorem dispatch_returns_published:
  assumes "outbox_run env (dw_db w) G A" and "sound_env env"
    and "dispatchOutbox env (sqs_queue senv configuration (others env senv' configuration' dispatches)) locked i w = (Inr z, w')"
  shows "\<exists>G' A'. G \<subseteq> G' \<and> A \<subseteq> A' \<and> outbox_run env (dw_db w') G' A' \<and> published_result env A' z"
  using among.sqs.dispatch_run [OF assms(1,3)] assms(2) by blast

section \<open>The poll and the fast path\<close>

lemma poll_one_total:
  "\<exists>item w'. poll_one env send d locked i requestId w = (Inr item, w') \<and> pi_outboxId item = i
     \<and> (pi_errorCode item = None) = (pi_outcome item = Poll_published)"
proof -
  let ?m = "bindC (liftR (createDispatchOutboxContext i Scheduled_job requestId)) (\<lambda>x.
             bindC (executeDispatchOutboxCapability env send d (locked i) i x) (\<lambda>_.
             retC \<lparr>pi_outboxId = i, pi_outcome = Poll_published, pi_errorCode = None\<rparr>))"
  obtain x w' where x: "?m w = (x, w')" by (cases "?m w")
  show ?thesis
  proof (cases x)
    case (Inl e)
    obtain code retryable where e: "normalizeDispatcherError e = (code, retryable)" by (cases "normalizeDispatcherError e")
    show ?thesis using x Inl e by (simp add: poll_one_def catchC_def retC_def)
  next
    case (Inr item)
    then have "item = \<lparr>pi_outboxId = i, pi_outcome = Poll_published, pi_errorCode = None\<rparr>"
      using x by (auto simp: retC_def elim!: bindC_InrE)
    then show ?thesis using x Inr by (simp add: poll_one_def catchC_def)
  qed
qed

lemma poll_all_total:
  "\<exists>new w'. poll_all env send d locked ids requestIds items w = (Inr (items @ new), w') \<and> map pi_outboxId new = ids
     \<and> (\<forall>item \<in> set new. (pi_errorCode item = None) = (pi_outcome item = Poll_published))"
proof (induction ids arbitrary: items w)
  case Nil
  then show ?case by (simp add: retC_def)
next
  case (Cons i ids)
  obtain item w1 where one: "poll_one env send d locked i (requestIds (length items)) w = (Inr item, w1)"
    "pi_outboxId item = i" "(pi_errorCode item = None) = (pi_outcome item = Poll_published)"
    using poll_one_total [of env send d locked i "requestIds (length items)" w] by (elim exE conjE) (rule that)
  obtain new w2 where rest: "poll_all env send d locked ids requestIds (items @ [item]) w1 = (Inr ((items @ [item]) @ new), w2)"
    "map pi_outboxId new = ids" "\<forall>item \<in> set new. (pi_errorCode item = None) = (pi_outcome item = Poll_published)"
    using Cons.IH by blast
  show ?case
    using one rest by (intro exI [of _ "item # new"] exI [of _ w2]) (simp add: bindC_def)
qed

lemma outcome_counts:
  "length (items :: poll_item list) = length (filter (\<lambda>item. pi_outcome item = Poll_published) items)
     + length (filter (\<lambda>item. pi_outcome item = Poll_deferred) items)
     + length (filter (\<lambda>item. pi_outcome item = Poll_failed) items)"
proof (induction items)
  case (Cons item items)
  then show ?case by (cases "pi_outcome item") simp_all
qed simp

text \<open>
  C25: Once the ready rows are listed, a poll always returns, whatever its
  dispatches throw: it examines each listed row, oldest first, at most a hundred, names an error for exactly the
  rows that were not published, and its counts add up.
\<close>

theorem poll_examines_every_row:
  assumes "listReadyOutboxIds env limitValue (dw_db w) = (Inr ids, db')"
  shows "\<exists>report w'. pollOutbox env send d locked limitValue requestIds w = (Inr report, w')
    \<and> map pi_outboxId (pr_items report) = ids \<and> length ids \<le> 100
    \<and> filter (\<lambda>item. pi_errorCode item = None) (pr_items report) = filter (\<lambda>item. pi_outcome item = Poll_published) (pr_items report)
    \<and> pr_examinedCount report = length ids
    \<and> pr_examinedCount report = pr_publishedCount report + pr_deferredCount report + pr_failedCount report"
proof -
  obtain limit where limit: "assertPositiveBoundedInteger limitValue MAX_OUTBOX_POLL_SIZE = Inr limit"
    using assms by (auto simp: listReadyOutboxIds_def liftR_def elim!: bindC_InrE)
  then have bounds: "1 \<le> limit" "limit \<le> MAX_OUTBOX_POLL_SIZE" "js_integer limitValue" "limit = js_int limitValue"
    by (auto simp: assertPositiveBoundedInteger_def split: if_split_asm dest!: js_integer_num)
  have listed: "listReadyOutboxIds env (Finite (of_int limit)) (dw_db w) = (Inr ids, db')"
    using assms limit bounds by (simp add: listReadyOutboxIds_def)
  have "length ids \<le> nat limit"
    using assms limit by (auto simp: listReadyOutboxIds_def liftR_def bindC_def readDatabaseTime_def)
  then have short: "length ids \<le> 100" using bounds(2) by (simp add: MAX_OUTBOX_POLL_SIZE_def)
  obtain items w' where items: "poll_all env send d locked ids requestIds [] (w\<lparr>dw_db := db'\<rparr>) = (Inr items, w')"
    "map pi_outboxId items = ids" "\<forall>item \<in> set items. (pi_errorCode item = None) = (pi_outcome item = Poll_published)"
    using poll_all_total [of env send d locked ids requestIds "[]" "w\<lparr>dw_db := db'\<rparr>"] by auto
  have "filter (\<lambda>item. pi_errorCode item = None) items = filter (\<lambda>item. pi_outcome item = Poll_published) items"
    using items(3) by (intro filter_cong) simp_all
  moreover have "length items = length ids" using items(2) length_map [of pi_outboxId items] by simp
  ultimately show ?thesis
    using limit listed items(1,2) short outcome_counts [of items]
    by (simp add: pollOutbox_def bindC_def liftR_def on_db_def retC_def Let_def)
qed

text \<open>The fast path after a commit never fails its caller.\<close>

lemma fast_path_total: "\<exists>x w'. dispatchOutboxAfterCommit env send d locked i requestId w = (Inr x, w')"
  by (auto simp: dispatchOutboxAfterCommit_def catchC_def retC_def split: prod.split sum.split)

end
