(* ===== verification/Outbox_Handoff.thy ===== *)
theory Outbox_Handoff
  imports Outbox_Sqs
begin

text \<open>
  What the SQS adapter guarantees: an accepted answer acknowledges exactly the entries that were
  sent, refused credentials are forgotten, and a request is signed only for canonical batches
  under credentials that have not expired.
\<close>

section \<open>Answers\<close>

lemma collected_successes:
  "collect_successes expected acks vs = Inr out \<Longrightarrow> distinct (map qa_entryId acks) \<Longrightarrow>
   set (map qa_entryId acks) \<subseteq> set expected \<Longrightarrow>
   distinct (map qa_entryId out) \<and> set (map qa_entryId out) \<subseteq> set expected"
proof (induction vs arbitrary: acks)
  case (Cons v vs)
  then show ?case by (auto split: option.split_asm if_split_asm)
qed simp

lemma parsed_answer:
  assumes "parseSqsSendMessageBatchResponse v entries = Inr acks" and "distinct (map qe_id entries)"
  shows "distinct (map qa_entryId acks)" "set (map qa_entryId acks) = set (map qe_id entries)"
proof -
  obtain fs where fs: "unknownRecord v = Some fs"
    using assms(1) by (auto simp: parseSqsSendMessageBatchResponse_def split: option.split_asm)
  obtain successful failed where arrays: "or_else (js_field fs ''Successful'') (JArr []) = JArr successful"
    "or_else (js_field fs ''Failed'') (JArr []) = JArr failed"
    using assms(1) fs by (auto simp: parseSqsSendMessageBatchResponse_def split: js_value.split_asm)
  have acks: "collect_successes (map qe_id entries) [] successful = Inr acks"
    and card: "card (qa_entryId ` set acks) = card (set (map qe_id entries))"
    using assms(1) fs arrays
    by (auto simp: parseSqsSendMessageBatchResponse_def bindR_Inr_iff Let_def split: if_split_asm)
  have a: "distinct (map qa_entryId acks) \<and> set (map qa_entryId acks) \<subseteq> set (map qe_id entries)"
    by (rule collected_successes [OF acks]) simp_all
  then show "distinct (map qa_entryId acks)" by simp
  show "set (map qa_entryId acks) = set (map qe_id entries)"
    using a card by (intro card_subset_eq) simp_all
qed

lemma serialized_entries:
  assumes "serializeDispatchQueueEntries json_text batches = Inr entries"
  shows "map qe_id entries = map (\<lambda>b. entry_id (b_sequence b)) batches" "distinct (map qe_id entries)"
    "map qe_batchId entries = map b_id batches" "map qe_body entries = map json_text batches"
    "list_all DispatchBatchSchema batches" "1 \<le> length batches" "length batches \<le> 10"
  using assms by (auto simp: serializeDispatchQueueEntries_def comp_def Suc_le_eq split: if_split_asm)

section \<open>The parts of a hand-over\<close>

lemma fetch_cases:
  assumes "fetchWithDispatcherTimeout env request failure consume s = (x, s')"
  obtains (lost) net where "x = Inl failure" "s' = s\<lparr>ss_net := net\<rparr>"
  | (answered) response net y where "consume response (s\<lparr>ss_net := net\<rparr>) = (y, s')"
      "x = (case y of Inl e \<Rightarrow> Inl (network_error failure e) | Inr a \<Rightarrow> Inr a)"
  using assms that by (fastforce simp: fetchWithDispatcherTimeout_def catchC_def throwC_def
      split: prod.splits option.splits sum.splits)

lemma consumed:
  assumes "consume_answer env entries response s = (x, s')"
  shows "s' = s" "x = Inr acks \<Longrightarrow> \<exists>v. parseSqsSendMessageBatchResponse v entries = Inr acks"
  using assms by (auto simp: consume_answer_def throwC_def liftR_def split: sum.split_asm if_split_asm)

text \<open>What a hand-over does once its request is signed.\<close>

definition deliver ::
  "'h sqs_env \<Rightarrow> queue_entry list \<Rightarrow> http_request \<Rightarrow> ('h sqs_state, dispatch_thrown, queue_acknowledgement list) comp" where
  "deliver env entries request =
     catchC (fetchWithDispatcherTimeout env request (Publish_error SQS_REQUEST_FAILED True Unknown_outcome)
               (consume_answer env entries))
       (\<lambda>e. bindC (case e of Publish_error SQS_AUTHENTICATION_FAILED _ _ \<Rightarrow> invalidate | _ \<Rightarrow> retC ())
               (\<lambda>_. throwC e))"

lemma delivered:
  assumes "deliver env entries request s = (x, s')"
  shows "x = Inr acks \<Longrightarrow> \<exists>v. parseSqsSendMessageBatchResponse v entries = Inr acks"
    and "x = Inl (Publish_error SQS_AUTHENTICATION_FAILED retryable outcome) \<Longrightarrow> ss_cached s' = None"
proof -
  obtain y v where y: "fetchWithDispatcherTimeout env request (Publish_error SQS_REQUEST_FAILED True Unknown_outcome)
      (consume_answer env entries) s = (y, v)" by force
  show "\<exists>v. parseSqsSendMessageBatchResponse v entries = Inr acks" if "x = Inr acks"
  proof -
    have "y = Inr acks"
      using assms y that
      by (cases y) (auto simp: deliver_def catchC_def bindC_def throwC_def split: prod.split_asm sum.split_asm)
    with y show ?thesis by (cases rule: fetch_cases) (auto split: sum.split_asm dest: consumed(2))
  qed
  show "ss_cached s' = None" if "x = Inl (Publish_error SQS_AUTHENTICATION_FAILED retryable outcome)"
  proof (cases y)
    case (Inl e)
    have "e = Publish_error SQS_AUTHENTICATION_FAILED retryable outcome"
      using assms y that Inl
      by (auto simp: deliver_def catchC_def bindC_def throwC_def retC_def invalidate_def
          split: prod.split_asm sum.split_asm dispatch_thrown.split_asm dispatcher_code.split_asm)
    then show ?thesis
      using assms y Inl by (auto simp: deliver_def catchC_def bindC_def throwC_def invalidate_def)
  qed (use assms y that in \<open>auto simp: deliver_def catchC_def\<close>)
qed

lemma send_deliver:
  "sqs_send env configuration batches =
     bindC (liftR (serializeDispatchQueueEntries (se_batchText env) batches)) (\<lambda>entries.
     bindC (catchC (getCredentials env) (\<lambda>e. throwC (network_error (credentials_unavailable True) e))) (\<lambda>credentials.
     bindC (sqs_now env) (\<lambda>now.
     bindC (liftR (signSqsSendMessageBatchRequest env configuration entries credentials now)) (deliver env entries))))"
  by (simp add: sqs_send_def deliver_def [abs_def])

text \<open>
  C23: When a hand-over to SQS returns, its acknowledgements name exactly the
  entries of the batches, each one once: a partial, repeated or foreign answer is never taken for success.
\<close>

theorem sqs_answer_complete:
  assumes "sqs_send env configuration batches s = (Inr acks, s')"
  shows "distinct (map qa_entryId acks) \<and> length acks = length batches
    \<and> set (map qa_entryId acks) = (\<lambda>b. entry_id (b_sequence b)) ` set batches"
proof -
  obtain entries request s1 where e: "serializeDispatchQueueEntries (se_batchText env) batches = Inr entries"
    and d: "deliver env entries request s1 = (Inr acks, s')"
    using assms unfolding send_deliver by (auto simp: liftR_def elim!: bindC_InrE)
  obtain v where v: "parseSqsSendMessageBatchResponse v entries = Inr acks" using delivered(1) [OF d] by blast
  note ids = serialized_entries [OF e]
  have "distinct (map qa_entryId acks)" "set (map qa_entryId acks) = set (map qe_id entries)"
    using parsed_answer [OF v ids(2)] by simp_all
  moreover have "length acks = length batches"
    using calculation ids(1,2) distinct_card [of "map qa_entryId acks"] distinct_card [of "map qe_id entries"]
    by (metis length_map)
  ultimately show ?thesis using ids(1) by simp
qed

section \<open>Requests\<close>

lemma parsed_configuration:
  assumes "parseSqsDispatchBatchQueueConfiguration env v = Inr c"
  shows "\<exists>u. se_url env (sc_queueUrl v) = Some u \<and> sc_queueUrl c = u_href u \<and> sc_region c = sc_region v
    \<and> region_ok (sc_region v) \<and> u_protocol u = ''https:''
    \<and> u_hostname u = sqs_host (sc_region v)
    \<and> u_port u = [] \<and> u_username u = [] \<and> u_password u = []"
  using assms
  by (auto simp: parseSqsDispatchBatchQueueConfiguration_def validatedSqsQueueUrl_def bindR_Inr_iff Let_def
      split: option.split_asm if_split_asm)

text \<open>
  C24: A request is signed only under credentials that have not expired and for one to
  ten entries of at most a mebibyte together, each of which reads back as the batch it names; it is posted,
  over TLS and without a port or a user of its own, to the SQS host of the configured region, with the session
  token of these credentials. The URL parser must read back what it has written.
\<close>

theorem sqs_request_sound:
  assumes "signSqsSendMessageBatchRequest env configuration entries credentials now = Inr request"
    and "\<And>s u. se_url env s = Some u \<Longrightarrow> se_url env (u_href u) = Some u"
  shows "\<exists>t u. now = Some t \<and> \<not> expired_by t (tc_expiration credentials)
    \<and> list_all (signable_entry env) entries \<and> length entries \<in> {1..10}
    \<and> sum_list (map (\<lambda>e. length (qe_body e)) entries) \<le> 1048576
    \<and> hq_method request = ''POST'' \<and> hq_endpoint request = u_origin u @ ''/''
    \<and> se_url env (sc_queueUrl configuration) = Some u
    \<and> u_protocol u = ''https:'' \<and> u_port u = [] \<and> u_username u = [] \<and> u_password u = []
    \<and> u_hostname u = sqs_host (sc_region configuration)
    \<and> map_of (hq_headers request) ''x-amz-security-token'' = Some (tc_sessionToken credentials)"
proof -
  obtain c where c: "parseSqsDispatchBatchQueueConfiguration env configuration = Inr c"
    using assms(1) by (auto simp: signSqsSendMessageBatchRequest_def bindR_Inr_iff)
  have valid: "validatedTemporaryCredentials credentials now = Inr credentials"
    using assms(1) by (auto simp: signSqsSendMessageBatchRequest_def bindR_Inr_iff validatedTemporaryCredentials_def
        split: if_split_asm)
  obtain u where u: "se_url env (sc_queueUrl configuration) = Some u" "sc_queueUrl c = u_href u"
    "u_protocol u = ''https:''" "u_port u = []" "u_username u = []" "u_password u = []"
    "u_hostname u = sqs_host (sc_region configuration)"
    using parsed_configuration [OF c] by blast
  have url: "se_url env (sc_queueUrl c) = Some u" using assms(2) [OF u(1)] u(2) by simp
  have entries: "list_all (signable_entry env) entries" "\<not> length entries < 1" "\<not> length entries > 10"
    "sum_list (map (\<lambda>e. length (qe_body e)) entries) \<le> MAX_SQS_BATCH_PAYLOAD_BYTES"
    using assms(1) by (auto simp: signSqsSendMessageBatchRequest_def bindR_Inr_iff split: if_split_asm)
  obtain dates content where r: "request = signed_request env u (sc_region c) credentials dates content"
    using assms(1) c valid url entries
    by (auto simp: signSqsSendMessageBatchRequest_def bindR_Inr_iff Let_def)
  obtain t where t: "now = Some t" "\<not> expired_by t (tc_expiration credentials)"
    using valid by (auto simp: validatedTemporaryCredentials_def split: if_split_asm option.split_asm)
  show ?thesis
    by (intro exI [of _ t] exI [of _ u])
       (use t entries u(1,3-7) in \<open>simp add: r signed_request_def Let_def MAX_SQS_BATCH_PAYLOAD_BYTES_def Suc_le_eq\<close>)
qed

section \<open>Credentials\<close>

definition refusal :: "dispatch_thrown \<Rightarrow> bool" where
  "refusal e = (\<exists>retryable outcome. e = Publish_error SQS_AUTHENTICATION_FAILED retryable outcome)"

lemma no_refusal [simp]:
  "\<not> refusal Unexpected_error" "\<not> refusal (credentials_unavailable b)" "\<not> refusal config_invalid"
  "\<not> refusal entry_rejected" "\<not> refusal (Dispatcher_error c b)"
  by (simp_all add: refusal_def credentials_unavailable_def config_invalid_def entry_rejected_def)

lemma network_refusal: "refusal (network_error failure e) \<Longrightarrow> refusal failure \<or> refusal e"
  by (cases e) simp_all

lemma credentials_validated: "validatedTemporaryCredentials v now = Inl e \<Longrightarrow> \<not> refusal e"
  by (auto simp: validatedTemporaryCredentials_def split: if_split_asm)

lemma read_chunks_error: "read_chunks n failure bs cs = Inl e \<Longrightarrow> e = failure"
  by (induction cs arbitrary: bs) (auto split: if_split_asm)

lemma read_json_error:
  assumes "readBoundedJson env response n failure = Inl e"
  shows "e = failure \<or> e = Unexpected_error"
proof (cases "hr_body response")
  case (Some p)
  obtain chunks finish where p: "p = (chunks, finish)" by (cases p)
  show ?thesis
  proof (cases "read_chunks n failure [] chunks")
    case (Inl e')
    then show ?thesis using assms Some p read_chunks_error [OF Inl] by (auto simp: readBoundedJson_def split: if_split_asm)
  next
    case (Inr bytes)
    then show ?thesis
      using assms Some p
      by (cases finish; cases "se_utf8 env bytes"; cases "se_json env (the (se_utf8 env bytes))")
         (auto simp: readBoundedJson_def split: if_split_asm)
  qed
qed (use assms in \<open>auto simp: readBoundedJson_def split: if_split_asm\<close>)

lemma credential_steps:
  "environmentTemporaryCredentials env now = Inl e \<Longrightarrow> \<not> refusal e"
  "validCredentialEndpoint env = Inl e \<Longrightarrow> \<not> refusal e"
  "credentialsFromContainerResponse env v now = Inl e \<Longrightarrow> \<not> refusal e"
  by (auto simp: environmentTemporaryCredentials_def bindR_Inl_iff dest: credentials_validated split: option.split_asm)
     (auto simp: validCredentialEndpoint_def role_endpoint_def bindR_Inl_iff Let_def split: option.split_asm if_split_asm,
      auto simp: credentialsFromContainerResponse_def dest: credentials_validated
        split: option.split_asm if_split_asm js_value.split_asm)

text \<open>The computations that never throw a refusal of SQS.\<close>

definition unrefused :: "('w, dispatch_thrown, 'a) comp \<Rightarrow> bool" where
  "unrefused m = (\<forall>s e s'. m s = (Inl e, s') \<longrightarrow> \<not> refusal e)"

lemma unrefused_intros [simp, intro!]:
  "unrefused (retC a)" "unrefused (sqs_now env)" "\<not> refusal e \<Longrightarrow> unrefused (throwC e)"
  "(\<And>e. x = Inl e \<Longrightarrow> \<not> refusal e) \<Longrightarrow> unrefused (liftR x)"
  by (auto simp: unrefused_def retC_def sqs_now_def throwC_def liftR_def)

lemma unrefusedD: "unrefused m \<Longrightarrow> m s = (Inl e, s') \<Longrightarrow> \<not> refusal e"
  unfolding unrefused_def by blast

lemma unrefused_bind [intro!]: "unrefused m \<Longrightarrow> (\<And>a. unrefused (f a)) \<Longrightarrow> unrefused (bindC m f)"
  by (fastforce simp: unrefused_def bindC_def split: prod.split_asm sum.split_asm)

lemma unrefused_fetch:
  assumes "\<not> refusal failure" and "\<And>response. unrefused (consume response)"
  shows "unrefused (fetchWithDispatcherTimeout env request failure consume)"
  unfolding unrefused_def
proof (intro allI impI)
  fix s e s' assume "fetchWithDispatcherTimeout env request failure consume s = (Inl e, s')"
  then show "\<not> refusal e"
  proof (cases rule: fetch_cases)
    case (answered response net y)
    then show ?thesis
      using assms unfolding unrefused_def by (cases y) (auto dest: network_refusal)
  qed (use assms in simp)
qed

lemma unrefused_load: "unrefused (loadCredentials env)"
  unfolding loadCredentials_def
  by (auto simp: credential_steps split: option.split prod.split intro!: unrefused_fetch dest!: read_json_error)

lemma unrefused_get: "unrefused (getCredentials env)"
proof -
  have load: "unrefused (bindC (loadCredentials env) (\<lambda>loaded s. (Inr loaded, s\<lparr>ss_cached := Some loaded\<rparr>)))"
    by (rule unrefused_bind [OF unrefused_load]) (simp add: unrefused_def)
  have "unrefused (\<lambda>s. case ss_cached s of
         Some c \<Rightarrow>
           if still_fresh now c then (Inr c, s)
           else bindC (loadCredentials env) (\<lambda>loaded s. (Inr loaded, s\<lparr>ss_cached := Some loaded\<rparr>)) s
       | None \<Rightarrow> bindC (loadCredentials env) (\<lambda>loaded s. (Inr loaded, s\<lparr>ss_cached := Some loaded\<rparr>)) s)" for now
    unfolding unrefused_def by (auto split: option.split_asm if_split_asm dest: unrefusedD [OF load])
  then show ?thesis unfolding getCredentials_def by (intro unrefused_bind) simp_all
qed

lemma sign_unrefused: "signSqsSendMessageBatchRequest env c entries v now = Inl e \<Longrightarrow> \<not> refusal e"
  by (auto simp: signSqsSendMessageBatchRequest_def parseSqsDispatchBatchQueueConfiguration_def validatedSqsQueueUrl_def
      assertPositiveBoundedInteger_def awsDateParts_def bindR_Inl_iff Let_def dest: credentials_validated
      split: if_split_asm option.split_asm)

lemma serialize_unrefused: "serializeDispatchQueueEntries text batches = Inl e \<Longrightarrow> \<not> refusal e"
  by (auto simp: serializeDispatchQueueEntries_def refusal_def split: if_split_asm)

text \<open>
  When SQS refuses the credentials of a request, the adapter no
  longer holds them: the next hand-over resolves credentials anew.
\<close>

theorem refused_credentials_forgotten:
  assumes "sqs_send env configuration batches s = (Inl (Publish_error SQS_AUTHENTICATION_FAILED retryable outcome), s')"
  shows "ss_cached s' = None"
proof -
  let ?e = "Publish_error SQS_AUTHENTICATION_FAILED retryable outcome"
  let ?get = "catchC (getCredentials env) (\<lambda>e. throwC (network_error (credentials_unavailable True) e))"
  have e: "refusal ?e" by (auto simp: refusal_def)
  have get: "unrefused ?get"
    by (auto simp: unrefused_def [of ?get] catchC_def throwC_def split: prod.split_asm sum.split_asm
        dest!: network_refusal dest: unrefusedD [OF unrefused_get])
  obtain entries where entries: "serializeDispatchQueueEntries (se_batchText env) batches = Inr entries"
    using assms e serialize_unrefused
    by (cases "serializeDispatchQueueEntries (se_batchText env) batches") (auto simp: send_deliver bindC_def liftR_def)
  obtain x s1 where x: "?get s = (x, s1)" by (cases "?get s")
  have "x \<noteq> Inl e'" for e'
  proof
    assume "x = Inl e'"
    then have "refusal e'" "?get s = (Inl e', s1)"
      using assms e x entries by (simp_all add: send_deliver bindC_def liftR_def)
    then show False using unrefusedD [OF get] by blast
  qed
  then obtain credentials where credentials: "x = Inr credentials" by (cases x) blast+
  obtain now s2 where now: "sqs_now env s1 = (Inr now, s2)" by (simp add: sqs_now_def)
  let ?sign = "signSqsSendMessageBatchRequest env configuration entries credentials now"
  have rest: "bindC (liftR ?sign) (deliver env entries) s2 = (Inl ?e, s')"
    using assms entries x credentials now by (simp add: send_deliver bindC_def liftR_def)
  obtain request where "?sign = Inr request"
    using rest e by (cases ?sign) (auto simp: bindC_def liftR_def dest: sign_unrefused)
  then have "deliver env entries request s2 = (Inl ?e, s')" using rest by (simp add: bindC_def liftR_def)
  then show ?thesis by (rule delivered(2)) simp
qed

end
