(* ===== verification/Outbox_Samples.thy ===== *)
theory Outbox_Samples
  imports Outbox_Service Outbox_Handoff
begin

text \<open>
  One outbox of a staff drill, dispatched in a small run, at which the properties of the outbox
  are evaluated.
\<close>

definition sample_outbox_message :: outbox_message where
  "sample_outbox_message = \<lparr>n_eventId = nil_uuid, n_kind = Drill, n_mode = Drill_mode, n_purpose = Activation,
     n_typeVersion = \<lparr>tv_id = nil_uuid, tv_mode = Drill_mode\<rparr>, n_rosterSnapshotId = nil_uuid,
     n_population = Staff, n_requestId = nil_uuid,
     n_authorization = For_activation (Human_confirmed nil_uuid None nil_uuid zero_digest nil_uuid),
     om_outboxId = nil_uuid, om_intentId = nil_uuid, om_facilityId = None,
     om_channels = [sample_push, sample_email], om_createdAt = 0\<rparr>"

definition sample_row :: outbox_row where
  "sample_row = \<lparr>ob_id = nil_uuid, ob_messageVersion = 1, ob_intentId = nil_uuid, ob_eventId = nil_uuid,
     ob_eventKind = Drill, ob_templateMode = Drill_mode, ob_rosterPopulation = Staff,
     ob_message = sample_outbox_message, ob_createdAt = 0, ob_status = Outbox_pending, ob_attempts = 0,
     ob_availableAt = 0, ob_lockedUntil = None, ob_publishedAt = None, ob_failedAt = None, ob_lastErrorCode = None\<rparr>"

definition sample_channels :: "channel_row list" where
  "sample_channels = [\<lparr>ch_intentId = nil_uuid, ch_sequence = 1, ch_plan = sample_push\<rparr>,
     \<lparr>ch_intentId = nil_uuid, ch_sequence = 2, ch_plan = sample_email\<rparr>]"

definition sample_event_row :: event_row where
  "sample_event_row = \<lparr>er_id = nil_uuid, er_kind = Drill, er_mode = Drill_mode, er_population = Staff, er_facilityId = nil_uuid\<rparr>"

text \<open>A clock that advances forty seconds with every reading, past every lease of half a minute.\<close>

definition sample_outbox_env :: outbox_env where
  "sample_outbox_env = \<lparr>oe_clock = (\<lambda>n. 40000 * int n), oe_id = (\<lambda>n. if n = 0 then nil_uuid else max_uuid),
     oe_sha = (\<lambda>_. 0), oe_text = b_id, oe_lease = 30000, oe_maxAttempts = 5\<rparr>"

lemma sample_outbox_env_sound: "sound_env sample_outbox_env"
  by (simp add: sound_env_def sample_outbox_env_def mono_def)

definition sample_recorded :: outbox_db where
  "sample_recorded = \<lparr>db_events = [sample_event_row], db_channels = sample_channels, db_outbox = [sample_row],
     db_batches = [], db_idsDrawn = 0, db_reads = 0\<rparr>"

definition sample_batch_row :: "uuid \<Rightarrow> int \<Rightarrow> channel_preview \<Rightarrow> batch_row" where
  "sample_batch_row i k plan = \<lparr>n_eventId = nil_uuid, n_kind = Drill, n_mode = Drill_mode, n_purpose = Activation,
     n_typeVersion = \<lparr>tv_id = nil_uuid, tv_mode = Drill_mode\<rparr>, n_rosterSnapshotId = nil_uuid,
     n_population = Staff, n_requestId = nil_uuid,
     n_authorization = For_activation (Human_confirmed nil_uuid None nil_uuid zero_digest nil_uuid),
     br_id = i, br_outboxId = nil_uuid, br_intentId = nil_uuid, br_plan = plan, br_sequence = k, br_createdAt = 40000\<rparr>"

definition sample_claimed :: outbox_db where
  "sample_claimed = sample_recorded\<lparr>
     db_outbox := [sample_row\<lparr>ob_status := Outbox_processing, ob_attempts := 1, ob_lockedUntil := Some 70000\<rparr>],
     db_batches := [sample_batch_row nil_uuid 1 sample_push, sample_batch_row max_uuid 2 sample_email],
     db_idsDrawn := 2, db_reads := 2\<rparr>"

definition sent_batch :: "uuid \<Rightarrow> int \<Rightarrow> channel_preview \<Rightarrow> dispatch_batch" where
  "sent_batch i k plan = \<lparr>n_eventId = nil_uuid, n_kind = Drill, n_mode = Drill_mode, n_purpose = Activation,
     n_typeVersion = \<lparr>tv_id = nil_uuid, tv_mode = Drill_mode\<rparr>, n_rosterSnapshotId = nil_uuid,
     n_population = Staff, n_requestId = nil_uuid,
     n_authorization = For_activation (Human_confirmed nil_uuid None nil_uuid zero_digest nil_uuid),
     b_id = i, b_intentId = nil_uuid, b_facilityId = nil_uuid, b_channel = cp_channel plan,
     b_message = cp_message plan, b_integrationId = cp_integrationId plan, b_sequence = k,
     b_endpointCount = cp_endpointCount plan, b_createdAt = 40000\<rparr>"

definition sample_claim_until :: "timestamp \<Rightarrow> dispatch_claim" where
  "sample_claim_until t = \<lparr>dc_outboxId = nil_uuid, dc_facilityId = nil_uuid, dc_attempt = 1, dc_lockedUntil = t,
     dc_record = \<lparr>or_id = nil_uuid, or_message = sample_outbox_message, or_status = Outbox_processing, or_attempts = 1,
       or_availableAt = 0, or_lockedUntil = Some t, or_publishedAt = None, or_failedAt = None,
       or_lastErrorCode = None\<rparr>,
     dc_batches = [sent_batch nil_uuid 1 sample_push, sent_batch max_uuid 2 sample_email]\<rparr>"

abbreviation sample_claim :: dispatch_claim where "sample_claim \<equiv> sample_claim_until 70000"

lemmas outbox_samples = sample_row_def sample_recorded_def sample_claimed_def sample_outbox_env_def sample_batch_row_def
  sent_batch_def sample_channels_def sample_event_row_def

lemma sample_outbox_message_ok: "NotificationOutboxMessageSchema sample_outbox_message"
  unfolding NotificationOutboxMessageSchema_def NotificationChannelPlanSchema_def channel_plan_ok_def
  using sample_previews_ok
  by (simp add: sample_outbox_message_def notification_simps)
     (simp add: sample_push_def sample_email_def sample_message_def)

lemma sample_resolved:
  "db_events db = [sample_event_row] \<Longrightarrow> same_content sample_row r \<Longrightarrow>
   resolveOutboxMessage r db = Inr (nil_uuid, sample_outbox_message)"
  using sample_outbox_message_ok
  by (simp add: resolveOutboxMessage_def outboxMessageFromRow_def same_content_def sample_row_def sample_event_row_def
      message_version_def eventPopulationForNotification_def)
     (simp add: sample_outbox_message_def)

lemma sent_batches_ok:
  "DispatchBatchSchema (sent_batch nil_uuid 1 sample_push)" "DispatchBatchSchema (sent_batch max_uuid 2 sample_email)"
  by code_simp+

lemma sample_loaded:
  assumes "db_batches db = [sample_batch_row nil_uuid 1 sample_push, sample_batch_row max_uuid 2 sample_email]"
    and "ob_id r = nil_uuid"
  shows "loadDispatchBatches r (nil_uuid, sample_outbox_message) db = Inr (dc_batches (sample_claim_until t))"
proof -
  have "batchFromRow (sample_batch_row nil_uuid 1 sample_push) sample_outbox_message nil_uuid = Inr (sent_batch nil_uuid 1 sample_push)"
    "batchFromRow (sample_batch_row max_uuid 2 sample_email) sample_outbox_message nil_uuid = Inr (sent_batch max_uuid 2 sample_email)"
    using sent_batches_ok
    by (simp_all add: batchFromRow_def sample_batch_row_def sent_batch_def sample_outbox_message_def)
       (simp_all add: sample_push_def sample_email_def)
  then show ?thesis
    using assms by (simp add: loadDispatchBatches_def sample_claim_until_def) (simp add: sample_batch_row_def)
qed

definition sample_locked :: "timestamp \<Rightarrow> outbox_row" where
  "sample_locked t = sample_row\<lparr>ob_status := Outbox_processing, ob_attempts := 1, ob_lockedUntil := Some t\<rparr>"

abbreviation sample_processing :: outbox_row where "sample_processing \<equiv> sample_locked 70000"

lemma sample_record: "0 \<le> t \<Longrightarrow> outboxRecordFromRow (sample_locked t) = Inr (dc_record (sample_claim_until t))"
  using sample_outbox_message_ok
  by (simp add: outboxRecordFromRow_def outboxMessageFromRow_def sample_locked_def sample_row_def message_version_def
      OutboxRecordSchema_def sample_claim_until_def isAtOrAfter_def)
     (simp add: sample_outbox_message_def)

lemma sample_result_ok:
  assumes "OutboxRecordSchema x" and "or_message x = sample_outbox_message"
  shows "DispatchOutboxResultSchema \<lparr>dr_facilityId = nil_uuid, dr_record = x, dr_batches = dc_batches (sample_claim_until t)\<rparr>"
  using sent_batches_ok assms
  by (simp add: DispatchOutboxResultSchema_def sample_claim_until_def sample_outbox_message_def batch_preserves_message_def
      sent_batch_def upto.simps)
     (simp add: sample_push_def sample_email_def)

lemma sample_claim_result_ok:
  "0 \<le> t \<Longrightarrow> DispatchOutboxResultSchema
     \<lparr>dr_facilityId = nil_uuid, dr_record = dc_record (sample_claim_until t), dr_batches = dc_batches (sample_claim_until u)\<rparr>"
  using record_fields [OF sample_record] by (intro sample_result_ok) (auto simp: sample_locked_def sample_row_def)

lemma sample_content: "same_content sample_row (sample_locked t)"
  by (simp add: same_content_def sample_locked_def)

lemma sample_ensured:
  "ensureStableDispatchBatches sample_outbox_env sample_processing 40000
     (sample_recorded\<lparr>db_outbox := [sample_processing], db_reads := 2\<rparr>)
   = (Inr (nil_uuid, dc_batches sample_claim), sample_claimed)"
proof -
  let ?db = "sample_recorded\<lparr>db_outbox := [sample_processing], db_reads := 2\<rparr>"
  have resolved: "resolveOutboxMessage sample_processing ?db = Inr (nil_uuid, sample_outbox_message)"
    by (rule sample_resolved) (simp_all add: sample_recorded_def sample_content)
  have plan: "plan_matches (sort_key ch_sequence (filter (\<lambda>c. ch_intentId c = nil_uuid) sample_channels)) [sample_push, sample_email]"
    by (simp add: plan_matches_def sample_channels_def)
  have channels: "cp_channel sample_push = Push" "cp_channel sample_email = Email" by (simp_all add: sample_push_def sample_email_def)
  have inserted: "insert_missing sample_outbox_env sample_processing sample_outbox_message 40000 []
      [(0, sample_push), (1, sample_email)] ?db = (Inr (), sample_claimed)"
    using channels
    by (simp add: insert_batch_def new_batch_def bindC_def retC_def sample_outbox_env_def sample_recorded_def
        sample_claimed_def sample_batch_row_def sample_outbox_message_def sample_locked_def sample_row_def)
  have loaded: "loadDispatchBatches sample_processing (nil_uuid, sample_outbox_message) sample_claimed = Inr (dc_batches sample_claim)"
    by (rule sample_loaded) (simp_all add: sample_claimed_def sample_locked_def sample_row_def)
  have fields: "db_channels ?db = sample_channels" "db_batches ?db = []" "ob_intentId sample_processing = nil_uuid"
    "om_channels sample_outbox_message = [sample_push, sample_email]"
    by (simp_all add: sample_recorded_def sample_locked_def sample_row_def sample_outbox_message_def)
  show ?thesis
    using resolved plan inserted loaded sample_record [of 70000] sample_claim_result_ok [of 70000 70000]
    unfolding ensureStableDispatchBatches_def
    by (simp add: bindC_def liftR_def guardC_def guardR_def retC_def fields del: insert_missing.simps)
qed

lemma sample_claim_parsed: "0 \<le> t \<Longrightarrow> parseDispatchClaim (sample_claim_until t) = Inr (sample_claim_until t)"
  by (rule claim_parses [OF sample_record _ _ sample_claim_result_ok])
     (simp_all add: sample_locked_def sample_claim_until_def sample_row_def)

lemma sample_begun: "dispatch_begin sample_outbox_env False nil_uuid sample_recorded = (Inr (To_send sample_claim), sample_claimed)"
proof -
  have id: "ob_id sample_row = nil_uuid" "lower_case nil_uuid = nil_uuid" by (simp add: sample_row_def) code_simp
  have row: "claimable 0 sample_row" "claimed_row sample_outbox_env sample_row 40000 = sample_processing"
    by (simp_all add: claimable_def claimed_row_def sample_row_def sample_locked_def sample_outbox_env_def)
  have ok: "guard_outbox_mutation sample_row sample_processing" "outbox_constraints sample_processing"
    by (simp_all add: guard_outbox_mutation_def same_content_def outbox_constraints_def sample_row_def sample_locked_def)
  have update: "update_outbox (\<lambda>r. ob_id r = ob_id sample_row \<and> ob_status r = ob_status sample_row \<and> ob_attempts r = ob_attempts sample_row)
      (\<lambda>r. claimed_row sample_outbox_env r 40000) (sample_recorded\<lparr>db_reads := 2\<rparr>)
    = (Inr (Some sample_processing), sample_recorded\<lparr>db_outbox := [sample_processing], db_reads := 2\<rparr>)"
    using ok row(2) by (simp add: update_outbox_def sample_recorded_def)
  have start: "start_claim sample_outbox_env sample_row 40000 (sample_recorded\<lparr>db_reads := 2\<rparr>) = (Inr (Claimed sample_claim), sample_claimed)"
    using update sample_ensured sample_record [of 70000]
    by (simp add: start_claim_def bindC_def liftR_def retC_def)
       (simp add: sample_claim_until_def sample_locked_def sample_row_def sample_outbox_env_def)
  have clock: "oe_clock sample_outbox_env 0 = 0" "oe_clock sample_outbox_env 1 = 40000" by (simp_all add: sample_outbox_env_def)
  have db: "db_outbox sample_recorded = [sample_row]" "db_reads sample_recorded = 0" "ob_status sample_row = Outbox_pending"
    "ob_attempts sample_row = 0" "oe_maxAttempts sample_outbox_env = 5"
    by (simp_all add: sample_recorded_def sample_row_def sample_outbox_env_def)
  have "claimOutbox sample_outbox_env False nil_uuid sample_recorded = (Inr (Claimed sample_claim), sample_claimed)"
    using start clock row(1) id db
    by (simp add: claimOutbox_def claim_body_def outbox_transaction_def bindC_def readDatabaseTime_def numeral_2_eq_2)
  then show ?thesis using sample_claim_parsed [of 70000] by (simp add: dispatch_begin_def bindC_def liftR_def retC_def)
qed

definition sample_acks :: "queue_acknowledgement list" where
  "sample_acks = [\<lparr>qa_entryId = ''batch_1'', qa_messageId = ''one''\<rparr>, \<lparr>qa_entryId = ''batch_2'', qa_messageId = ''two''\<rparr>]"

lemma sample_acknowledged:
  "assertCompleteQueueAcknowledgement (oe_text sample_outbox_env) (dc_batches sample_claim) sample_acks = Inr ()"
proof -
  have "entry_id 1 = ''batch_1''" "entry_id 2 = ''batch_2''" by code_simp+
  moreover have "js_trim ''batch_1'' \<noteq> []" "js_trim ''batch_2'' \<noteq> []" "js_trim ''one'' \<noteq> []" "js_trim ''two'' \<noteq> []" by code_simp+
  ultimately show ?thesis
    using sent_batches_ok
    by (simp add: assertCompleteQueueAcknowledgement_def serializeDispatchQueueEntries_def sample_claim_until_def sample_acks_def)
       (simp add: sent_batch_def)
qed

text \<open>The run: the row is recorded, claimed, and its batches acknowledged.\<close>

lemma sample_run_recorded: "outbox_run sample_outbox_env sample_recorded {} {}"
proof -
  let ?empty = "\<lparr>db_events = [], db_channels = [], db_outbox = [], db_batches = [], db_idsDrawn = 0, db_reads = 0\<rparr>"
  have "lower_case nil_uuid = nil_uuid" by code_simp
  then have "recorded_row sample_row sample_channels ?empty"
    by (simp add: recorded_row_def sample_row_def outbox_constraints_def sample_channels_def)
  then have "outbox_run sample_outbox_env (?empty\<lparr>db_outbox := db_outbox ?empty @ [sample_row],
      db_events := db_events ?empty @ [sample_event_row], db_channels := db_channels ?empty @ sample_channels\<rparr>) {} {}"
    by (rule outbox_run.recorded [OF outbox_run.started])
  then show ?thesis by (simp add: sample_recorded_def)
qed

lemma sample_run_claimed: "outbox_run sample_outbox_env sample_claimed {sample_claim} {}"
  by (rule outbox_run.begun [OF sample_run_recorded sample_begun])

text \<open>The lease runs out and a second dispatcher takes the outbox over.\<close>

definition sample_reclaimed :: outbox_db where
  "sample_reclaimed = sample_claimed\<lparr>db_outbox := [sample_locked 150000], db_reads := 4\<rparr>"

abbreviation sample_reclaim :: dispatch_claim where "sample_reclaim \<equiv> sample_claim_until 150000"

lemma sample_ensured_again:
  "ensureStableDispatchBatches sample_outbox_env (sample_locked 150000) 120000 sample_reclaimed
   = (Inr (nil_uuid, dc_batches sample_reclaim), sample_reclaimed)"
proof -
  have resolved: "resolveOutboxMessage (sample_locked 150000) sample_reclaimed = Inr (nil_uuid, sample_outbox_message)"
    by (rule sample_resolved) (simp_all add: sample_reclaimed_def sample_claimed_def sample_recorded_def sample_content)
  have plan: "plan_matches (sort_key ch_sequence (filter (\<lambda>c. ch_intentId c = nil_uuid) sample_channels)) [sample_push, sample_email]"
    by (simp add: plan_matches_def sample_channels_def)
  have channels: "cp_channel sample_push = Push" "cp_channel sample_email = Email" by (simp_all add: sample_push_def sample_email_def)
  have loaded: "loadDispatchBatches (sample_locked 150000) (nil_uuid, sample_outbox_message) sample_reclaimed
      = Inr (dc_batches sample_reclaim)"
    by (rule sample_loaded) (simp_all add: sample_reclaimed_def sample_claimed_def sample_locked_def sample_row_def)
  have existing: "map (\<lambda>b. cp_channel (br_plan b)) (filter (\<lambda>b. br_outboxId b = ob_id (sample_locked 150000)) (db_batches sample_reclaimed)) = [Push, Email]"
    using channels by (simp add: sample_reclaimed_def sample_claimed_def sample_batch_row_def sample_locked_def sample_row_def)
  have fields: "db_channels sample_reclaimed = sample_channels" "ob_intentId (sample_locked 150000) = nil_uuid"
    "om_channels sample_outbox_message = [sample_push, sample_email]"
    by (simp_all add: sample_reclaimed_def sample_claimed_def sample_recorded_def sample_locked_def sample_row_def sample_outbox_message_def)
  have inserted: "insert_missing sample_outbox_env (sample_locked 150000) sample_outbox_message 120000
      (map (\<lambda>b. cp_channel (br_plan b)) (filter (\<lambda>b. br_outboxId b = ob_id (sample_locked 150000)) (db_batches sample_reclaimed)))
      (enumerate 0 [sample_push, sample_email]) sample_reclaimed = (Inr (), sample_reclaimed)"
    unfolding existing using channels by (simp add: retC_def)
  show ?thesis
    using resolved plan loaded inserted sample_record [of 150000] sample_claim_result_ok [of 150000 150000]
    unfolding ensureStableDispatchBatches_def
    by (simp add: bindC_def liftR_def guardC_def guardR_def retC_def fields del: insert_missing.simps)
qed

lemma sample_begun_again: "dispatch_begin sample_outbox_env False nil_uuid sample_claimed = (Inr (To_send sample_reclaim), sample_reclaimed)"
proof -
  have id: "ob_id sample_processing = nil_uuid" "lower_case nil_uuid = nil_uuid" by (simp add: sample_row_def sample_locked_def) code_simp
  have row: "claimable 80000 sample_processing" "claimed_row sample_outbox_env sample_processing 120000 = sample_locked 150000"
    by (simp_all add: claimable_def claimed_row_def sample_row_def sample_locked_def sample_outbox_env_def)
  have ok: "guard_outbox_mutation sample_processing (sample_locked 150000)" "outbox_constraints (sample_locked 150000)"
    by (simp_all add: guard_outbox_mutation_def same_content_def outbox_constraints_def sample_row_def sample_locked_def)
  have update: "update_outbox (\<lambda>r. ob_id r = ob_id sample_processing \<and> ob_status r = ob_status sample_processing
        \<and> ob_attempts r = ob_attempts sample_processing)
      (\<lambda>r. claimed_row sample_outbox_env r 120000) (sample_claimed\<lparr>db_reads := 4\<rparr>)
    = (Inr (Some (sample_locked 150000)), sample_reclaimed)"
    using ok row(2) by (simp add: update_outbox_def sample_claimed_def sample_reclaimed_def flip: sample_locked_def)
  have start: "start_claim sample_outbox_env sample_processing 120000 (sample_claimed\<lparr>db_reads := 4\<rparr>)
      = (Inr (Claimed sample_reclaim), sample_reclaimed)"
    using update sample_ensured_again sample_record [of 150000]
    by (simp add: start_claim_def bindC_def liftR_def retC_def)
       (simp add: sample_claim_until_def sample_locked_def sample_row_def sample_outbox_env_def)
  have clock: "oe_clock sample_outbox_env 2 = 80000" "oe_clock sample_outbox_env 3 = 120000" by (simp_all add: sample_outbox_env_def)
  have db: "db_outbox sample_claimed = [sample_processing]" "db_reads sample_claimed = 2" "ob_status sample_processing = Outbox_processing"
    by (simp_all add: sample_claimed_def sample_locked_def)
  have "claimOutbox sample_outbox_env False nil_uuid sample_claimed = (Inr (Claimed sample_reclaim), sample_reclaimed)"
    using start clock row(1) id db
    by (simp add: claimOutbox_def claim_body_def outbox_transaction_def bindC_def readDatabaseTime_def eval_nat_numeral)
  then show ?thesis using sample_claim_parsed [of 150000] by (simp add: dispatch_begin_def bindC_def liftR_def retC_def)
qed

lemma sample_run_reclaimed: "outbox_run sample_outbox_env sample_reclaimed {sample_reclaim, sample_claim} {}"
  by (rule outbox_run.begun [OF sample_run_claimed sample_begun_again])

text \<open>The first dispatcher publishes in time.\<close>

definition sample_published_row :: outbox_row where
  "sample_published_row = sample_processing\<lparr>ob_status := Outbox_published, ob_lockedUntil := None, ob_publishedAt := Some 80000\<rparr>"

definition sample_published :: outbox_db where
  "sample_published = sample_claimed\<lparr>db_outbox := [sample_published_row], db_reads := 3\<rparr>"

definition sample_published_record :: outbox_record where
  "sample_published_record = (dc_record sample_claim)\<lparr>or_status := Outbox_published, or_lockedUntil := None, or_publishedAt := Some 80000\<rparr>"

definition sample_result :: dispatch_result where
  "sample_result = \<lparr>dr_facilityId = nil_uuid, dr_record = sample_published_record, dr_batches = dc_batches sample_claim\<rparr>"

lemma sample_fence: "claimFence sample_claim sample_processing"
proof -
  have "lower_case nil_uuid = nil_uuid" by code_simp
  then show ?thesis by (simp add: claimFence_def sample_claim_until_def sample_locked_def sample_row_def)
qed

lemma sample_finished: "dispatch_finish sample_outbox_env sample_claim (Inr sample_acks) sample_claimed = (Inr sample_result, sample_published)"
proof -
  have read: "outboxRecordFromRow sample_published_row = Inr sample_published_record"
    using sample_outbox_message_ok
    by (simp add: outboxRecordFromRow_def outboxMessageFromRow_def sample_published_row_def sample_published_record_def
        sample_locked_def sample_row_def message_version_def OutboxRecordSchema_def sample_claim_until_def isAtOrAfter_def)
       (simp add: sample_outbox_message_def)
  have "or_message sample_published_record = sample_outbox_message"
    by (simp add: sample_published_record_def sample_claim_until_def)
  then have ok: "DispatchOutboxResultSchema sample_result"
    unfolding sample_result_def using record_fields [OF read] by (intro sample_result_ok) simp_all
  have resolved: "resolveOutboxMessage sample_published_row sample_published = Inr (nil_uuid, sample_outbox_message)"
    by (rule sample_resolved)
       (simp_all add: sample_published_def sample_claimed_def sample_recorded_def same_content_def sample_published_row_def sample_locked_def)
  have loaded: "loadDispatchBatches sample_published_row (nil_uuid, sample_outbox_message) sample_published = Inr (dc_batches sample_claim)"
    by (rule sample_loaded) (simp_all add: sample_published_def sample_claimed_def sample_published_row_def sample_locked_def sample_row_def)
  have result: "dispatchResultFromRow sample_published_row sample_published = Inr sample_result"
    using resolved read loaded ok by (simp add: dispatchResultFromRow_def sample_result_def)
  have accepted: "guard_outbox_mutation sample_processing sample_published_row" "outbox_constraints sample_published_row"
    by (simp_all add: guard_outbox_mutation_def same_content_def outbox_constraints_def sample_row_def sample_locked_def
        sample_published_row_def)
  have clock: "oe_clock sample_outbox_env 2 = 80000" by (simp add: sample_outbox_env_def)
  have update: "update_outbox (claimFence sample_claim)
      (\<lambda>r. r\<lparr>ob_status := Outbox_published, ob_lockedUntil := None, ob_publishedAt := Some 80000\<rparr>) (sample_claimed\<lparr>db_reads := 3\<rparr>)
    = (Inr (Some sample_published_row), sample_published)"
    using sample_fence accepted
    by (simp add: update_outbox_def sample_claimed_def sample_published_def sample_published_row_def flip: sample_locked_def)
  have "markPublished sample_outbox_env sample_claim sample_claimed = (Inr (Some sample_result), sample_published)"
    using update result sample_claim_parsed [of 70000] clock
    by (simp add: markPublished_def bindC_def liftR_def outbox_transaction_def readDatabaseTime_def sample_claimed_def eval_nat_numeral)
  then show ?thesis
    using sample_acknowledged ok by (simp add: dispatch_finish_def handed_over_def bindC_def retC_def)
qed

lemma sample_run_published: "outbox_run sample_outbox_env sample_published {sample_claim} {(sample_claim, sample_acks)}"
  by (rule outbox_run.acknowledged [OF sample_run_claimed _ sample_acknowledged sample_finished]) simp

section \<open>The properties at this run\<close>

theorem outbox_writes_accepted_witness:
  "guard_outbox_mutation sample_row sample_processing \<and> outbox_constraints sample_processing"
proof -
  have "claimable 0 sample_row \<and> sample_processing = claimed_row sample_outbox_env sample_row (oe_clock sample_outbox_env (Suc (db_reads sample_recorded)))"
    by (simp add: claimable_def claimed_row_def sample_row_def sample_locked_def sample_outbox_env_def sample_recorded_def)
  then show ?thesis
    by (intro outbox_writes_accepted [OF sample_run_recorded sample_outbox_env_sound, where now = 0])
       (simp_all add: sample_recorded_def sample_outbox_env_def)
qed

theorem outbox_claims_agree_witness:
  "dc_batches sample_reclaim = dc_batches sample_claim \<and> sample_reclaim \<noteq> sample_claim \<and> dc_attempt sample_reclaim \<le> 5"
proof -
  have "dc_outboxId sample_reclaim = dc_outboxId sample_claim" "oe_maxAttempts sample_outbox_env = 5"
    "dc_lockedUntil sample_reclaim \<noteq> dc_lockedUntil sample_claim"
    by (simp_all add: sample_claim_until_def sample_outbox_env_def)
  then show ?thesis
    using outbox_claims_agree [OF sample_run_reclaimed sample_outbox_env_sound, of sample_reclaim sample_claim] by auto
qed

lemma sample_overtaken: "overtaken_by sample_claim sample_reclaim"
  by (simp add: overtaken_by_def sample_claim_until_def)

theorem overtaken_dispatcher_harmless_witness:
  "elapsed sample_reclaimed (snd (dispatch_finish sample_outbox_env sample_claim (Inr sample_acks) sample_reclaimed))"
  by (rule overtaken_dispatcher_harmless [OF sample_run_reclaimed sample_outbox_env_sound _ _ sample_overtaken,
        of "Inr sample_acks" "fst (dispatch_finish sample_outbox_env sample_claim (Inr sample_acks) sample_reclaimed)", THEN conjunct1])
     simp_all

theorem outbox_published_after_handover_witness:
  "\<exists>(c, acks) \<in> {(sample_claim, sample_acks)}. dc_outboxId c = ob_id sample_published_row
    \<and> dc_attempt c = ob_attempts sample_published_row
    \<and> loadDispatchBatches sample_published_row (dc_facilityId c, ob_message sample_published_row) sample_published = Inr (dc_batches c)
    \<and> assertCompleteQueueAcknowledgement (oe_text sample_outbox_env) (dc_batches c) acks = Inr ()"
  by (rule outbox_published_after_handover [OF sample_run_published sample_outbox_env_sound])
     (simp_all add: sample_published_def sample_published_row_def)

theorem lease_holder_publishes_witness:
  "\<exists>z db'. dispatch_finish sample_outbox_env sample_claim (Inr sample_acks) sample_claimed = (Inr z, db')
    \<and> dr_batches z = dc_batches sample_claim \<and> or_id (dr_record z) = dc_outboxId sample_claim
    \<and> or_status (dr_record z) = Outbox_published
    \<and> published_at (oe_clock sample_outbox_env (db_reads sample_claimed)) sample_processing \<in> set (db_outbox db')"
  by (rule lease_holder_publishes [OF sample_run_claimed sample_outbox_env_sound _ _ sample_fence sample_acknowledged])
     (simp_all add: sample_claimed_def sample_locked_def)

theorem expired_lease_taken_over_witness:
  "\<exists>c db'. dispatch_begin sample_outbox_env False (ob_id sample_processing) sample_claimed = (Inr (To_send c), db')
    \<and> dc_outboxId c = ob_id sample_processing \<and> dc_attempt c = ob_attempts sample_processing \<and> 70000 < dc_lockedUntil c
    \<and> {d \<in> {sample_claim}. dc_outboxId d = ob_id sample_processing} \<noteq> {}
    \<and> dc_batches ` {d \<in> {sample_claim}. dc_outboxId d = ob_id sample_processing} = {dc_batches c}"
  by (rule expired_lease_taken_over [OF sample_run_claimed sample_outbox_env_sound])
     (simp_all add: sample_claimed_def sample_locked_def sample_outbox_env_def)

section \<open>A hand-over to SQS\<close>

definition sample_url :: parsed_url where
  "sample_url = \<lparr>u_protocol = ''https:'', u_hostname = ''sqs.us-east-1.amazonaws.com'', u_host = ''sqs.us-east-1.amazonaws.com'',
     u_port = [], u_username = [], u_password = [], u_search = [], u_hash = [], u_pathname = ''/123456789012/queue'',
     u_origin = ''https://sqs.us-east-1.amazonaws.com'', u_href = ''https://sqs.us-east-1.amazonaws.com/123456789012/queue''\<rparr>"

definition sample_answer :: js_value where
  "sample_answer = JObj [(''Successful'', JArr [JObj [(''Id'', JStr ''batch_1''), (''MessageId'', JStr ''one'')],
     JObj [(''Id'', JStr ''batch_2''), (''MessageId'', JStr ''two'')]])]"

definition sample_environment :: "string \<Rightarrow> string option" where
  "sample_environment = map_of [(''AWS_ACCESS_KEY_ID'', ''ABCDEFGHIJKLMNOP''), (''AWS_SECRET_ACCESS_KEY'', ''abcdefghijklmnop''),
     (''AWS_SESSION_TOKEN'', ''qrstuvwxyzabcdef'')]"

text \<open>A network that gives every request the same answer, of the given status and text.\<close>

definition sample_sqs_env :: "int \<Rightarrow> string \<Rightarrow> unit sqs_env" where
  "sample_sqs_env status answer = \<lparr>se_environment = sample_environment, se_url = (\<lambda>_. Some sample_url),
     se_relativeUrl = (\<lambda>_ _. None), se_date = (\<lambda>_. None), se_iso = (\<lambda>_. ''2026-01-01T00:00:00.000Z''),
     se_utf8 = Some, se_json = (\<lambda>s. if s = ''ok'' then Some sample_answer else Some (JStr s)),
     se_batch = (\<lambda>v. if v = JStr nil_uuid then Some (sent_batch nil_uuid 1 sample_push) else Some (sent_batch max_uuid 2 sample_email)),
     se_batchText = b_id, se_jsonText = (\<lambda>_. []), se_sha256Hex = (\<lambda>_. []), se_hmac = (\<lambda>_ _. []), se_hex = (\<lambda>s. s),
     se_clock = (\<lambda>_. Some 0),
     se_fetch = (\<lambda>_ h. (Some \<lparr>hr_status = status, hr_contentLength = None, hr_body = Some ([answer], Read_done)\<rparr>, h))\<rparr>"

definition sample_configuration :: sqs_configuration where
  "sample_configuration = \<lparr>sc_queueUrl = ''queue'', sc_region = ''us-east-1'', sc_timeout = Finite 10000\<rparr>"

definition sample_sqs_state :: "unit sqs_state" where
  "sample_sqs_state = \<lparr>ss_reads = 0, ss_cached = None, ss_net = ()\<rparr>"

definition sample_credentials :: temporary_credentials where
  "sample_credentials = \<lparr>tc_accessKeyId = ''ABCDEFGHIJKLMNOP'', tc_secretAccessKey = ''abcdefghijklmnop'',
     tc_sessionToken = ''qrstuvwxyzabcdef'', tc_expiration = None\<rparr>"

definition sample_entries :: "queue_entry list" where
  "sample_entries = [\<lparr>qe_id = ''batch_1'', qe_batchId = nil_uuid, qe_body = nil_uuid\<rparr>,
     \<lparr>qe_id = ''batch_2'', qe_batchId = max_uuid, qe_body = max_uuid\<rparr>]"

lemma sample_entries_of: "serializeDispatchQueueEntries b_id (dc_batches sample_claim) = Inr sample_entries"
proof -
  have "entry_id 1 = ''batch_1''" "entry_id 2 = ''batch_2''" by code_simp+
  then show ?thesis
    using sent_batches_ok by (simp add: serializeDispatchQueueEntries_def sample_claim_until_def sample_entries_def)
       (simp add: sent_batch_def)
qed

lemma sample_credentials_valid: "validatedTemporaryCredentials sample_credentials (Some 0) = Inr sample_credentials"
  by code_simp

lemma sample_configuration_ok: "parseSqsDispatchBatchQueueConfiguration (sample_sqs_env status answer) sample_configuration
  = Inr (sample_configuration\<lparr>sc_queueUrl := u_href sample_url\<rparr>)"
proof -
  have "region_ok ''us-east-1''" "queue_path_ok ''/123456789012/queue''" "sqs_host ''us-east-1'' = ''sqs.us-east-1.amazonaws.com''"
    by code_simp+
  moreover have "assertPositiveBoundedInteger (Finite 10000) 30000 = Inr 10000"
    using assert_bounded_of_int [of 10000 30000] by simp
  ultimately show ?thesis
    by (simp add: parseSqsDispatchBatchQueueConfiguration_def validatedSqsQueueUrl_def sample_configuration_def
        sample_sqs_env_def sample_url_def)
qed

lemma sample_signable: "list_all (signable_entry (sample_sqs_env status answer)) sample_entries"
proof -
  have "list_all queue_name_char ''batch_1''" "list_all queue_name_char ''batch_2''" by code_simp+
  moreover have "nil_uuid \<noteq> ''ok''" "max_uuid \<noteq> ''ok''" "nil_uuid \<noteq> []" "max_uuid \<noteq> []"
    by (simp_all add: nil_uuid_def max_uuid_def)
  ultimately show ?thesis
    by (simp add: signable_entry_def sample_entries_def sample_sqs_env_def) (simp add: sent_batch_def)
qed

lemma sample_signed:
  "\<exists>request. signSqsSendMessageBatchRequest (sample_sqs_env status answer) sample_configuration sample_entries sample_credentials (Some 0) = Inr request"
proof -
  have size: "sum_list (map (\<lambda>e. length (qe_body e)) sample_entries) = 72"
    by (simp add: sample_entries_def nil_uuid_def max_uuid_def)
  have "\<exists>dates. awsDateParts (sample_sqs_env status answer) (Some 0) = Inr dates" by (simp add: awsDateParts_def Let_def)
  moreover have "se_url (sample_sqs_env status answer) q = Some sample_url" for q by (simp add: sample_sqs_env_def)
  moreover have "length sample_entries = 2" by (simp add: sample_entries_def)
  ultimately show ?thesis
    using sample_signable [of status answer] sample_credentials_valid sample_configuration_ok [of status answer] size
    by (auto simp: signSqsSendMessageBatchRequest_def MAX_SQS_BATCH_PAYLOAD_BYTES_def Let_def)
qed

lemma sample_got: "getCredentials (sample_sqs_env status answer) sample_sqs_state
  = (Inr sample_credentials, \<lparr>ss_reads = 2, ss_cached = Some sample_credentials, ss_net = ()\<rparr>)"
proof -
  have "environmentTemporaryCredentials (sample_sqs_env status answer) (Some 0) = Inr (Some sample_credentials)"
    using sample_credentials_valid
    by (simp add: environmentTemporaryCredentials_def sample_sqs_env_def sample_environment_def sample_credentials_def)
  then show ?thesis
    by (simp add: getCredentials_def loadCredentials_def bindC_def sqs_now_def liftR_def retC_def sample_sqs_state_def)
       (simp add: sample_sqs_env_def retC_def numeral_2_eq_2)
qed

lemma sample_send:
  "\<exists>request. sqs_send (sample_sqs_env status answer) sample_configuration (dc_batches sample_claim) sample_sqs_state
   = deliver (sample_sqs_env status answer) sample_entries request \<lparr>ss_reads = 3, ss_cached = Some sample_credentials, ss_net = ()\<rparr>"
proof -
  have "se_batchText (sample_sqs_env status answer) = b_id" "se_clock (sample_sqs_env status answer) n = Some 0" for n
    by (simp_all add: sample_sqs_env_def)
  then show ?thesis
    using sample_signed [of status answer] sample_entries_of sample_got [of status answer]
    by (auto simp: send_deliver bindC_def liftR_def catchC_def sqs_now_def)
qed

lemma sample_sent:
  "sqs_send (sample_sqs_env 200 ''ok'') sample_configuration (dc_batches sample_claim) sample_sqs_state
   = (Inr sample_acks, \<lparr>ss_reads = 3, ss_cached = Some sample_credentials, ss_net = ()\<rparr>)"
proof -
  have "readBoundedJson (sample_sqs_env 200 ''ok'') r MAX_SQS_RESPONSE_BYTES e = Inr sample_answer"
    if "r = \<lparr>hr_status = 200, hr_contentLength = None, hr_body = Some ([''ok''], Read_done)\<rparr>" for r e
    by (simp add: that readBoundedJson_def sample_sqs_env_def MAX_SQS_RESPONSE_BYTES_def)
  moreover have "parseSqsSendMessageBatchResponse sample_answer sample_entries = Inr sample_acks" by code_simp
  ultimately have "deliver (sample_sqs_env 200 ''ok'') sample_entries request s = (Inr sample_acks, s)" for request s
    by (simp add: deliver_def fetchWithDispatcherTimeout_def catchC_def consume_answer_def response_ok_def liftR_def
        throwC_def sample_sqs_env_def)
  then show ?thesis using sample_send [of 200 "''ok''"] by auto
qed

lemma sample_refused:
  "\<exists>s. sqs_send (sample_sqs_env 403 ''no'') sample_configuration (dc_batches sample_claim) sample_sqs_state
   = (Inl (Publish_error SQS_AUTHENTICATION_FAILED False Not_sent), s)"
proof -
  have read: "readBoundedJson (sample_sqs_env 403 ''no'') r MAX_SQS_RESPONSE_BYTES e = Inr (JStr ''no'')"
    if "r = \<lparr>hr_status = 403, hr_contentLength = None, hr_body = Some ([''no''], Read_done)\<rparr>" for r e
    by (simp add: that readBoundedJson_def sample_sqs_env_def MAX_SQS_RESPONSE_BYTES_def)
  have "sqsHttpFailure 403 (JStr ''no'') = Publish_error SQS_AUTHENTICATION_FAILED False Not_sent" by code_simp
  then have "\<exists>s'. deliver (sample_sqs_env 403 ''no'') sample_entries request s
      = (Inl (Publish_error SQS_AUTHENTICATION_FAILED False Not_sent), s')" for request s
    using read
    by (simp add: deliver_def fetchWithDispatcherTimeout_def catchC_def consume_answer_def response_ok_def
        throwC_def bindC_def invalidate_def sample_sqs_env_def)
  then show ?thesis using sample_send [of 403 "''no''"] by auto
qed

theorem sqs_answer_complete_witness:
  "distinct (map qa_entryId sample_acks) \<and> length sample_acks = length (dc_batches sample_claim)
   \<and> set (map qa_entryId sample_acks) = (\<lambda>b. entry_id (b_sequence b)) ` set (dc_batches sample_claim)"
  by (rule sqs_answer_complete [OF sample_sent])

theorem refused_credentials_forgotten_witness:
  "ss_cached (snd (sqs_send (sample_sqs_env 403 ''no'') sample_configuration (dc_batches sample_claim) sample_sqs_state)) = None"
proof -
  obtain s where "sqs_send (sample_sqs_env 403 ''no'') sample_configuration (dc_batches sample_claim) sample_sqs_state
      = (Inl (Publish_error SQS_AUTHENTICATION_FAILED False Not_sent), s)" using sample_refused by blast
  then show ?thesis using refused_credentials_forgotten by (metis snd_conv)
qed

theorem sqs_request_sound_witness:
  "\<exists>request. signSqsSendMessageBatchRequest (sample_sqs_env 200 ''ok'') sample_configuration sample_entries sample_credentials (Some 0) = Inr request
   \<and> hq_method request = ''POST''
   \<and> map_of (hq_headers request) ''x-amz-security-token'' = Some (tc_sessionToken sample_credentials)"
proof -
  obtain request where request: "signSqsSendMessageBatchRequest (sample_sqs_env 200 ''ok'') sample_configuration sample_entries
      sample_credentials (Some 0) = Inr request" using sample_signed by blast
  have "hq_method request = ''POST'' \<and> map_of (hq_headers request) ''x-amz-security-token'' = Some (tc_sessionToken sample_credentials)"
    using sqs_request_sound [OF request] by (auto simp: sample_sqs_env_def)
  then show ?thesis using request by blast
qed

theorem dispatch_returns_published_witness:
  "\<exists>w' G' A'. dispatchOutbox sample_outbox_env
       (sqs_queue (sample_sqs_env 200 ''ok'') sample_configuration (others sample_outbox_env (sample_sqs_env 200 ''ok'') sample_configuration []))
       False nil_uuid \<lparr>dw_db = sample_recorded, dw_queue = sample_sqs_state\<rparr> = (Inr sample_result, w')
   \<and> outbox_run sample_outbox_env (dw_db w') G' A' \<and> published_result sample_outbox_env A' sample_result"
proof -
  let ?queue = "sqs_queue (sample_sqs_env 200 ''ok'') sample_configuration
      (others sample_outbox_env (sample_sqs_env 200 ''ok'') sample_configuration [])"
  let ?w = "\<lparr>dw_db = sample_recorded, dw_queue = sample_sqs_state\<rparr>"
  have "\<exists>w'. dispatchOutbox sample_outbox_env ?queue False nil_uuid ?w = (Inr sample_result, w')"
    using sample_begun sample_sent sample_finished
    by (simp add: dispatchOutbox_def on_db_def bindC_def sqs_queue_def)
  then obtain w' where w': "dispatchOutbox sample_outbox_env ?queue False nil_uuid ?w = (Inr sample_result, w')" by blast
  have "outbox_run sample_outbox_env (dw_db ?w) {} {}" using sample_run_recorded by simp
  from dispatch_returns_published [OF this sample_outbox_env_sound w'] w' show ?thesis by blast
qed

definition dispatch_definition :: capability_definition where
  "dispatch_definition = \<lparr>def_id = ''dispatch-outbox'', operation = Mutation, safetyEffect = No_effect,
     humanActionPolicy = Policy_none,
     invocation = \<lparr>principalKinds = [System], sources = [Worker, Scheduled_job], agentGrantable = False\<rparr>,
     auditPolicy = All_outcomes, mutationOrderAfter = None, agentGrantOrderAfter = None,
     inputSchema = ''DispatchOutboxInputSchema'', outputSchema = ''DispatchOutboxResultSchema''\<rparr>"

theorem poll_examines_every_row_witness:
  "\<exists>report w'. pollOutbox sample_outbox_env (sqs_queue (sample_sqs_env 200 ''ok'') sample_configuration (\<lambda>db. db))
       dispatch_definition (\<lambda>_. False)
       (Finite 1) (\<lambda>_. nil_uuid) \<lparr>dw_db = sample_recorded, dw_queue = sample_sqs_state\<rparr> = (Inr report, w')
    \<and> map pi_outboxId (pr_items report) = [nil_uuid]"
proof -
  have "listReadyOutboxIds sample_outbox_env (Finite 1) sample_recorded = (Inr [nil_uuid], sample_recorded\<lparr>db_reads := 1\<rparr>)"
    using assert_bounded_of_int [of 1 MAX_OUTBOX_POLL_SIZE]
    by (simp add: listReadyOutboxIds_def bindC_def liftR_def readDatabaseTime_def MAX_OUTBOX_POLL_SIZE_def sample_recorded_def
        sample_row_def claimable_def sample_outbox_env_def)
  then show ?thesis
    using poll_examines_every_row [of sample_outbox_env "Finite 1" "\<lparr>dw_db = sample_recorded, dw_queue = sample_sqs_state\<rparr>"
      "[nil_uuid]"] by fastforce
qed

end
