(* ===== verification/Spec2Isabelle.thy ===== *)
theory Spec2Isabelle
  imports Catalog_Facts Retry Attempt_Store Event_Lifecycle Delivery_Chain Processor_Replay Partner_Limit Audit_Evidence Capability_Samples Capability_Session Outbox_Samples
begin

text \<open>
  PSD EOC is the emergency operations centre of a school district. A person starts an event (a drill
  or an incident), the server notifies the staff of a school over push, e-mail and SMS, and the event
  is later cleared, reactivated and closed. This library models the core of the server
  (\<open>packages/server\<close>), its contracts (\<open>packages/contracts\<close>) and the shared code of its
  notification workers (\<open>workers/shared\<close>), and proves what makes them safe.

  \<^bold>\<open>How the parts work together.\<close> Everything a person, an agent key, a partner, the scheduler or a
  provider may ask for is a \<^emph>\<open>capability\<close> of one closed catalog. A capability runs in the engine: one
  transaction that checks the caller, claims an idempotency key, demands a human confirmation where
  the catalog protects the action, runs the handler, and appends to a hash-chained audit log. A
  handler that notifies people writes a send intent and an outbox row in the same transaction. The
  outbox dispatcher claims the row under a lease, splits it into immutable batches, hands them to SQS
  and publishes the row. A worker takes a batch, leases each attempt in a durable store, asks for a
  fresh authorization, calls the provider at most once, and writes append-only delivery evidence; the
  retry policy decides what a failure means, and the reconciler settles what never came back. The
  surfaces without a person in front of them stay inside sliding-window budgets.

  \<^bold>\<open>Shared vocabulary.\<close> \<open>Prelude\<close>: code that may throw is a sum with the thrown error on the left
  (\<open>bindR\<close>), code over a state is a function of the state that returns a sum and the new state
  (\<open>bindC\<close>, \<open>catchC\<close>, \<open>transactionC\<close> rolls back on a throw), and \<open>keeps\<close> is the preservation of
  an invariant by such code. \<open>Contracts\<close> holds callers, provenance and identifiers
  (\<open>contracts/src/capability.ts\<close>, \<open>human-only.ts\<close>, \<open>shared.ts\<close>).

  \<^bold>\<open>Capability catalog\<close> (\<open>contracts/src/capability-catalog.ts\<close>,
  \<open>capability-derived-registry.ts\<close>, \<open>agent-key-grants.ts\<close>, \<open>partner-capabilities.ts\<close>).
  \<open>Catalog\<close> is the table with the checks that run when the module loads; \<open>Catalog_Views\<close> the
  manifests derived from any catalog; \<open>Catalog_Facts\<close> evaluates the table once, entry by entry, and
  proves that loading succeeds, which entries carry a safety effect, and that partners cannot reach
  one. Agents can: the key grants deliberately list \<open>start-event\<close>, \<open>all-clear-event\<close> and
  \<open>close-event\<close>. What keeps them from staff is the engine, which refuses a non-human caller for a
  staff roster (\<open>protected_handler_guarded\<close>), and the event contracts.

  \<^bold>\<open>Capability engine\<close> (\<open>server/lib/capabilities/engine.ts\<close>, with the tables of
  \<open>persistence.ts\<close> and the confirmation rows of \<open>events.ts\<close>). \<open>Capability_Safety\<close> holds the
  envelopes, confirmations and the derivation of the protected actions; \<open>Capability_Engine\<close> and
  \<open>Capability_Run\<close> the engine. The lemmas: \<open>Capability_Guard\<close> (a refused run changes nothing but the
  audit log, every outcome of a well-formed invocation is audited), \<open>Capability_Confirm\<close> (what stands in front of a handler;
  that a handler was reached is expressed by two runs that differ in the handler alone),
  \<open>Capability_Records\<close> (over many runs a confirmation is used once), \<open>Capability_Keys\<close> (a completed
  key never reaches a handler again), \<open>Capability_Session\<close> (the entry points around sessions);
  \<open>Capability_Samples\<close> evaluates them on a drill. The engine is given the audit writer of the store
  that it runs on, one of the five in the code. An invocation that is malformed is refused before the
  audited part of a run and leaves no entry. The eight mutations whose repository keeps their
  idempotency keys reserve nothing in the engine, and the property of the keys is not about them.

  \<^bold>\<open>Audit log\<close> (\<open>contracts/src/audit.ts\<close>, \<open>server/lib/audit\<close>, and the writers elsewhere).
  \<open>Audit_Log\<close> and \<open>Audit_Verify\<close> model the entry schema, the repository and the shared writer of
  \<open>persistence.ts\<close>, and the paged verification; \<open>Audit_Writers\<close> the other inserts into the table:
  those of \<open>events.ts\<close>, \<open>media/repository.ts\<close> and \<open>drizzle-prepared-activation-store.ts\<close>, which are one
  function in three copies, the sign-in audit with the two session stores that use it
  (\<open>sign-in-audit.ts\<close>, \<open>partner-session.ts\<close>, \<open>session-cookie.ts\<close>), \<open>start.ts\<close>, the activation limit of
  \<open>start/_lib/confirmation.ts\<close>, and \<open>admin.ts\<close>. \<open>Audit_Chain\<close> proves that verification accepts
  every log these writers reach. The copies that hash an event as it is given to them (events, media,
  prepared activations, sign-in) take part for events that the table returns as they were written:
  trimmed texts, lower-case identifiers. Without that the log breaks, which
  \<open>direct_writer_breaks_chain\<close> shows on an event that a request can cause. \<open>Audit_Evidence\<close> proves
  that acceptance shows the log unchanged against its anchors, and that verification returns.

  \<^bold>\<open>Events and notifications\<close> (\<open>contracts/src/event.ts\<close>, \<open>event-type.ts\<close>,
  \<open>notification.ts\<close>). \<open>Event_Contracts\<close> and \<open>Notification\<close> are the schemas as predicates;
  \<open>Event_Lifecycle\<close> proves that protected transitions and staff events go back to a confirmed human,
  \<open>Notification\<close> that people are only notified by humans and partners only of real incidents.

  \<^bold>\<open>Outbox dispatcher\<close> (\<open>server/lib/notify/dispatcher.ts\<close>, the outbox tables of
  \<open>db/schema/delivery.ts\<close>). \<open>Outbox_Store\<close> and \<open>Outbox_Claim\<close> are the store: claims, batches,
  publication, retries, with the checks and the update trigger of the table. \<open>Outbox_Dispatch\<close> is
  one dispatch, the capability around it, the poll and the fast path; \<open>Outbox_Queue\<close> and
  \<open>Outbox_Sqs\<close> the SQS adapter: entries, credentials, signature, answers. \<open>Outbox_Steps\<close> and
  \<open>Outbox_Finish\<close> are case rules for the transactions; \<open>Outbox_Run\<close> interleaves the two halves of
  any number of dispatches with crashes and with any answer of the queue, \<open>Outbox_Invariant\<close> proves
  the invariant of these runs, and \<open>Outbox_Facts\<close> and \<open>Outbox_Progress\<close> draw the properties:
  publication only after a complete hand-over, agreement of all claims, harmless overtaken
  dispatchers, recovery of expired leases. \<open>Outbox_Handoff\<close> proves the adapter; \<open>Outbox_Service\<close>
  holds the locales \<open>dispatch_queue\<close> (what a queue promises its dispatcher) and \<open>shared_tables\<close>
  (the same, with other dispatchers at work meanwhile), interprets both on the SQS adapter, and
  states the dispatch, the poll and the fast path there.

  \<^bold>\<open>Attempt execution store\<close> (\<open>server/lib/notify/attempt-execution-store.ts\<close>). \<open>Attempt_Store\<close>:
  a claim is two statements between which other transactions may commit, so a step relation
  interleaves its halves; leases exclude each other, and a completed attempt keeps a completion that
  only the holder of its last lease can replace.

  \<^bold>\<open>Workers\<close> (\<open>workers/shared\<close>). \<open>Retry\<close> is \<open>retry.ts\<close>; \<open>Worker_Attempt\<close> is \<open>attempt.ts\<close>
  and \<open>batch-message.ts\<close>; \<open>Processor_Codec\<close> and \<open>Processor\<close> are \<open>processor.ts\<close>, cut where the
  method decides how to go on, with a log of the calls it makes. \<open>Processor_Safety\<close> proves the order
  of the calls and the fate of every lease, \<open>Processor_Replay\<close> that a settled attempt is replayed and never sent again.

  \<^bold>\<open>Delivery evidence\<close> (\<open>server/app/api/internal/delivery-state/runtime.ts\<close>,
  \<open>server/lib/notify/reconcile.ts\<close>). \<open>Delivery_Evidence\<close> is the append-only store and the
  reconciler; \<open>Delivery_Chain\<close> proves that the facts of an attempt form one linked chain whose
  final truths are final.

  \<^bold>\<open>Budgets\<close> (\<open>server/lib/http/sliding-window.ts\<close>, \<open>agents/rate-limit.ts\<close>,
  \<open>auth/partner-otp-limit.ts\<close>). \<open>Rate_Limit\<close> and \<open>Partner_Limit\<close>: the pruned limiter is proved
  equal to one that keeps every admission, and bounded in every window. A limiter is one process from
  its start on: each instance of the server has its own, and a restart begins with empty windows.

  \<^bold>\<open>How values are represented.\<close> A JavaScript number is a rational or one of the non-finite values
  where the code can meet one, otherwise an integer; rounding of floating-point back-off is not
  modelled. An instant is an integer of milliseconds. Text is ASCII, except rendered messages, which
  go up to U+00FF. A record stands for a value of the right shape, and a schema for the predicate of
  the values that it returns. What the code takes from elsewhere is an argument: \<open>JSON.parse\<close> and
  \<open>JSON.stringify\<close>, SHA-256 and HMAC, the URL parser, the date reader, the e-mail pattern of the schema
  library, random identifiers, the clock, the network. Where a property depends on such an argument,
  the law is a named hypothesis (a parser undoes its printer, a digest has the form of one, readings of
  a clock do not go back, tokens are fresh) and a witness instantiates it. A transaction is one step
  unless the text of its theory says otherwise; SQL statements and locks are their effect on the rows;
  length limits of columns are not modelled. Runs of the engine follow one another; the runs of the
  attempt store and of the outbox interleave.

  \<^bold>\<open>Bounds.\<close> No definition runs on fuel. Recursion is structural but for the paged
  verification of the audit log, whose termination is proved: every page lowers the number of anchors
  that are left. Bounds of the code (attempts up to 100, ten batches and a mebibyte for each
  request, a hundred rows for each poll, lease lengths) are written out as the code has them.

  \<^bold>\<open>Not modelled.\<close> The handlers behind most capabilities (event types, event room, records,
  devices, roster, media), sign-in and sessions, the provider clients of the workers, the agent
  gateway, the MCP server, the routes and pages, the mobile application, infrastructure and scripts.
  The engine is proved for any handler that keeps the engine's own tables and lets its context be,
  which is what a handler can do with the transaction that it is given.
\<close>

end
